(* ===== verification/Prelude.thy ===== *)
theory Prelude
  imports Main
begin

text \<open>
  Shared foundations of the development: Go errors, Go panics, the state-passing
  computations in which the effectful code is written, and a small calculus for the
  external calls such a computation issues.

  A Go function that returns \<open>(T, error)\<close> is modelled as a computation with result
  \<open>goerr + 'a\<close>: \<open>Inl\<close> is the early return with an error, \<open>Inr\<close> the value returned with
  \<open>nil\<close>. A run-time panic (nil dereference, slice out of range, explicit \<open>panic\<close>) is
  the outcome \<open>Panic\<close>, which every later step skips.
\<close>

named_theorems io_simps \<open>evaluation rules of the computation combinators\<close>
named_theorems nopanic_intros \<open>introduction rules for computations that never panic\<close>
named_theorems emits_intros \<open>introduction rules for the calls a computation may issue\<close>

section \<open>Errors\<close>

text \<open>
  The dynamic types of the errors the code compares or type-switches on: \<open>simpleError\<close>
  of package lvm, \<open>basicError\<close> of package virsh, \<open>syscall.Errno\<close>, and every other error
  value, of which only the text is used.
\<close>

datatype goerr =
    SimpleError string
  | BasicError string
  | Errno string
  | TextError string

fun Error_text :: "goerr \<Rightarrow> string" where
  "Error_text (SimpleError s) = s"
| "Error_text (BasicError s) = s"
| "Error_text (Errno s) = s"
| "Error_text (TextError s) = s"

section \<open>Computations\<close>

datatype 'a outcome = Ret 'a | Panic string

type_synonym ('s, 'a) io = "'s \<Rightarrow> 'a outcome \<times> 's"

definition ret :: "'a \<Rightarrow> ('s, 'a) io" where
  "ret x s = (Ret x, s)"

definition panic :: "string \<Rightarrow> ('s, 'a) io" where
  "panic msg s = (Panic msg, s)"

definition bind :: "('s, 'a) io \<Rightarrow> ('a \<Rightarrow> ('s, 'b) io) \<Rightarrow> ('s, 'b) io" where
  "bind m f s = (case m s of (Ret x, s') \<Rightarrow> f x s' | (Panic msg, s') \<Rightarrow> (Panic msg, s'))"

definition get_state :: "('s \<Rightarrow> 'a) \<Rightarrow> ('s, 'a) io" where
  "get_state f s = (Ret (f s), s)"

definition put_state :: "('s \<Rightarrow> 's) \<Rightarrow> ('s, unit) io" where
  "put_state f s = (Ret (), f s)"

text \<open>The two returns of a fallible Go function, and the \<open>if err != nil\<close> step.\<close>

definition ok :: "'a \<Rightarrow> ('s, 'e + 'a) io" where
  "ok x = ret (Inr x)"

definition fail :: "'e \<Rightarrow> ('s, 'e + 'a) io" where
  "fail e = ret (Inl e)"

definition tryE :: "('s, 'e + 'a) io \<Rightarrow> ('e \<Rightarrow> ('s, 'b) io) \<Rightarrow> ('a \<Rightarrow> ('s, 'b) io) \<Rightarrow> ('s, 'b) io" where
  "tryE m h k = bind m (\<lambda>r. case r of Inl e \<Rightarrow> h e | Inr x \<Rightarrow> k x)"

text \<open>A discarded result, as in a call statement whose error is ignored.\<close>

definition ignore :: "('s, 'a) io \<Rightarrow> ('s, unit) io" where
  "ignore m = bind m (\<lambda>_. ret ())"

lemma bind_ret [io_simps]: "bind (ret x) f = f x"
  by (rule ext) (simp add: bind_def ret_def)

lemma bind_panic [io_simps]: "bind (panic msg) f = panic msg"
  by (rule ext) (simp add: bind_def panic_def)

lemma bind_assoc [io_simps]: "bind (bind m f) g = bind m (\<lambda>x. bind (f x) g)"
  by (rule ext) (simp add: bind_def split: prod.splits outcome.splits)

lemma tryE_ok [io_simps]: "tryE (ok x) h k = k x"
  by (simp add: tryE_def ok_def bind_ret)

lemma tryE_fail [io_simps]: "tryE (fail e) h k = h e"
  by (simp add: tryE_def fail_def bind_ret)

lemma tryE_panic [io_simps]: "tryE (panic msg) h k = panic msg"
  by (simp add: tryE_def bind_panic)

lemma ret_apply [io_simps]: "ret x s = (Ret x, s)" by (simp add: ret_def)
lemma panic_apply [io_simps]: "panic msg s = (Panic msg, s)" by (simp add: panic_def)
lemma ok_apply [io_simps]: "ok x s = (Ret (Inr x), s)" by (simp add: ok_def ret_def)
lemma fail_apply [io_simps]: "fail e s = (Ret (Inl e), s)" by (simp add: fail_def ret_def)
lemma get_state_apply [io_simps]: "get_state f s = (Ret (f s), s)" by (simp add: get_state_def)
lemma put_state_apply [io_simps]: "put_state f s = (Ret (), f s)" by (simp add: put_state_def)

text \<open>One step of a computation whose first part is known.\<close>

lemma bind_Ret: "m s = (Ret x, s') \<Longrightarrow> bind m f s = f x s'"
  by (simp add: bind_def)

lemma bind_Panic: "m s = (Panic msg, s') \<Longrightarrow> bind m f s = (Panic msg, s')"
  by (simp add: bind_def)

lemma tryE_Inr: "m s = (Ret (Inr x), s') \<Longrightarrow> tryE m h k s = k x s'"
  by (simp add: tryE_def bind_def)

lemma tryE_Inl: "m s = (Ret (Inl e), s') \<Longrightarrow> tryE m h k s = h e s'"
  by (simp add: tryE_def bind_def)

lemma tryE_Panic: "m s = (Panic msg, s') \<Longrightarrow> tryE m h k s = (Panic msg, s')"
  by (simp add: tryE_def bind_def)

lemmas step_rules = bind_Ret bind_Panic tryE_Inr tryE_Inl tryE_Panic

lemma bind_get_state [io_simps]: "bind (get_state f) g s = g (f s) s"
  by (simp add: bind_def get_state_def)

lemma bind_put_state [io_simps]: "bind (put_state f) g s = g () (f s)"
  by (simp add: bind_def put_state_def)

text \<open>Inversion: how a sequenced computation can have produced its outcome.\<close>

lemma bind_cases:
  assumes "bind m f s = (r, s')"
  obtains (Ret) x s1 where "m s = (Ret x, s1)" and "f x s1 = (r, s')"
    | (Panic) msg where "m s = (Panic msg, s')" and "r = Panic msg"
  using assms by (auto simp: bind_def split: prod.splits outcome.splits)

lemma tryE_cases:
  assumes "tryE m h k s = (r, s')"
  obtains (Inr) x s1 where "m s = (Ret (Inr x), s1)" and "k x s1 = (r, s')"
    | (Inl) e s1 where "m s = (Ret (Inl e), s1)" and "h e s1 = (r, s')"
    | (Panic) msg where "m s = (Panic msg, s')" and "r = Panic msg"
  using assms unfolding tryE_def by (auto elim!: bind_cases split: sum.splits)

text \<open>\<open>defer\<close>: the second computation runs after the first, also when the first panics.\<close>

definition defer_do :: "('s, unit) io \<Rightarrow> ('s, 'a) io \<Rightarrow> ('s, 'a) io" where
  "defer_do fin m s =
     (case m s of (r, s1) \<Rightarrow>
        (case fin s1 of (Ret _, s2) \<Rightarrow> (r, s2) | (Panic msg, s2) \<Rightarrow> (Panic msg, s2)))"

lemma defer_do_eq: "m s = (r, s1) \<Longrightarrow> fin s1 = (Ret (), s2) \<Longrightarrow> defer_do fin m s = (r, s2)"
  by (simp add: defer_do_def)

text \<open>Loops over a slice whose body may fail or panic.\<close>

fun foldE :: "('a \<Rightarrow> 'b \<Rightarrow> ('s, 'e + 'b) io) \<Rightarrow> 'a list \<Rightarrow> 'b \<Rightarrow> ('s, 'e + 'b) io" where
  "foldE f [] acc = ok acc"
| "foldE f (x # xs) acc = tryE (f x acc) fail (\<lambda>acc'. foldE f xs acc')"

section \<open>Computations that never panic\<close>

definition nopanic :: "('s, 'a) io \<Rightarrow> bool" where
  "nopanic m \<longleftrightarrow> (\<forall>s. \<exists>x. fst (m s) = Ret x)"

lemma nopanicD: "nopanic m \<Longrightarrow> m s \<noteq> (Panic msg, s')"
  by (metis fst_conv nopanic_def outcome.distinct(1))

lemma nopanicE:
  assumes "nopanic m"
  obtains x s' where "m s = (Ret x, s')"
  using assms by (metis nopanic_def prod.collapse)

lemma nopanic_ret [nopanic_intros]: "nopanic (ret x)" by (simp add: nopanic_def ret_def)
lemma nopanic_ok [nopanic_intros]: "nopanic (ok x)" by (simp add: ok_def nopanic_ret)
lemma nopanic_fail [nopanic_intros]: "nopanic (fail e)" by (simp add: fail_def nopanic_ret)
lemma nopanic_get_state [nopanic_intros]: "nopanic (get_state f)" by (simp add: nopanic_def get_state_def)
lemma nopanic_put_state [nopanic_intros]: "nopanic (put_state f)" by (simp add: nopanic_def put_state_def)

lemma nopanicI: "(\<And>s. \<exists>x s'. m s = (Ret x, s')) \<Longrightarrow> nopanic m"
  by (metis fst_conv nopanic_def)

lemma nopanic_bind [nopanic_intros]:
  assumes m: "nopanic m" and f: "\<And>x. nopanic (f x)"
  shows "nopanic (bind m f)"
proof (rule nopanicI)
  fix s
  obtain x s1 where "m s = (Ret x, s1)" using m by (rule nopanicE)
  moreover obtain y s2 where "f x s1 = (Ret y, s2)" using f by (rule nopanicE)
  ultimately show "\<exists>y s'. bind m f s = (Ret y, s')" by (simp add: bind_Ret)
qed

lemma nopanic_tryE [nopanic_intros]:
  "nopanic m \<Longrightarrow> (\<And>e. nopanic (h e)) \<Longrightarrow> (\<And>x. nopanic (k x)) \<Longrightarrow> nopanic (tryE m h k)"
  unfolding tryE_def by (rule nopanic_bind) (auto split: sum.split)

lemma nopanic_ignore [nopanic_intros]: "nopanic m \<Longrightarrow> nopanic (ignore m)"
  unfolding ignore_def by (intro nopanic_intros)

lemma nopanic_defer_do [nopanic_intros]:
  assumes fin: "nopanic fin" and m: "nopanic m"
  shows "nopanic (defer_do fin m)"
proof (rule nopanicI)
  fix s
  obtain x s1 where "m s = (Ret x, s1)" using m by (rule nopanicE)
  moreover obtain y s2 where "fin s1 = (Ret y, s2)" using fin by (rule nopanicE)
  ultimately show "\<exists>y s'. defer_do fin m s = (Ret y, s')" by (auto simp: defer_do_eq)
qed

lemma nopanic_if [nopanic_intros]:
  "(b \<Longrightarrow> nopanic m) \<Longrightarrow> (\<not> b \<Longrightarrow> nopanic n) \<Longrightarrow> nopanic (if b then m else n)"
  by simp

lemma nopanic_option [nopanic_intros]:
  "(v = None \<Longrightarrow> nopanic m) \<Longrightarrow> (\<And>x. v = Some x \<Longrightarrow> nopanic (f x)) \<Longrightarrow>
     nopanic (case v of None \<Rightarrow> m | Some x \<Rightarrow> f x)"
  by (cases v) auto

lemma nopanic_sum [nopanic_intros]:
  "(\<And>e. nopanic (f e)) \<Longrightarrow> (\<And>x. nopanic (g x)) \<Longrightarrow> nopanic (case r of Inl e \<Rightarrow> f e | Inr x \<Rightarrow> g x)"
  by (cases r) auto

lemma nopanic_list [nopanic_intros]:
  "nopanic m \<Longrightarrow> (\<And>x ys. nopanic (f x ys)) \<Longrightarrow> nopanic (case xs of [] \<Rightarrow> m | x # ys \<Rightarrow> f x ys)"
  by (cases xs) auto

lemma nopanic_prod [nopanic_intros]:
  "(\<And>a b. nopanic (f a b)) \<Longrightarrow> nopanic (case p of (a, b) \<Rightarrow> f a b)"
  by (cases p) auto

lemma nopanic_Let [nopanic_intros]: "(\<And>x. nopanic (f x)) \<Longrightarrow> nopanic (let x = a in f x)"
  by simp


text \<open>Splitting an evaluated computation into its outcome and its final state.\<close>

lemma outcome_state: "fst p = r \<Longrightarrow> p = (r, snd p)"
  by auto

end
