(* ===== verification/GoStrings.thy ===== *)
theory GoStrings
  imports Prelude
begin

text \<open>
  The functions of Go's package strings that the code uses, on byte strings (\<open>string\<close>
  is a list of 8-bit characters, as a Go string is a sequence of bytes). White space and
  letter case are the ASCII ones: the code applies \<open>TrimSpace\<close>, \<open>Fields\<close> and \<open>ToLower\<close>
  to LVM reports, kernel tables and option values only.
\<close>

named_theorems gostr \<open>facts about the string operations\<close>

section \<open>Prefixes, suffixes, substrings\<close>

definition HasPrefix :: "string \<Rightarrow> string \<Rightarrow> bool" where
  "HasPrefix s p \<longleftrightarrow> take (length p) s = p"

definition HasSuffix :: "string \<Rightarrow> string \<Rightarrow> bool" where
  "HasSuffix s p \<longleftrightarrow> length p \<le> length s \<and> drop (length s - length p) s = p"

fun Contains :: "string \<Rightarrow> string \<Rightarrow> bool" where
  "Contains [] sub = (sub = [])"
| "Contains (c # cs) sub = (HasPrefix (c # cs) sub \<or> Contains cs sub)"

definition TrimSuffix :: "string \<Rightarrow> string \<Rightarrow> string" where
  "TrimSuffix s suf = (if HasSuffix s suf then take (length s - length suf) s else s)"

definition TrimPrefix :: "string \<Rightarrow> string \<Rightarrow> string" where
  "TrimPrefix s p = (if HasPrefix s p then drop (length p) s else s)"

text \<open>\<open>strings.Index(s, string(c))\<close>: \<open>None\<close> stands for \<open>-1\<close>.\<close>

fun index_byte :: "char \<Rightarrow> string \<Rightarrow> nat option" where
  "index_byte c [] = None"
| "index_byte c (x # xs) = (if x = c then Some 0 else map_option Suc (index_byte c xs))"

lemma HasPrefix_append [gostr]: "HasPrefix (p @ s) p"
  by (simp add: HasPrefix_def)

lemma HasPrefix_iff: "HasPrefix s p \<longleftrightarrow> (\<exists>t. s = p @ t)"
  by (metis HasPrefix_def append_eq_conv_conj append_take_drop_id)

lemma HasSuffix_append [gostr]: "HasSuffix (s @ p) p"
  by (simp add: HasSuffix_def)

lemma HasSuffix_iff: "HasSuffix s p \<longleftrightarrow> (\<exists>t. s = t @ p)"
proof
  assume "HasSuffix s p"
  then have "s = take (length s - length p) s @ p"
    by (metis HasSuffix_def append_take_drop_id)
  then show "\<exists>t. s = t @ p" ..
qed (auto simp: HasSuffix_def)

lemma Contains_iff: "Contains s sub \<longleftrightarrow> (\<exists>u v. s = u @ sub @ v)"
proof (induction s)
  case Nil
  then show ?case by auto
next
  case (Cons c cs)
  have "(\<exists>u v. c # cs = u @ sub @ v) \<longleftrightarrow> HasPrefix (c # cs) sub \<or> (\<exists>u v. cs = u @ sub @ v)"
    by (auto simp: HasPrefix_iff Cons_eq_append_conv append_eq_Cons_conv)
  with Cons.IH show ?case by simp
qed

lemma TrimPrefix_append [simp, gostr]: "TrimPrefix (p @ s) p = s"
  by (simp add: TrimPrefix_def HasPrefix_append)

lemma index_byte_None_iff [gostr]: "index_byte c s = None \<longleftrightarrow> c \<notin> set s"
  by (induction s) auto

lemma index_byte_append [gostr]: "c \<notin> set u \<Longrightarrow> index_byte c (u @ c # v) = Some (length u)"
  by (induction u) auto

section \<open>Split and Join\<close>

text \<open>\<open>strings.Split(s, string(c))\<close> for a one-byte separator.\<close>

fun Split :: "string \<Rightarrow> char \<Rightarrow> string list" where
  "Split [] c = [[]]"
| "Split (x # xs) c =
     (if x = c then [] # Split xs c
      else (case Split xs c of [] \<Rightarrow> [[x]] | y # ys \<Rightarrow> (x # y) # ys))"

text \<open>\<open>strings.Split(s, sep)\<close> for a longer separator; \<open>sep\<close> is not empty.\<close>

function Split_str :: "string \<Rightarrow> string \<Rightarrow> string list" where
  "Split_str s sep =
     (if sep = [] \<or> s = [] then [s]
      else if HasPrefix s sep then [] # Split_str (drop (length sep) s) sep
      else (case Split_str (tl s) sep of [] \<Rightarrow> [s] | y # ys \<Rightarrow> (hd s # y) # ys))"
  by pat_completeness auto
termination
  by (relation "measure (\<lambda>(s, sep). length s)") (auto simp: HasPrefix_def)

declare Split_str.simps [simp del]

text \<open>\<open>strings.SplitN(s, string(c), n)\<close>: at most \<open>n\<close> parts, the last one unsplit.\<close>

fun SplitN :: "nat \<Rightarrow> string \<Rightarrow> char \<Rightarrow> string list" where
  "SplitN 0 s c = []"
| "SplitN (Suc 0) s c = [s]"
| "SplitN (Suc (Suc n)) s c =
     (case index_byte c s of None \<Rightarrow> [s]
      | Some i \<Rightarrow> take i s # SplitN (Suc n) (drop (Suc i) s) c)"

fun Join :: "string list \<Rightarrow> string \<Rightarrow> string" where
  "Join [] sep = []"
| "Join [x] sep = x"
| "Join (x # y # ys) sep = x @ sep @ Join (y # ys) sep"

lemma Split_neq_Nil [simp]: "Split s c \<noteq> []"
  by (induction s) (auto split: list.splits)

lemma Split_single [gostr]: "c \<notin> set s \<Longrightarrow> Split s c = [s]"
  by (induction s) auto

lemma Split_append [gostr]: "c \<notin> set u \<Longrightarrow> Split (u @ c # v) c = u # Split v c"
  by (induction u) (auto split: list.splits)

lemma Split_no_sep: "t \<in> set (Split s c) \<Longrightarrow> c \<notin> set t"
  by (induction s arbitrary: t) (fastforce split: list.splits if_splits)+

lemma Join_Cons_neq: "ys \<noteq> [] \<Longrightarrow> Join (x # ys) sep = x @ sep @ Join ys sep"
  by (cases ys) auto

text \<open>\<open>Join\<close> with the separator undoes \<open>Split\<close>, and \<open>Split\<close> undoes \<open>Join\<close> on parts without it.\<close>

lemma Join_Split: "Join (Split s c) [c] = s"
proof (induction s)
  case Nil
  then show ?case by simp
next
  case (Cons x xs)
  obtain y ys where sp: "Split xs c = y # ys" by (cases "Split xs c") auto
  with Cons.IH have "Join (y # ys) [c] = xs" by simp
  then show ?case by (cases ys) (auto simp: sp Join_Cons_neq)
qed

lemma Split_Join: "xs \<noteq> [] \<Longrightarrow> \<forall>x \<in> set xs. c \<notin> set x \<Longrightarrow> Split (Join xs [c]) c = xs"
  by (induction xs "[c]" rule: Join.induct) (auto simp: gostr)

lemma SplitN_append [gostr]:
  "c \<notin> set u \<Longrightarrow> SplitN (Suc (Suc n)) (u @ c # v) c = u # SplitN (Suc n) v c"
  by (simp add: index_byte_append)

section \<open>White space and case\<close>

definition is_space :: "char \<Rightarrow> bool" where
  "is_space c \<longleftrightarrow>
     c = CHR '' '' \<or> c = CHR 0x09 \<or> c = CHR 0x0A \<or> c = CHR 0x0B \<or> c = CHR 0x0C \<or> c = CHR 0x0D"

definition TrimSpace :: "string \<Rightarrow> string" where
  "TrimSpace s = rev (dropWhile is_space (rev (dropWhile is_space s)))"

text \<open>\<open>strings.Fields\<close>: the maximal runs of bytes that are not white space.\<close>

fun fields_acc :: "string \<Rightarrow> string \<Rightarrow> string list" where
  "fields_acc acc [] = (if acc = [] then [] else [rev acc])"
| "fields_acc acc (x # xs) =
     (if is_space x then (if acc = [] then fields_acc [] xs else rev acc # fields_acc [] xs)
      else fields_acc (x # acc) xs)"

definition Fields :: "string \<Rightarrow> string list" where
  "Fields s = fields_acc [] s"

definition lower_char :: "char \<Rightarrow> char" where
  "lower_char c = (let n = of_char c :: nat in if 65 \<le> n \<and> n \<le> 90 then char_of (n + 32) else c)"

definition ToLower :: "string \<Rightarrow> string" where
  "ToLower s = map lower_char s"

lemma dropWhile_id: "(case xs of [] \<Rightarrow> True | x # _ \<Rightarrow> \<not> P x) \<Longrightarrow> dropWhile P xs = xs"
  by (cases xs) auto

lemma TrimSpace_id [gostr]:
  assumes "\<forall>c \<in> set s. \<not> is_space c"
  shows "TrimSpace s = s"
proof -
  have "dropWhile is_space xs = xs" if "set xs = set s" for xs
    using that assms by (cases xs) auto
  then show ?thesis by (simp add: TrimSpace_def)
qed

lemma dropWhile_rev_dropWhile:
  "dropWhile P (rev (dropWhile P (rev (dropWhile P s)))) = rev (dropWhile P (rev (dropWhile P s)))"
proof (cases "rev (dropWhile P (rev (dropWhile P s))) = []")
  case False
  define t where "t = dropWhile P s"
  have "rev t = takeWhile P (rev t) @ dropWhile P (rev t)" by simp
  then have "t = rev (dropWhile P (rev t)) @ rev (takeWhile P (rev t))"
    by (metis rev_append rev_rev_ident)
  with False have "hd (rev (dropWhile P (rev t))) = hd t"
    unfolding t_def [symmetric] by (metis hd_append2)
  moreover have "t \<noteq> []"
    using False unfolding t_def by (metis dropWhile.simps(1) rev.simps(1))
  moreover have "\<not> P (hd t)"
    using hd_dropWhile [of P s] \<open>t \<noteq> []\<close> unfolding t_def by blast
  ultimately show ?thesis
    using False unfolding t_def [symmetric]
    by (cases "rev (dropWhile P (rev t))") auto
next
  case True
  then show ?thesis by (simp only: dropWhile.simps)
qed

lemma TrimSpace_idem [gostr]: "TrimSpace (TrimSpace s) = TrimSpace s"
  unfolding TrimSpace_def by (simp add: dropWhile_rev_dropWhile)

lemma fields_acc_no_space:
  "\<forall>c \<in> set acc. \<not> is_space c \<Longrightarrow> t \<in> set (fields_acc acc s) \<Longrightarrow> c \<in> set t \<Longrightarrow> \<not> is_space c"
proof (induction s arbitrary: acc)
  case Nil
  then show ?case by (auto split: if_splits)
next
  case (Cons x xs)
  show ?case
  proof (cases "is_space x")
    case True
    with Cons.prems consider "t = rev acc" | "t \<in> set (fields_acc [] xs)"
      by (auto split: if_splits)
    then show ?thesis using Cons.IH [of "[]"] Cons.prems by cases auto
  next
    case False
    with Cons.prems Cons.IH [of "x # acc"] show ?thesis by auto
  qed
qed

lemma fields_acc_word [gostr]:
  "\<forall>c \<in> set u. \<not> is_space c \<Longrightarrow> fields_acc acc (u @ s) = fields_acc (rev u @ acc) s"
  by (induction u arbitrary: acc) (auto)

lemma Fields_word [gostr]:
  assumes "u \<noteq> []" and "\<forall>c \<in> set u. \<not> is_space c" and "is_space sp"
  shows "Fields (u @ sp # s) = u # Fields s"
  using assms by (simp add: Fields_def fields_acc_word)

lemma Fields_last [gostr]:
  assumes "u \<noteq> []" and "\<forall>c \<in> set u. \<not> is_space c"
  shows "Fields u = [u]"
  using assms fields_acc_word [of u "[]" "[]"] by (simp add: Fields_def)

lemma Fields_Join [gostr]:
  assumes "xs \<noteq> []" and "\<forall>x \<in> set xs. x \<noteq> [] \<and> (\<forall>c \<in> set x. \<not> is_space c)"
  shows "Fields (Join xs '' '') = xs"
  using assms
  by (induction xs "'' ''" rule: Join.induct)
     (auto simp: Fields_word Fields_last is_space_def)

lemma Fields_no_space: "t \<in> set (Fields s) \<Longrightarrow> c \<in> set t \<Longrightarrow> \<not> is_space c"
  unfolding Fields_def by (rule fields_acc_no_space [of "[]"]) auto

section \<open>bufio.Scanner and path/filepath\<close>

text \<open>The lines a \<open>bufio.Scanner\<close> yields, without their end-of-line marker, and the error it
  stops with at a line of 64 KiB or more.\<close>

definition too_long :: "string \<Rightarrow> bool" where
  "too_long line \<longleftrightarrow> int (length line) \<ge> 65536"

definition drop_cr :: "string \<Rightarrow> string" where
  "drop_cr line = TrimSuffix line [CHR 0x0D]"

definition raw_lines :: "string \<Rightarrow> string list" where
  "raw_lines s = (let ls = Split s CHR 0x0A in if last ls = '''' then butlast ls else ls)"

definition scan_lines :: "string \<Rightarrow> string list \<times> bool" where
  "scan_lines s =
     (map drop_cr (takeWhile (\<lambda>l. \<not> too_long l) (raw_lines s)), list_ex too_long (raw_lines s))"

fun index_any :: "string \<Rightarrow> string \<Rightarrow> nat option" where
  "index_any cs [] = None"
| "index_any cs (a # s) = (if a \<in> set cs then Some 0 else map_option Suc (index_any cs s))"

lemma index_any_append:
  "set u \<inter> set cs = {} \<Longrightarrow> a \<in> set cs \<Longrightarrow> index_any cs (u @ a # v) = Some (length u)"
  by (induction u) auto

lemma index_any_None_iff: "index_any cs s = None \<longleftrightarrow> set s \<inter> set cs = {}"
  by (induction s) auto

definition Base :: "string \<Rightarrow> string" where
  "Base path =
     (if path = '''' then ''.''
      else (let p = rev (dropWhile (\<lambda>c. c = CHR ''/'') (rev path));
                b = last (Split p CHR ''/'')
            in if b = '''' then ''/'' else b))"


end
