(* ===== verification/GoFmt.thy ===== *)
theory GoFmt
  imports GoStrings "HOL-Library.Word"
begin

text \<open>
  Numbers and their text: the parts of packages strconv and fmt the code uses, and the
  interface \<open>codec\<close> that every encoding of the development satisfies. A Go \<open>uint64\<close> or
  \<open>int64\<close> is a \<open>64 word\<close>, read by \<open>unat\<close> or \<open>sint\<close>; the conversion between the two
  types is the identity on the word.
\<close>

type_synonym uint64 = "64 word"
type_synonym int64 = "64 word"

section \<open>Encodings\<close>

text \<open>
  What a client of an encoding relies on: on well-formed values, decoding undoes encoding.
\<close>

locale codec =
  fixes wf :: "'a \<Rightarrow> bool" and enc :: "'a \<Rightarrow> 'b" and dec :: "'b \<Rightarrow> 'a option"
  assumes dec_enc: "wf x \<Longrightarrow> dec (enc x) = Some x"
begin

lemma enc_eq_iff: "wf x \<Longrightarrow> wf y \<Longrightarrow> enc x = enc y \<longleftrightarrow> x = y"
  by (metis dec_enc option.inject)

lemma inj_on_wf: "inj_on enc {x. wf x}"
  by (rule inj_onI) (simp add: enc_eq_iff)

lemma distinct_map_enc: "\<forall>x \<in> set xs. wf x \<Longrightarrow> distinct (map enc xs) \<longleftrightarrow> distinct xs"
  by (induction xs) (auto simp: enc_eq_iff)

lemma mem_map_enc: "wf x \<Longrightarrow> \<forall>y \<in> set xs. wf y \<Longrightarrow> enc x \<in> set (map enc xs) \<longleftrightarrow> x \<in> set xs"
  by (induction xs) (auto simp: enc_eq_iff)

end

section \<open>strconv.FormatUint and \<open>%d\<close>\<close>

definition digit_char :: "nat \<Rightarrow> char" where
  "digit_char d = (if d < 10 then char_of (48 + d) else char_of (87 + d))"

fun FormatUint_nat :: "nat \<Rightarrow> nat \<Rightarrow> string" where
  "FormatUint_nat b n =
     (if n < b \<or> b < 2 then [digit_char n]
      else FormatUint_nat b (n div b) @ [digit_char (n mod b)])"

declare FormatUint_nat.simps [simp del]

definition FormatUint :: "uint64 \<Rightarrow> nat \<Rightarrow> string" where
  "FormatUint w b = FormatUint_nat b (unat w)"

definition fmt_d :: "uint64 \<Rightarrow> string" where
  "fmt_d w = FormatUint w 10"

section \<open>strconv.ParseUint(s, 10, 64)\<close>

datatype num_error = ErrSyntax | ErrRange

definition digit_val :: "char \<Rightarrow> nat option" where
  "digit_val c = (let n = of_char c :: nat in if 48 \<le> n \<and> n \<le> 57 then Some (n - 48) else None)"

fun parse_uint_loop :: "string \<Rightarrow> nat \<Rightarrow> num_error + nat" where
  "parse_uint_loop [] n = Inr n"
| "parse_uint_loop (c # cs) n =
     (case digit_val c of
        None \<Rightarrow> Inl ErrSyntax
      | Some d \<Rightarrow> if 10 * n + d \<ge> 2 ^ 64 then Inl ErrRange else parse_uint_loop cs (10 * n + d))"

definition ParseUint :: "string \<Rightarrow> num_error + uint64" where
  "ParseUint s =
     (if s = [] then Inl ErrSyntax
      else case parse_uint_loop s 0 of Inl e \<Rightarrow> Inl e | Inr n \<Rightarrow> Inr (of_nat n))"

lemma digit_val_char: "d < 10 \<Longrightarrow> digit_val (digit_char d) = Some d"
  by (simp add: digit_val_def digit_char_def)

lemma parse_uint_loop_append:
  "parse_uint_loop (u @ v) n =
     (case parse_uint_loop u n of Inl e \<Rightarrow> Inl e | Inr m \<Rightarrow> parse_uint_loop v m)"
  by (induction u arbitrary: n) (auto split: option.split)

lemma parse_uint_loop_Format:
  "n < 2 ^ 64 \<Longrightarrow> parse_uint_loop (FormatUint_nat 10 n) 0 = Inr n"
proof (induction n rule: less_induct)
  case (less n)
  show ?case
  proof (cases "n < 10")
    case True
    then show ?thesis
      by (subst FormatUint_nat.simps) (simp add: digit_val_char)
  next
    case False
    then have "n div 10 < n" by simp
    with less have IH: "parse_uint_loop (FormatUint_nat 10 (n div 10)) 0 = Inr (n div 10)" by simp
    have eq: "10 * (n div 10) + n mod 10 = n" by simp
    show ?thesis
      using False less.prems
      by (subst FormatUint_nat.simps)
         (simp add: parse_uint_loop_append IH digit_val_char eq)
  qed
qed

lemma FormatUint_nat_neq_Nil [simp]: "FormatUint_nat b n \<noteq> []"
  by (subst FormatUint_nat.simps) simp

lemma ParseUint_fmt_d: "ParseUint (fmt_d w) = Inr w"
proof -
  have "unat w < 2 ^ 64" using unsigned_less [of w] by simp
  then show ?thesis
    by (simp add: ParseUint_def fmt_d_def FormatUint_def parse_uint_loop_Format)
qed

lemma ParseUint_Inr_digits: "parse_uint_loop s n = Inr m \<Longrightarrow> \<forall>c \<in> set s. digit_val c \<noteq> None"
  by (induction s arbitrary: n) (auto split: option.splits if_splits)

definition dec_uint :: "string \<Rightarrow> uint64 option" where
  "dec_uint s = (case ParseUint s of Inl _ \<Rightarrow> None | Inr w \<Rightarrow> Some w)"

interpretation uint_text: codec "\<lambda>_. True" fmt_d dec_uint
  by unfold_locales (simp add: dec_uint_def ParseUint_fmt_d)

lemma digit_char_36:
  "n < 36 \<Longrightarrow> digit_char n \<in> set ''0123456789abcdefghijklmnopqrstuvwxyz''"
proof -
  assume "n < 36"
  then have "n \<in> set [0..<36]" by simp
  moreover have "\<forall>k \<in> set [0..<36]. digit_char k \<in> set ''0123456789abcdefghijklmnopqrstuvwxyz''"
    by code_simp
  ultimately show ?thesis by blast
qed

lemma FormatUint_36_chars:
  "c \<in> set (FormatUint_nat 36 n) \<Longrightarrow> c \<in> set ''0123456789abcdefghijklmnopqrstuvwxyz''"
proof (induction n rule: less_induct)
  case (less n)
  show ?case
  proof (cases "n < 36")
    case True
    with less.prems have "c = digit_char n" by (subst (asm) FormatUint_nat.simps) simp
    with True digit_char_36 show ?thesis by blast
  next
    case False
    with less.prems consider "c \<in> set (FormatUint_nat 36 (n div 36))" | "c = digit_char (n mod 36)"
      by (subst (asm) FormatUint_nat.simps) auto
    then show ?thesis
      using less.IH [of "n div 36"] False digit_char_36 [of "n mod 36"] by cases auto
  qed
qed

section \<open>Quoting and \<open>%v\<close>\<close>

text \<open>\<open>strconv.Quote\<close>, for ASCII text.\<close>

definition hex2 :: "nat \<Rightarrow> string" where
  "hex2 n = [digit_char (n div 16), digit_char (n mod 16)]"

definition quote_char :: "char \<Rightarrow> string" where
  "quote_char c =
     (if c = CHR 0x22 then [CHR 0x5C, CHR 0x22]
      else if c = CHR 0x5C then [CHR 0x5C, CHR 0x5C]
      else if c = CHR 0x07 then [CHR 0x5C, CHR ''a'']
      else if c = CHR 0x08 then [CHR 0x5C, CHR ''b'']
      else if c = CHR 0x0C then [CHR 0x5C, CHR ''f'']
      else if c = CHR 0x0A then [CHR 0x5C, CHR ''n'']
      else if c = CHR 0x0D then [CHR 0x5C, CHR ''r'']
      else if c = CHR 0x09 then [CHR 0x5C, CHR ''t'']
      else if c = CHR 0x0B then [CHR 0x5C, CHR ''v'']
      else if (of_char c :: nat) < 32 \<or> (of_char c :: nat) = 127 then CHR 0x5C # CHR ''x'' # hex2 (of_char c)
      else [c])"

definition Quote :: "string \<Rightarrow> string" where
  "Quote s = [CHR 0x22] @ concat (map quote_char s) @ [CHR 0x22]"

definition ParseUint_error_text :: "string \<Rightarrow> num_error \<Rightarrow> string" where
  "ParseUint_error_text s e =
     ''strconv.ParseUint: parsing '' @ Quote s @ '': '' @
     (case e of ErrSyntax \<Rightarrow> ''invalid syntax'' | ErrRange \<Rightarrow> ''value out of range'')"

text \<open>\<open>%v\<close> of a string slice and of a byte slice.\<close>

definition fmt_strings :: "string list \<Rightarrow> string" where
  "fmt_strings xs = ''['' @ Join xs '' '' @ '']''"

definition fmt_bytes :: "string \<Rightarrow> string" where
  "fmt_bytes s = ''['' @ Join (map (\<lambda>c. FormatUint_nat 10 (of_char c)) s) '' '' @ '']''"

end
