(* ===== verification/GoSystem.thy ===== *)
theory GoSystem
  imports GoFmt
begin

text \<open>
  The process the plugin runs in. Everything outside the repository is a field of the
  record \<open>sys\<close>, a parameter of every definition that uses it: the LVM and file-system tools
  started with \<open>exec.Command\<close>, the StoLake agent reached through gRPC, the kernel and the
  file system, the environment and the clock. Nothing is assumed about them here. The
  record \<open>gs\<close> is the state: the package variables of \<open>pkg/virsh\<close>, the state of the outside
  world, and the list of the external calls made so far, which the code does not have and
  which only serves to state what a handler may do.
\<close>

section \<open>External calls\<close>

datatype call =
    Exec string "string list"
  | Rpc string string "string list"
  | Os string "string list"
  | Http string

record exec_result =
  er_stdout :: string
  er_stderr :: string
  er_error :: "string option"

text \<open>The messages of \<open>pkg/stolake\<close> the code reads.\<close>

record GetInfoRes =
  gi_AgentName :: string
  gi_Version :: string

record StageIscsiRes =
  si_TargetIqn :: string
  si_Lun :: string
  si_TargetPortal :: string

record MountVolumeReq =
  mv_SourcePath :: string
  mv_TargetPath :: string
  mv_FsType :: string
  mv_ReadOnly :: bool
  mv_MountOptions :: string
  mv_GroupId :: string
  mv_AllUsers :: bool

record 'w sys =
  sys_run :: "string \<Rightarrow> string list \<Rightarrow> 'w \<Rightarrow> exec_result \<times> 'w"
  sys_combined :: "string \<Rightarrow> string list \<Rightarrow> 'w \<Rightarrow> (string \<times> string option) \<times> 'w"
  sys_dial :: "string \<Rightarrow> 'w \<Rightarrow> goerr option \<times> 'w"
  sys_RetrieveInfo :: "string \<Rightarrow> 'w \<Rightarrow> (goerr + GetInfoRes) \<times> 'w"
  sys_VgChange :: "string \<Rightarrow> string list \<Rightarrow> 'w \<Rightarrow> goerr option \<times> 'w"
  sys_MercuryProxy :: "string \<Rightarrow> string \<Rightarrow> string list \<Rightarrow> 'w \<Rightarrow> (goerr + string) \<times> 'w"
  sys_FileSystemType :: "string \<Rightarrow> string \<Rightarrow> 'w \<Rightarrow> (goerr + string) \<times> 'w"
  sys_MountInfo :: "string \<Rightarrow> 'w \<Rightarrow> (goerr + string) \<times> 'w"
  sys_MountVolume :: "string \<Rightarrow> MountVolumeReq \<Rightarrow> 'w \<Rightarrow> goerr option \<times> 'w"
  sys_UnMountVolume :: "string \<Rightarrow> string \<Rightarrow> 'w \<Rightarrow> goerr option \<times> 'w"
  sys_LvQoS :: "string \<Rightarrow> string \<times> string \<times> string \<Rightarrow> 'w \<Rightarrow> goerr option \<times> 'w"
  sys_StageIscsi :: "string \<Rightarrow> string \<times> string \<Rightarrow> 'w \<Rightarrow> (goerr + StageIscsiRes) \<times> 'w"
  sys_UnStageIscsi :: "string \<Rightarrow> string \<times> string \<Rightarrow> 'w \<Rightarrow> goerr option \<times> 'w"
  sys_CtrlPubIscsiDrives :: "string \<Rightarrow> string \<times> string \<Rightarrow> 'w \<Rightarrow> (goerr + StageIscsiRes list) \<times> 'w"
  sys_http_get :: "string \<Rightarrow> 'w \<Rightarrow> (goerr + nat \<times> (goerr + string)) \<times> 'w"
  sys_getenv :: "string \<Rightarrow> 'w \<Rightarrow> string"
  sys_now :: "'w \<Rightarrow> int \<times> 'w"
  sys_rand :: "'w \<Rightarrow> uint64 \<times> 'w"
  sys_stat :: "string \<Rightarrow> 'w \<Rightarrow> goerr option \<times> 'w"
  sys_readfile :: "string \<Rightarrow> 'w \<Rightarrow> (goerr + string) \<times> 'w"
  sys_create :: "string \<Rightarrow> 'w \<Rightarrow> goerr option \<times> 'w"
  sys_mkdir :: "string \<Rightarrow> 'w \<Rightarrow> goerr option \<times> 'w"
  sys_removeall :: "string \<Rightarrow> 'w \<Rightarrow> 'w"
  sys_chown :: "string \<Rightarrow> int \<Rightarrow> 'w \<Rightarrow> goerr option \<times> 'w"
  sys_evalsymlinks :: "string \<Rightarrow> 'w \<Rightarrow> (goerr + string) \<times> 'w"
  sys_mount :: "string \<Rightarrow> string \<Rightarrow> string \<Rightarrow> nat \<Rightarrow> string \<Rightarrow> 'w \<Rightarrow> goerr option \<times> 'w"
  sys_unmount :: "string \<Rightarrow> nat \<Rightarrow> 'w \<Rightarrow> goerr option \<times> 'w"

section \<open>State\<close>

record 'w gs =
  StolakeURL :: string
  HostIP :: string
  lastTargetSetup :: int
  lastVgName :: string
  lastInitIqn :: string
  lastTargetList :: string
  trace :: "call list"
  ext :: 'w

definition extcall :: "call \<Rightarrow> ('w \<Rightarrow> 'a \<times> 'w) \<Rightarrow> ('w gs, 'a) io" where
  "extcall c f s = (let (x, w) = f (ext s) in (Ret x, s\<lparr>ext := w, trace := trace s @ [c]\<rparr>))"

lemma extcall_apply [io_simps]:
  "f (ext s) = (x, w) \<Longrightarrow> extcall c f s = (Ret x, s\<lparr>ext := w, trace := trace s @ [c]\<rparr>)"
  by (simp add: extcall_def)

section \<open>Which calls a computation may issue\<close>

text \<open>
  \<open>emits P m\<close>: from every state, the calls \<open>m\<close> adds to the trace all satisfy \<open>P\<close>, whatever
  the outside world answers and also when \<open>m\<close> panics half-way.
\<close>

definition emits :: "(call \<Rightarrow> bool) \<Rightarrow> ('w gs, 'a) io \<Rightarrow> bool" where
  "emits P m \<longleftrightarrow> (\<forall>s. \<exists>ts. trace (snd (m s)) = trace s @ ts \<and> list_all P ts)"

lemma emitsI: "(\<And>s. \<exists>ts. trace (snd (m s)) = trace s @ ts \<and> list_all P ts) \<Longrightarrow> emits P m"
  by (simp add: emits_def)

lemma emitsD:
  assumes "emits P m" and "m s = (r, s')"
  obtains ts where "trace s' = trace s @ ts" and "list_all P ts"
  using assms by (metis emits_def snd_conv)

lemma emits_ret [emits_intros]: "emits P (ret x)"
  by (simp add: emits_def ret_def)

lemma emits_panic [emits_intros]: "emits P (panic msg)"
  by (simp add: emits_def panic_def)

lemma emits_ok [emits_intros]: "emits P (ok x)"
  by (simp add: ok_def emits_ret)

lemma emits_fail [emits_intros]: "emits P (fail e)"
  by (simp add: fail_def emits_ret)

lemma emits_get_state [emits_intros]: "emits P (get_state f)"
  by (simp add: emits_def get_state_def)

lemma emits_put_state [emits_intros]: "(\<And>s. trace (f s) = trace s) \<Longrightarrow> emits P (put_state f)"
  by (simp add: emits_def put_state_def)

lemma emits_extcall [emits_intros]: "P c \<Longrightarrow> emits P (extcall c f)"
  by (auto simp: emits_def extcall_def split: prod.splits)

lemma emits_bind [emits_intros]:
  assumes m: "emits P m" and f: "\<And>x. emits P (f x)"
  shows "emits P (bind m f)"
proof (rule emitsI)
  fix s
  obtain r s1 where r: "m s = (r, s1)" by (cases "m s")
  obtain ts where ts: "trace s1 = trace s @ ts" "list_all P ts" using emitsD [OF m r] .
  show "\<exists>ts. trace (snd (bind m f s)) = trace s @ ts \<and> list_all P ts"
  proof (cases r)
    case (Ret x)
    obtain r2 s2 where r2: "f x s1 = (r2, s2)" by (cases "f x s1")
    obtain us where us: "trace s2 = trace s1 @ us" "list_all P us" using emitsD [OF f r2] .
    show ?thesis using r Ret r2 ts us by (auto simp: bind_def)
  next
    case (Panic msg)
    then show ?thesis using r ts by (auto simp: bind_def)
  qed
qed

lemma emits_defer_do [emits_intros]:
  assumes fin: "emits P fin" and m: "emits P m"
  shows "emits P (defer_do fin m)"
proof (rule emitsI)
  fix s
  obtain r s1 where r: "m s = (r, s1)" by (cases "m s")
  obtain r2 s2 where r2: "fin s1 = (r2, s2)" by (cases "fin s1")
  obtain ts where "trace s1 = trace s @ ts" "list_all P ts" using emitsD [OF m r] .
  moreover obtain us where "trace s2 = trace s1 @ us" "list_all P us" using emitsD [OF fin r2] .
  ultimately show "\<exists>ts. trace (snd (defer_do fin m s)) = trace s @ ts \<and> list_all P ts"
    using r r2 by (cases r2) (auto simp: defer_do_def)
qed

lemma emits_tryE [emits_intros]:
  "emits P m \<Longrightarrow> (\<And>e. emits P (h e)) \<Longrightarrow> (\<And>x. emits P (k x)) \<Longrightarrow> emits P (tryE m h k)"
  unfolding tryE_def by (rule emits_bind) (auto split: sum.split)

lemma emits_ignore [emits_intros]: "emits P m \<Longrightarrow> emits P (ignore m)"
  unfolding ignore_def by (intro emits_intros)

lemma emits_if [emits_intros]:
  "(b \<Longrightarrow> emits P m) \<Longrightarrow> (\<not> b \<Longrightarrow> emits P n) \<Longrightarrow> emits P (if b then m else n)"
  by simp

lemma emits_option [emits_intros]:
  "emits P m \<Longrightarrow> (\<And>x. emits P (f x)) \<Longrightarrow> emits P (case v of None \<Rightarrow> m | Some x \<Rightarrow> f x)"
  by (cases v) auto

lemma emits_sum [emits_intros]:
  "(\<And>e. emits P (f e)) \<Longrightarrow> (\<And>x. emits P (g x)) \<Longrightarrow> emits P (case r of Inl e \<Rightarrow> f e | Inr x \<Rightarrow> g x)"
  by (cases r) auto

lemma emits_list [emits_intros]:
  "emits P m \<Longrightarrow> (\<And>x ys. emits P (f x ys)) \<Longrightarrow> emits P (case xs of [] \<Rightarrow> m | x # ys \<Rightarrow> f x ys)"
  by (cases xs) auto

lemma emits_prod [emits_intros]:
  "(\<And>a b. emits P (f a b)) \<Longrightarrow> emits P (case p of (a, b) \<Rightarrow> f a b)"
  by (cases p) auto

lemma emits_Let [emits_intros]: "(\<And>x. emits P (f x)) \<Longrightarrow> emits P (let x = a in f x)"
  by simp

lemma emits_foldE [emits_intros]:
  "(\<And>x acc. emits P (f x acc)) \<Longrightarrow> emits P (foldE f xs acc)"
  by (induction xs arbitrary: acc) (auto intro!: emits_intros)

lemma emits_mono: "emits P m \<Longrightarrow> (\<And>c. P c \<Longrightarrow> Q c) \<Longrightarrow> emits Q m"
  unfolding emits_def by (metis (mono_tags, lifting) list.pred_mono_strong)

text \<open>A call that a computation never issues does not appear in the trace it adds.\<close>

lemma emits_not_in:
  "emits (\<lambda>c. c \<noteq> d) m \<Longrightarrow> m s = (r, s') \<Longrightarrow> d \<in> set (trace s') \<Longrightarrow> d \<in> set (trace s)"
  by (erule emitsD) (auto simp: list_all_iff)

lemma nopanic_extcall [nopanic_intros]: "nopanic (extcall c f)"
  by (auto simp: nopanic_def extcall_def split: prod.splits)

section \<open>A quiet world\<close>

text \<open>Concrete parameters for the examples: every tool and every call succeeds and says
  nothing. The examples override the fields they need.\<close>

definition quiet :: "'w sys" where
  "quiet = \<lparr>
     sys_run = \<lambda>cmd args w. (\<lparr>er_stdout = '''', er_stderr = '''', er_error = None\<rparr>, w),
     sys_combined = \<lambda>cmd args w. (('''', None), w),
     sys_dial = \<lambda>url w. (None, w),
     sys_RetrieveInfo = \<lambda>c w. (Inr \<lparr>gi_AgentName = '''', gi_Version = ''''\<rparr>, w),
     sys_VgChange = \<lambda>c a w. (None, w),
     sys_MercuryProxy = \<lambda>c cmd args w. (Inr '''', w),
     sys_FileSystemType = \<lambda>c p w. (Inr '''', w),
     sys_MountInfo = \<lambda>c w. (Inr '''', w),
     sys_MountVolume = \<lambda>c r w. (None, w),
     sys_UnMountVolume = \<lambda>c t w. (None, w),
     sys_LvQoS = \<lambda>c q w. (None, w),
     sys_StageIscsi = \<lambda>c q w. (Inr \<lparr>si_TargetIqn = '''', si_Lun = '''', si_TargetPortal = ''''\<rparr>, w),
     sys_UnStageIscsi = \<lambda>c q w. (None, w),
     sys_CtrlPubIscsiDrives = \<lambda>c q w. (Inr [], w),
     sys_http_get = \<lambda>url w. (Inr (200, Inr ''''), w),
     sys_getenv = \<lambda>k w. '''',
     sys_now = \<lambda>w. (0, w),
     sys_rand = \<lambda>w. (0, w),
     sys_stat = \<lambda>p w. (None, w),
     sys_readfile = \<lambda>p w. (Inr '''', w),
     sys_create = \<lambda>p w. (None, w),
     sys_mkdir = \<lambda>p w. (None, w),
     sys_removeall = \<lambda>p w. w,
     sys_chown = \<lambda>p g w. (None, w),
     sys_evalsymlinks = \<lambda>p w. (Inr p, w),
     sys_mount = \<lambda>s t f n opts w. (None, w),
     sys_unmount = \<lambda>t n w. (None, w)\<rparr>"

definition quiet_state :: "'w \<Rightarrow> 'w gs" where
  "quiet_state w = \<lparr>StolakeURL = '''', HostIP = '''', lastTargetSetup = 0, lastVgName = '''',
     lastInitIqn = '''', lastTargetList = '''', trace = [], ext = w\<rparr>"


section \<open>Calls that depend on a result\<close>

text \<open>As \<open>emits_bind\<close>, but the second part only has to satisfy \<open>P\<close> on the results the first
  part can return.\<close>

lemma emits_bind_result:
  assumes m: "emits P m" and f: "\<And>x s s'. m s = (Ret x, s') \<Longrightarrow> emits P (f x)"
  shows "emits P (bind m f)"
proof (rule emitsI)
  fix s
  obtain r s1 where r: "m s = (r, s1)" by (cases "m s")
  obtain ts where ts: "trace s1 = trace s @ ts" "list_all P ts" using emitsD [OF m r] .
  show "\<exists>ts. trace (snd (bind m f s)) = trace s @ ts \<and> list_all P ts"
  proof (cases r)
    case (Ret x)
    obtain r2 s2 where r2: "f x s1 = (r2, s2)" by (cases "f x s1")
    obtain us where "trace s2 = trace s1 @ us" "list_all P us" using emitsD [OF f r2] r Ret by blast
    then show ?thesis using r Ret r2 ts by (auto simp: bind_def)
  next
    case (Panic msg)
    then show ?thesis using r ts by (auto simp: bind_def)
  qed
qed

text \<open>\<open>extends s s'\<close>: the trace of \<open>s'\<close> continues that of \<open>s\<close>; \<open>new_calls s s'\<close> are the calls it
  has more.\<close>

definition extends :: "'w gs \<Rightarrow> 'w gs \<Rightarrow> bool" where
  "extends s s' \<longleftrightarrow> (\<exists>ts. trace s' = trace s @ ts)"

definition new_calls :: "'w gs \<Rightarrow> 'w gs \<Rightarrow> call set" where
  "new_calls s s' = set (drop (length (trace s)) (trace s'))"

lemma extends_refl [simp]: "extends s s"
  by (simp add: extends_def)

lemma extends_trans: "extends s s1 \<Longrightarrow> extends s1 s2 \<Longrightarrow> extends s s2"
  by (auto simp: extends_def)

lemma emits_extends: "emits P m \<Longrightarrow> m s = (r, s') \<Longrightarrow> extends s s'"
  by (erule emitsD) (auto simp: extends_def)

lemma new_calls_widen:
  assumes "c \<in> new_calls s1 s2" and "extends s s1" and "extends s2 s3"
  shows "c \<in> new_calls s s3"
proof -
  obtain ts where ts: "trace s3 = trace s2 @ ts" using assms(3) by (auto simp: extends_def)
  have "length (trace s) \<le> length (trace s1)" using assms(2) by (auto simp: extends_def)
  then have "set (drop (length (trace s1)) (trace s2)) \<subseteq> set (drop (length (trace s)) (trace s2))"
    by (rule set_drop_subset_set_drop)
  then show ?thesis using assms(1) ts by (auto simp: new_calls_def)
qed

end
