(* ===== verification/GoMap.thy ===== *)
theory GoMap
  imports GoFmt "HOL-Library.AList"
begin

text \<open>
  Go maps from strings to strings as association lists with distinct keys; the order of the
  list is the order in which \<open>range\<close> visits the map. A map variable may be \<open>nil\<close>: reading,
  deleting and \<open>len\<close> treat it as empty, writing to it panics.
\<close>

section \<open>The interface of a dictionary\<close>

locale dictionary =
  fixes get :: "'m \<Rightarrow> 'k \<Rightarrow> 'v option"
    and set_key :: "'k \<Rightarrow> 'v \<Rightarrow> 'm \<Rightarrow> 'm"
    and del_key :: "'k \<Rightarrow> 'm \<Rightarrow> 'm"
    and is_empty :: "'m \<Rightarrow> bool"
    and invar :: "'m \<Rightarrow> bool"
  assumes get_set: "get (set_key k v m) = (get m)(k \<mapsto> v)"
    and get_del: "get (del_key k m) = (get m)(k := None)"
    and is_empty_iff: "is_empty m \<longleftrightarrow> get m = Map.empty"
    and invar_set: "invar m \<Longrightarrow> invar (set_key k v m)"
    and invar_del: "invar m \<Longrightarrow> invar (del_key k m)"
begin

lemma get_fold_del: "get (fold del_key ks m) = (\<lambda>k. if k \<in> set ks then None else get m k)"
  by (induction ks arbitrary: m) (auto simp: get_del fun_eq_iff)

lemma is_empty_fold_del: "is_empty (fold del_key ks m) \<longleftrightarrow> (\<forall>k. get m k \<noteq> None \<longrightarrow> k \<in> set ks)"
  by (auto simp: is_empty_iff get_fold_del fun_eq_iff split: if_splits)

lemma invar_fold_del: "invar m \<Longrightarrow> invar (fold del_key ks m)"
  by (induction ks arbitrary: m) (auto simp: invar_del)

lemma del_absent: "get m k = None \<Longrightarrow> get (del_key k m) = get m"
  by (auto simp: get_del fun_eq_iff)

lemma get_set_other: "k \<noteq> k' \<Longrightarrow> get (set_key k v m) k' = get m k'"
  by (simp add: get_set)

end

section \<open>Go maps\<close>

type_synonym gomap = "(string \<times> string) list"

definition map_get :: "gomap \<Rightarrow> string \<Rightarrow> string option" where
  "map_get m = map_of m"

definition map_set :: "string \<Rightarrow> string \<Rightarrow> gomap \<Rightarrow> gomap" where
  "map_set k v m = AList.update k v m"

definition map_del :: "string \<Rightarrow> gomap \<Rightarrow> gomap" where
  "map_del k m = AList.delete k m"

definition map_null :: "gomap \<Rightarrow> bool" where
  "map_null m \<longleftrightarrow> m = []"

definition map_ok :: "gomap \<Rightarrow> bool" where
  "map_ok m \<longleftrightarrow> distinct (map fst m)"

interpretation gomap: dictionary map_get map_set map_del map_null map_ok
proof unfold_locales
  show "map_get (map_set k v m) = (map_get m)(k \<mapsto> v)" for k v m
    by (simp add: map_get_def map_set_def update_conv')
  show "map_get (map_del k m) = (map_get m)(k := None)" for k m
    by (simp add: map_get_def map_del_def delete_conv')
  show "map_null m \<longleftrightarrow> map_get m = Map.empty" for m
    by (simp add: map_null_def map_get_def)
  show "map_ok m \<Longrightarrow> map_ok (map_set k v m)" for k v m
    by (simp add: map_ok_def map_set_def distinct_update)
  show "map_ok m \<Longrightarrow> map_ok (map_del k m)" for k m
    by (simp add: map_ok_def map_del_def distinct_delete)
qed

text \<open>Reading a map variable that may be \<open>nil\<close>.\<close>

fun nget :: "gomap option \<Rightarrow> string \<Rightarrow> string option" where
  "nget None k = None"
| "nget (Some m) k = map_get m k"

fun ndel :: "string \<Rightarrow> gomap option \<Rightarrow> gomap option" where
  "ndel k None = None"
| "ndel k (Some m) = Some (map_del k m)"

fun nkeys :: "gomap option \<Rightarrow> string list" where
  "nkeys None = []"
| "nkeys (Some m) = map fst m"

text \<open>\<open>m[k]\<close> without the second result: the zero value \<open>""\<close> when the key is absent.\<close>

definition nval :: "gomap option \<Rightarrow> string \<Rightarrow> string" where
  "nval m k = (case nget m k of None \<Rightarrow> [] | Some v \<Rightarrow> v)"

fun nset :: "string \<Rightarrow> string \<Rightarrow> gomap option \<Rightarrow> gomap option outcome" where
  "nset k v None = Panic ''assignment to entry in nil map''"
| "nset k v (Some m) = Ret (Some (map_set k v m))"

text \<open>\<open>dupParams\<close> of \<open>pkg/csilvm/server.go\<close>: a fresh map with the same entries, \<open>nil\<close> for \<open>nil\<close>.\<close>

definition dupParams :: "gomap option \<Rightarrow> gomap option" where
  "dupParams inp = (case inp of None \<Rightarrow> None | Some m \<Rightarrow> Some (fold (\<lambda>(k, v). map_set k v) m []))"

lemma nget_ndel: "nget (ndel k m) = (nget m)(k := None)"
  by (cases m) (auto simp: gomap.get_del)

lemma nkeys_iff: "k \<in> set (nkeys m) \<longleftrightarrow> nget m k \<noteq> None"
  by (cases m) (auto simp: map_get_def map_of_eq_None_iff)

lemma nget_None [simp]: "nget None = Map.empty"
  by (simp add: fun_eq_iff)

lemma nget_Some [simp]: "nget (Some m) = map_get m"
  by (simp add: fun_eq_iff)

lemma nkeys_Nil_iff: "nkeys m = [] \<longleftrightarrow> nget m = Map.empty"
  by (cases m) (simp_all add: map_get_def)

lemma nset_Ret: "nset k v m = Ret m' \<Longrightarrow> nget m' = (nget m)(k \<mapsto> v)"
  by (cases m) (auto simp: gomap.get_set)

lemma fold_map_set:
  assumes "distinct (map fst m)"
  shows "map_of (fold (\<lambda>(k, v). map_set k v) m a) = map_of a ++ map_of m"
  using assms
proof (induction m arbitrary: a)
  case (Cons p m)
  obtain k v where p: "p = (k, v)" by (cases p)
  with Cons.prems have "map_of m k = None" by (simp add: map_of_eq_None_iff)
  with Cons p show ?case
    by (auto simp: map_set_def update_conv' map_add_def fun_eq_iff split: option.splits)
qed simp

lemma nget_dupParams: "(case m of None \<Rightarrow> True | Some a \<Rightarrow> map_ok a) \<Longrightarrow> nget (dupParams m) = nget m"
  by (cases m) (auto simp: dupParams_def map_get_def map_ok_def fold_map_set)

lemma dupParams_None_iff [simp]: "dupParams m = None \<longleftrightarrow> m = None"
  by (auto simp: dupParams_def split: option.splits)

text \<open>\<open>%v\<close> of a map: the keys in increasing order.\<close>

definition byte_le :: "char \<Rightarrow> char \<Rightarrow> bool" where
  "byte_le a b \<longleftrightarrow> (of_char a :: nat) \<le> of_char b"

fun string_le :: "string \<Rightarrow> string \<Rightarrow> bool" where
  "string_le [] t = True"
| "string_le (a # s) [] = False"
| "string_le (a # s) (b # t) = (if a = b then string_le s t else byte_le a b)"

fun insert_entry :: "string \<times> string \<Rightarrow> gomap \<Rightarrow> gomap" where
  "insert_entry p [] = [p]"
| "insert_entry p (q # r) = (if string_le (fst p) (fst q) then p # q # r else q # insert_entry p r)"

definition fmt_map :: "gomap option \<Rightarrow> string" where
  "fmt_map m =
     ''map['' @ Join (map (\<lambda>(k, v). k @ '':'' @ v)
        (foldr insert_entry (case m of None \<Rightarrow> [] | Some a \<Rightarrow> a) [])) '' '' @ '']''"

end
