(* ===== verification/Csi.thy ===== *)
theory Csi
  imports GoSystem GoMap
begin

text \<open>
  The messages of the Container Storage Interface the plugin reads and writes, the errors of
  its RPCs, and the three services as records of functions, which is what the Go interfaces
  \<open>csi.IdentityServer\<close>, \<open>csi.ControllerServer\<close> and \<open>csi.NodeServer\<close> are. Fields the plugin never
  looks at are left out. A \<open>nil\<close> capability is the capability without access type and mode:
  the getters the code uses do not distinguish the two.
\<close>

section \<open>Errors\<close>

datatype grpc_code =
    InvalidArgument | NotFound | AlreadyExists | FailedPrecondition | Aborted | OutOfRange
  | Unimplemented | Internal | Unavailable

datatype rpc_err =
    Status grpc_code string
  | Raw goerr

fun err_code :: "rpc_err \<Rightarrow> grpc_code option" where
  "err_code (Status c m) = Some c"
| "err_code (Raw e) = None"

section \<open>Messages\<close>

record CapacityRange =
  required_bytes :: int64
  limit_bytes :: int64

datatype AccessModeMode =
    UNKNOWN | SINGLE_NODE_WRITER | SINGLE_NODE_READER_ONLY | MULTI_NODE_READER_ONLY
  | MULTI_NODE_SINGLE_WRITER | MULTI_NODE_MULTI_WRITER | OTHER_MODE int

record MountVol =
  fs_type :: string
  mount_flags :: "string list"
  volume_mount_group :: string

text \<open>The \<open>oneof\<close>: which wrapper is present, and whether its payload is.\<close>

datatype AccessType =
    AccessBlock bool
  | AccessMount "MountVol option"

record VolumeCapability =
  access_type :: "AccessType option"
  access_mode :: "AccessModeMode option"

definition GetMount :: "VolumeCapability \<Rightarrow> MountVol option" where
  "GetMount c = (case access_type c of Some (AccessMount m) \<Rightarrow> m | _ \<Rightarrow> None)"

definition GetBlock :: "VolumeCapability \<Rightarrow> bool" where
  "GetBlock c \<longleftrightarrow> access_type c = Some (AccessBlock True)"

text \<open>\<open>GetAccessMode().GetMode()\<close>: \<open>UNKNOWN\<close> is the zero value.\<close>

definition GetMode :: "VolumeCapability \<Rightarrow> AccessModeMode" where
  "GetMode c = (case access_mode c of None \<Rightarrow> UNKNOWN | Some m \<Rightarrow> m)"

record CreateVolumeRequest =
  cv_name :: string
  cv_capacity_range :: "CapacityRange option"
  cv_volume_capabilities :: "VolumeCapability list"
  cv_parameters :: "gomap option"

record Volume =
  vol_capacity_bytes :: int64
  vol_volume_id :: string
  vol_volume_context :: "gomap option"

record DeleteVolumeRequest =
  dv_volume_id :: string

record ControllerPublishVolumeRequest =
  cp_volume_id :: string
  cp_node_id :: string
  cp_volume_capability :: "VolumeCapability option"
  cp_volume_context :: "gomap option"

record ControllerUnpublishVolumeRequest =
  cu_volume_id :: string
  cu_node_id :: string

record ValidateVolumeCapabilitiesRequest =
  vc_volume_id :: string
  vc_volume_capabilities :: "VolumeCapability list"

record ListVolumesRequest =
  ls_starting_token :: string

record GetCapacityRequest =
  gc_volume_capabilities :: "VolumeCapability list"
  gc_parameters :: "gomap option"

record NodePublishVolumeRequest =
  np_volume_id :: string
  np_publish_context :: "gomap option"
  np_target_path :: string
  np_volume_capability :: "VolumeCapability option"
  np_readonly :: bool

record NodeUnpublishVolumeRequest =
  nu_volume_id :: string
  nu_target_path :: string

record GetPluginInfoResponse =
  pi_name :: string
  pi_vendor_version :: string
  pi_manifest :: gomap

record NodeGetInfoResponse =
  ni_node_id :: string
  ni_segments :: gomap

datatype ServiceCapability =
    CONTROLLER_SERVICE | VOLUME_ACCESSIBILITY_CONSTRAINTS

datatype ControllerCapability =
    CREATE_DELETE_VOLUME | PUBLISH_UNPUBLISH_VOLUME | LIST_VOLUMES | GET_CAPACITY

datatype NodeCapability = VOLUME_MOUNT_GROUP

section \<open>Services\<close>

type_synonym ('w, 'a) rpc = "('w gs, rpc_err + 'a) io"

record 'w IdentityServer =
  is_GetPluginInfo :: "('w, GetPluginInfoResponse) rpc"
  is_GetPluginCapabilities :: "('w, ServiceCapability list) rpc"
  is_Probe :: "('w, unit) rpc"

record 'w ControllerServer =
  cs_CreateVolume :: "CreateVolumeRequest \<Rightarrow> ('w, Volume) rpc"
  cs_DeleteVolume :: "DeleteVolumeRequest \<Rightarrow> ('w, unit) rpc"
  cs_ControllerPublishVolume :: "ControllerPublishVolumeRequest \<Rightarrow> ('w, gomap option) rpc"
  cs_ControllerUnpublishVolume :: "ControllerUnpublishVolumeRequest \<Rightarrow> ('w, unit) rpc"
  cs_ValidateVolumeCapabilities :: "ValidateVolumeCapabilitiesRequest \<Rightarrow> ('w, string) rpc"
  cs_ListVolumes :: "ListVolumesRequest \<Rightarrow> ('w, Volume list) rpc"
  cs_GetCapacity :: "GetCapacityRequest \<Rightarrow> ('w, int64) rpc"
  cs_ControllerGetCapabilities :: "('w, ControllerCapability list) rpc"
  cs_CreateSnapshot :: "('w, unit) rpc"
  cs_DeleteSnapshot :: "('w, unit) rpc"
  cs_ListSnapshots :: "('w, unit) rpc"
  cs_ControllerExpandVolume :: "('w, unit) rpc"
  cs_ControllerGetVolume :: "('w, unit) rpc"

record 'w NodeServer =
  ns_NodePublishVolume :: "NodePublishVolumeRequest \<Rightarrow> ('w, unit) rpc"
  ns_NodeUnpublishVolume :: "NodeUnpublishVolumeRequest \<Rightarrow> ('w, unit) rpc"
  ns_NodeGetCapabilities :: "('w, NodeCapability list) rpc"
  ns_NodeGetInfo :: "('w, NodeGetInfoResponse) rpc"
  ns_NodeStageVolume :: "('w, unit) rpc"
  ns_NodeUnstageVolume :: "('w, unit) rpc"
  ns_NodeExpandVolume :: "('w, unit) rpc"
  ns_NodeGetVolumeStats :: "('w, unit) rpc"

text \<open>What an RPC adds to an error before returning it.\<close>

definition wrap :: "grpc_code \<Rightarrow> string \<Rightarrow> goerr \<Rightarrow> rpc_err" where
  "wrap c prefix e = Status c (prefix @ Error_text e)"

text \<open>\<open>if err != nil { return nil, wrapped }\<close> around a call of the lvm package.\<close>

definition tryR :: "('s, goerr + 'a) io \<Rightarrow> (goerr \<Rightarrow> rpc_err) \<Rightarrow> ('a \<Rightarrow> ('s, rpc_err + 'b) io) \<Rightarrow> ('s, rpc_err + 'b) io" where
  "tryR m h k = tryE m (\<lambda>e. fail (h e)) k"

lemma emits_tryR [emits_intros]: "emits P m \<Longrightarrow> (\<And>x. emits P (k x)) \<Longrightarrow> emits P (tryR m h k)"
  unfolding tryR_def by (intro emits_intros)

lemma nopanic_tryR [nopanic_intros]: "nopanic m \<Longrightarrow> (\<And>x. nopanic (k x)) \<Longrightarrow> nopanic (tryR m h k)"
  unfolding tryR_def by (intro nopanic_intros)

lemma tryR_Inl: "m s = (Ret (Inl e), s') \<Longrightarrow> tryR m h k s = (Ret (Inl (h e)), s')"
  by (simp add: tryR_def tryE_Inl io_simps)

lemma tryR_Inr: "m s = (Ret (Inr x), s') \<Longrightarrow> tryR m h k s = k x s'"
  by (simp add: tryR_def tryE_Inr)

lemma tryR_cases:
  assumes "tryR m h k s = (r, s')"
  obtains (Inr) x s1 where "m s = (Ret (Inr x), s1)" and "k x s1 = (r, s')"
    | (Inl) e where "m s = (Ret (Inl e), s')" and "r = Ret (Inl (h e))"
    | (Panic) msg where "m s = (Panic msg, s')" and "r = Panic msg"
  using assms unfolding tryR_def by (auto elim!: tryE_cases simp: fail_def ret_def)

end
