(* ===== verification/Chains.thy ===== *)
theory Chains
  imports Csi
begin

text \<open>
  \<open>pkg/csilvm/chain.go\<close>. An interceptor is a function of the request and of the handler to call.
  A call of a chain makes a variable \<open>curI\<close> that the handlers it passes on share; here it is the
  first component of the state, and \<open>chain_handler\<close> reads and increments it as the code does.
  An interceptor that calls its handler at most once is a pair of a computation before and one
  after the call, which cannot see \<open>curI\<close>; for those a chain is the composition of its
  interceptors. An interceptor that calls its handler twice sees the difference.
\<close>

type_synonym ('s, 'q, 'r) handler = "'q \<Rightarrow> ('s, 'r) io"
type_synonym ('s, 'q, 'r) interceptor = "'q \<Rightarrow> ('s, 'q, 'r) handler \<Rightarrow> ('s, 'r) io"

section \<open>Chains\<close>

text \<open>A computation that does not see the variable of the chain.\<close>

definition within :: "('s, 'a) io \<Rightarrow> (nat \<times> 's, 'a) io" where
  "within m = (\<lambda>(curI, s). let (r, s') = m s in (r, (curI, s')))"

text \<open>The handler a chain passes on. Each call that does not reach the handler increments
  \<open>curI\<close>, so that calls nest at most as deep as there are interceptors: the first argument.\<close>

fun chain_handler ::
  "nat \<Rightarrow> (nat \<times> 's, 'q, 'r) interceptor list \<Rightarrow> (nat \<times> 's, 'q, 'r) handler \<Rightarrow> (nat \<times> 's, 'q, 'r) handler" where
  "chain_handler 0 interceptors handler q = panic ''chain_handler: depth''"
| "chain_handler (Suc k) interceptors handler q =
     bind (get_state fst) (\<lambda>curI.
     if curI = length interceptors - 1 then handler q
     else bind (put_state (apfst Suc)) (\<lambda>_. (interceptors ! (curI + 1)) q (chain_handler k interceptors handler)))"

definition chain :: "(nat \<times> 's, 'q, 'r) interceptor list \<Rightarrow> (nat \<times> 's, 'q, 'r) interceptor" where
  "chain interceptors =
     (let n = length interceptors in
      if n > 1 then (\<lambda>q handler. bind (put_state (apfst (\<lambda>_. 0)))
        (\<lambda>_. (interceptors ! 0) q (chain_handler n interceptors handler)))
      else if n = 1 then interceptors ! 0
      else (\<lambda>q handler. handler q))"

text \<open>The four chains differ in what their interceptors are called with: context and request;
  service and stream; context, method, request, reply, connection and call options; context, stream
  description, connection, method and call options. \<open>info\<close>, which the server chains pass on
  unchanged, is a parameter of the interceptors.\<close>

definition ChainUnaryServer ::
  "(nat \<times> 's, 'ctx \<times> 'req, 'r) interceptor list \<Rightarrow> (nat \<times> 's, 'ctx \<times> 'req, 'r) interceptor" where
  "ChainUnaryServer interceptors = chain interceptors"

definition ChainStreamServer ::
  "(nat \<times> 's, 'srv \<times> 'stream, 'r) interceptor list \<Rightarrow> (nat \<times> 's, 'srv \<times> 'stream, 'r) interceptor" where
  "ChainStreamServer interceptors = chain interceptors"

definition ChainUnaryClient ::
  "(nat \<times> 's, 'ctx \<times> string \<times> 'req \<times> 'reply \<times> 'cc \<times> 'opt list, 'r) interceptor list
     \<Rightarrow> (nat \<times> 's, 'ctx \<times> string \<times> 'req \<times> 'reply \<times> 'cc \<times> 'opt list, 'r) interceptor" where
  "ChainUnaryClient interceptors = chain interceptors"

definition ChainStreamClient ::
  "(nat \<times> 's, 'ctx \<times> 'desc \<times> 'cc \<times> string \<times> 'opt list, 'r) interceptor list
     \<Rightarrow> (nat \<times> 's, 'ctx \<times> 'desc \<times> 'cc \<times> string \<times> 'opt list, 'r) interceptor" where
  "ChainStreamClient interceptors = chain interceptors"

section \<open>Interceptors that call their handler at most once\<close>

text \<open>Before the call, an answer or the request to pass on, with what the interceptor keeps in its
  local variables until after the call.\<close>

record ('s, 'q, 'r, 'l) once =
  before :: "'q \<Rightarrow> ('s, 'r + 'q \<times> 'l) io"
  after :: "'l \<Rightarrow> 'r outcome \<Rightarrow> ('s, 'r) io"

text \<open>Running a computation up to its outcome, and ending with an outcome again.\<close>

definition attempt :: "('s, 'a) io \<Rightarrow> ('s, 'a outcome) io" where
  "attempt m = (\<lambda>s. let (r, s') = m s in (Ret r, s'))"

definition resume :: "'a outcome \<Rightarrow> ('s, 'a) io" where
  "resume r = (\<lambda>s. (r, s))"

text \<open>The interceptor by itself, and as an element of a chain.\<close>

definition alone :: "('s, 'q, 'r, 'l) once \<Rightarrow> ('s, 'q, 'r) interceptor" where
  "alone i q handler = bind (before i q) (\<lambda>x. case x of
     Inl r \<Rightarrow> ret r
   | Inr (q', l) \<Rightarrow> bind (attempt (handler q')) (after i l))"

definition chained :: "('s, 'q, 'r, 'l) once \<Rightarrow> (nat \<times> 's, 'q, 'r) interceptor" where
  "chained i q handler = bind (within (before i q)) (\<lambda>x. case x of
     Inl r \<Rightarrow> ret r
   | Inr (q', l) \<Rightarrow> bind (attempt (handler q')) (\<lambda>out. within (after i l out)))"

definition nest :: "('s, 'q, 'r) interceptor list \<Rightarrow> ('s, 'q, 'r) handler \<Rightarrow> ('s, 'q, 'r) handler" where
  "nest interceptors handler = foldr (\<lambda>i k q. i q k) interceptors handler"

lemma nest_Nil [simp]: "nest [] h q = h q"
  by (simp add: nest_def)

lemma nest_Cons: "nest (i # is) h q = i q (nest is h)"
  by (simp add: nest_def)

text \<open>\<open>mimics j k k'\<close>: called while \<open>curI\<close> is \<open>j\<close>, the handler \<open>k\<close> does what \<open>k'\<close> does.\<close>

definition mimics :: "nat \<Rightarrow> (nat \<times> 's, 'q, 'r) handler \<Rightarrow> ('s, 'q, 'r) handler \<Rightarrow> bool" where
  "mimics j k k' \<longleftrightarrow> (\<forall>q s. fst (k q (j, s)) = fst (k' q s) \<and> snd (snd (k q (j, s))) = snd (k' q s))"

lemma mimicsI:
  "(\<And>q s. fst (k q (j, s)) = fst (k' q s)) \<Longrightarrow> (\<And>q s. snd (snd (k q (j, s))) = snd (k' q s)) \<Longrightarrow> mimics j k k'"
  by (simp add: mimics_def)

lemma mimicsD: "mimics j k k' \<Longrightarrow> k' q s = (r, s') \<Longrightarrow> \<exists>c. k q (j, s) = (r, (c, s'))"
  unfolding mimics_def by (metis fst_conv prod.collapse snd_conv)

lemma within_apply: "m s = (r, s') \<Longrightarrow> within m (c, s) = (r, (c, s'))"
  by (simp add: within_def)

lemma mimics_within: "mimics j (\<lambda>q. within (h q)) h"
  by (auto simp: mimics_def within_def split: prod.splits)

lemma chained_mimics:
  assumes "mimics j k k'"
  shows "mimics j (\<lambda>q. chained i q k) (\<lambda>q. alone i q k')"
proof -
  have "\<exists>c. chained i q k (j, s) = (r, (c, s'))" if a: "alone i q k' s = (r, s')" for q s r s'
  proof -
    obtain b s1 where b: "before i q s = (b, s1)" by (cases "before i q s")
    note wb = within_apply [where m = "before i q" and s = s and c = j, OF b]
    show ?thesis
    proof (cases b)
      case (Panic msg)
      with a b wb show ?thesis by (simp add: alone_def chained_def bind_def)
    next
      case (Ret x)
      show ?thesis
      proof (cases x)
        case (Inl y)
        with a b wb Ret show ?thesis by (simp add: alone_def chained_def bind_def ret_def)
      next
        case (Inr y)
        obtain q' l where y: "y = (q', l)" by (cases y)
        obtain out s2 where o2: "k' q' s1 = (out, s2)" by (cases "k' q' s1")
        obtain c where k: "k q' (j, s1) = (out, (c, s2))" using mimicsD [OF assms o2] by blast
        have af: "after i l out s2 = (r, s')"
          using a b Ret Inr y o2 by (simp add: alone_def bind_def attempt_def)
        show ?thesis
          using b wb Ret Inr y k within_apply [where m = "after i l out" and s = s2 and c = c, OF af]
          by (simp add: chained_def bind_def attempt_def)
      qed
    qed
  qed
  then show ?thesis unfolding mimics_def by (metis fst_conv prod.collapse snd_conv)
qed

lemma chain_handler_mimics:
  assumes "mimics (length ics - 1) h h'" and "j < length ics" and "length ics - j \<le> k"
  shows "mimics j (chain_handler k (map chained ics) h) (nest (map alone (drop (Suc j) ics)) h')"
  using assms(2,3)
proof (induction k arbitrary: j)
  case 0
  then show ?case by simp
next
  case (Suc k)
  show ?case
  proof (cases "j = length ics - 1")
    case True
    with assms(1) show ?thesis by (simp add: mimics_def bind_def get_state_def)
  next
    case False
    with Suc.prems have j: "Suc j < length ics" by simp
    then have d: "drop (Suc j) ics = ics ! Suc j # drop (Suc (Suc j)) ics"
      by (simp add: Cons_nth_drop_Suc)
    have "mimics (Suc j) (chain_handler k (map chained ics) h) (nest (map alone (drop (Suc (Suc j)) ics)) h')"
      using Suc.IH [of "Suc j"] Suc.prems j by simp
    then have m: "mimics (Suc j) (\<lambda>q. chained (ics ! Suc j) q (chain_handler k (map chained ics) h))
        (\<lambda>q. alone (ics ! Suc j) q (nest (map alone (drop (Suc (Suc j)) ics)) h'))"
      by (rule chained_mimics)
    have step: "chain_handler (Suc k) (map chained ics) h q (j, s) =
        chained (ics ! Suc j) q (chain_handler k (map chained ics) h) (Suc j, s)" for q s
      using False j by (simp add: bind_def get_state_def put_state_def)
    show ?thesis
      using m unfolding mimics_def step d list.map nest_Cons by blast
  qed
qed

lemma chain_mimics:
  assumes "\<And>j. mimics j h h'"
  shows "mimics c (\<lambda>q. chain (map chained is) q h) (nest (map alone is) h')"
proof (cases "length is \<le> 1")
  case True
  then consider "is = []" | i where "is = [i]" by (cases "is") auto
  then show ?thesis
  proof cases
    case 1
    with assms show ?thesis by (simp add: chain_def nest_def)
  next
    case (2 i)
    with chained_mimics [OF assms] show ?thesis by (simp add: chain_def nest_def)
  qed
next
  case False
  then obtain i r where i: "is = i # r" by (cases "is") auto
  have "mimics 0 (chain_handler (length is) (map chained is) h) (nest (map alone (drop 1 is)) h')"
    using chain_handler_mimics [where ics = "is" and j = 0 and k = "length is", OF assms] i by simp
  then have m: "mimics 0 (\<lambda>q. chained i q (chain_handler (length is) (map chained is) h))
      (\<lambda>q. alone i q (nest (map alone r) h'))"
    using chained_mimics i by fastforce
  have step: "chain (map chained is) q h (c, s) =
      chained i q (chain_handler (length is) (map chained is) h) (0, s)" for q s
    using False i by (simp add: chain_def bind_def put_state_def)
  have n: "nest (map alone is) h' = (\<lambda>q. alone i q (nest (map alone r) h'))"
    by (simp add: i fun_eq_iff nest_Cons)
  show ?thesis
    using m unfolding mimics_def step n by blast
qed

text \<open>C31: for interceptors that call their handler at most once, as the four of the server do, a
  chain runs them from left to right, each around the rest and the last around the handler, however
  many they are, in all four kinds of chain and whatever value \<open>curI\<close> has before the call. An
  interceptor that calls its handler again is not covered: \<open>chain_not_reentrant\<close> shows that the
  rest of the chain is then skipped.\<close>

theorem chains_compose:
  "mimics c (\<lambda>q. ChainUnaryServer (map chained is1) q (\<lambda>q. within (h1 q))) (nest (map alone is1) h1) \<and>
   mimics c (\<lambda>q. ChainStreamServer (map chained is2) q (\<lambda>q. within (h2 q))) (nest (map alone is2) h2) \<and>
   mimics c (\<lambda>q. ChainUnaryClient (map chained is3) q (\<lambda>q. within (h3 q))) (nest (map alone is3) h3) \<and>
   mimics c (\<lambda>q. ChainStreamClient (map chained is4) q (\<lambda>q. within (h4 q))) (nest (map alone is4) h4)"
  by (simp add: ChainUnaryServer_def ChainStreamServer_def ChainUnaryClient_def ChainStreamClient_def
      chain_mimics mimics_within)

section \<open>A chain cannot be entered twice\<close>

text \<open>An interceptor that calls its handler a second time, as one that retries would.\<close>

definition retrying :: "('s, 'q, 'r) interceptor" where
  "retrying q handler = bind (attempt (handler q)) (\<lambda>_. handler q)"

lemma chained_within:
  assumes "\<And>q s. k q (c, s) = within (k' q) (c, s)"
  shows "chained i q k (c, s) = within (alone i q k') (c, s)"
proof -
  obtain b s1 where b: "before i q s = (b, s1)" by (cases "before i q s")
  show ?thesis
  proof (cases b)
    case (Panic msg)
    with b show ?thesis by (simp add: chained_def alone_def bind_def within_def)
  next
    case (Ret x)
    then show ?thesis
      using b by (cases x) (simp_all add: chained_def alone_def bind_def within_def attempt_def ret_def assms
          split: prod.splits)
  qed
qed

text \<open>
  the counter of a chain is not reset between calls: when an interceptor calls its handler
  a second time, the interceptors after it are skipped and the request goes straight to the
  handler.\<close>

theorem chain_not_reentrant:
  "mimics c (\<lambda>q. ChainUnaryServer [retrying, chained i] q (\<lambda>q. within (h q)))
     (\<lambda>q. bind (attempt (alone i q h)) (\<lambda>_. h q))"
proof -
  define hh where "hh = chain_handler 1 [retrying, chained i] (\<lambda>q. within (h q))"
  have last: "hh q (1, s) = within (h q) (1, s)" for q s
    by (simp add: hh_def bind_def get_state_def)
  then have first: "chained i q hh (1, s) = within (alone i q h) (1, s)" for q s
    by (rule chained_within)
  define h2 where "h2 = chain_handler 2 [retrying, chained i] (\<lambda>q. within (h q))"
  have c0: "h2 q (0, s) = within (alone i q h) (1, s)" for q s
    by (simp add: h2_def numeral_2_eq_2 bind_def get_state_def put_state_def first [unfolded hh_def, simplified])
  have c1: "h2 q (1, s) = within (h q) (1, s)" for q s
    by (simp add: h2_def numeral_2_eq_2 bind_def get_state_def)
  have "ChainUnaryServer [retrying, chained i] q (\<lambda>q. within (h q)) (c, s) = retrying q h2 (0, s)" for q s
    by (simp add: ChainUnaryServer_def chain_def bind_def put_state_def h2_def numeral_2_eq_2)
  then show ?thesis
    unfolding mimics_def
    by (auto simp: retrying_def attempt_def bind_def c0 c1 [unfolded One_nat_def] within_def split: prod.splits)
qed

end
