(* ===== verification/Interceptors.thy ===== *)
theory Interceptors
  imports Chains
begin

text \<open>
  The four interceptors of the server (\<open>server.go\<close>, \<open>logging.go\<close>, \<open>metrics.go\<close>) and the chain that
  \<open>main\<close> builds of them. The semaphores and the context belong to libraries, and are a record
  of actions here; so are the scopes of the library \<open>tally\<close>, and what \<open>Printf\<close> writes of a request.
\<close>

section \<open>The interceptors of the server\<close>

text \<open>A semaphore of \<open>golang.org/x/sync\<close> and the context of the request.\<close>

record 's semaphore =
  sem_Acquire :: "('s, goerr option) io"
  sem_TryAcquire :: "('s, bool) io"
  sem_Release :: "('s, unit) io"
  ctx_Err :: "('s, goerr option) io"

definition SerializingInterceptor :: "'s semaphore \<Rightarrow> ('s, 'q, rpc_err + 'r) interceptor" where
  "SerializingInterceptor sem = (\<lambda>q handler.
     bind (sem_Acquire sem) (\<lambda>err. case err of
       Some e \<Rightarrow> fail (Raw e)
     | None \<Rightarrow> bind (ctx_Err sem) (\<lambda>cancelled. case cancelled of
         Some e \<Rightarrow> bind (sem_Release sem) (\<lambda>_. fail (Raw e))
       | None \<Rightarrow> defer_do (sem_Release sem) (handler q))))"

definition too_many_requests :: rpc_err where
  "too_many_requests = Status Unavailable ''Too many pending requests. Please retry later.''"

definition RequestLimitInterceptor :: "'s semaphore \<Rightarrow> ('s, 'q, rpc_err + 'r) interceptor" where
  "RequestLimitInterceptor sem = (\<lambda>q handler.
     bind (sem_TryAcquire sem) (\<lambda>acquired.
       if \<not> acquired then fail too_many_requests
       else defer_do (sem_Release sem) (handler q)))"

text \<open>What \<open>%v\<close> prints of a request, an error and an answer.\<close>

record ('q, 'r) printer =
  show_req :: "'q \<Rightarrow> string"
  show_err :: "rpc_err \<Rightarrow> string"
  show_resp :: "'r \<Rightarrow> string"

definition LoggingInterceptor ::
  "('q, 'r) printer \<Rightarrow> (string \<Rightarrow> ('s, unit) io) \<Rightarrow> string \<Rightarrow> ('s, 'q, rpc_err + 'r) interceptor" where
  "LoggingInterceptor pr log_line fullMethod = (\<lambda>q handler.
     bind (log_line (''Serving '' @ fullMethod @ '': req='' @ show_req pr q)) (\<lambda>_.
     bind (handler q) (\<lambda>r. case r of
       Inl e \<Rightarrow> bind (log_line (fullMethod @ '' failed: err='' @ show_err pr e)) (\<lambda>_. fail e)
     | Inr v \<Rightarrow> bind (log_line (''Served '' @ fullMethod @ '': resp='' @ show_resp pr v)) (\<lambda>_. ok v))))"

text \<open>The library \<open>tally\<close>: \<open>'sc\<close> is a scope and \<open>'t\<close> a running stopwatch. Starting and stopping a
  stopwatch and incrementing a counter return no error.\<close>

record ('sc, 't, 's) tally =
  tl_Noop :: 'sc
  tl_Tagged :: "'sc \<Rightarrow> gomap \<Rightarrow> 'sc"
  tl_SubScope :: "'sc \<Rightarrow> string \<Rightarrow> 'sc"
  tl_Start :: "'sc \<Rightarrow> string \<Rightarrow> 's \<Rightarrow> 't \<times> 's"
  tl_Stop :: "'t \<Rightarrow> 's \<Rightarrow> 's"
  tl_Inc :: "'sc \<Rightarrow> string \<Rightarrow> int64 \<Rightarrow> 's \<Rightarrow> 's"

text \<open>The variable \<open>scope\<close>, which \<open>MetricsInterceptor\<close> captures and all its requests share.\<close>

record ('sc, 's) scope_var =
  sv_get :: "'s \<Rightarrow> 'sc"
  sv_set :: "'sc \<Rightarrow> 's \<Rightarrow> 's"

definition count_result :: "('sc, 't, 's) tally \<Rightarrow> ('sc, 's) scope_var \<Rightarrow> string \<Rightarrow> 's \<Rightarrow> 's" where
  "count_result ty var result s = tl_Inc ty (tl_Tagged ty (sv_get var s) [(''result_type'', result)]) ''requests'' 1 s"

definition start_watch :: "('sc, 't, 's) tally \<Rightarrow> ('sc, 's) scope_var \<Rightarrow> ('s, 't) io" where
  "start_watch ty var s =
     (case tl_Start ty (tl_SubScope ty (sv_get var s) ''requests'') ''latency'' s of (t, s') \<Rightarrow> (Ret t, s'))"

definition MetricsInterceptor ::
  "('sc, 't, 's) tally \<Rightarrow> ('sc, 's) scope_var \<Rightarrow> string \<Rightarrow> ('s, 'q, rpc_err + 'r) interceptor" where
  "MetricsInterceptor ty var fullMethod = (\<lambda>q handler.
     bind (put_state (\<lambda>s. sv_set var (tl_Tagged ty (sv_get var s) [(''method'', fullMethod)]) s)) (\<lambda>_.
     bind (start_watch ty var) (\<lambda>timer.
     defer_do (put_state (tl_Stop ty timer))
       (bind (handler q) (\<lambda>r. case r of
          Inl e \<Rightarrow> bind (put_state (count_result ty var ''error'')) (\<lambda>_. fail e)
        | Inr v \<Rightarrow> bind (put_state (count_result ty var ''success'')) (\<lambda>_. ok v))))))"

section \<open>The chain of the server\<close>

text \<open>Each of the four calls its handler at most once.\<close>

definition limiting :: "'s semaphore \<Rightarrow> ('s, 'q, rpc_err + 'r, 't option) once" where
  "limiting sem = \<lparr>
     before = (\<lambda>q. bind (sem_TryAcquire sem) (\<lambda>acquired.
       if \<not> acquired then ret (Inl (Inl too_many_requests)) else ret (Inr (q, None)))),
     after = (\<lambda>l out. bind (sem_Release sem) (\<lambda>_. resume out))\<rparr>"

definition serializing :: "'s semaphore \<Rightarrow> ('s, 'q, rpc_err + 'r, 't option) once" where
  "serializing sem = \<lparr>
     before = (\<lambda>q. bind (sem_Acquire sem) (\<lambda>err. case err of
         Some e \<Rightarrow> ret (Inl (Inl (Raw e)))
       | None \<Rightarrow> bind (ctx_Err sem) (\<lambda>cancelled. case cancelled of
           Some e \<Rightarrow> bind (sem_Release sem) (\<lambda>_. ret (Inl (Inl (Raw e))))
         | None \<Rightarrow> ret (Inr (q, None))))),
     after = (\<lambda>l out. bind (sem_Release sem) (\<lambda>_. resume out))\<rparr>"

definition observing ::
  "('q \<Rightarrow> ('s, 'l) io) \<Rightarrow> (rpc_err \<Rightarrow> ('s, unit) io) \<Rightarrow> ('r \<Rightarrow> ('s, unit) io) \<Rightarrow> ('l \<Rightarrow> ('s, unit) io)
     \<Rightarrow> ('s, 'q, rpc_err + 'r, 'l) once" where
  "observing on_call on_error on_success on_end = \<lparr>
     before = (\<lambda>q. bind (on_call q) (\<lambda>l. ret (Inr (q, l)))),
     after = (\<lambda>l out. defer_do (on_end l) (case out of
         Panic msg \<Rightarrow> panic msg
       | Ret (Inl e) \<Rightarrow> bind (on_error e) (\<lambda>_. fail e)
       | Ret (Inr v) \<Rightarrow> bind (on_success v) (\<lambda>_. ok v)))\<rparr>"

definition logging_once ::
  "('q, 'r) printer \<Rightarrow> (string \<Rightarrow> ('s, unit) io) \<Rightarrow> string \<Rightarrow> ('s, 'q, rpc_err + 'r, 't option) once" where
  "logging_once pr log_line m = observing
     (\<lambda>q. bind (log_line (''Serving '' @ m @ '': req='' @ show_req pr q)) (\<lambda>_. ret None))
     (\<lambda>e. log_line (m @ '' failed: err='' @ show_err pr e))
     (\<lambda>v. log_line (''Served '' @ m @ '': resp='' @ show_resp pr v)) (\<lambda>_. ret ())"

definition metrics_once ::
  "('sc, 't, 's) tally \<Rightarrow> ('sc, 's) scope_var \<Rightarrow> string \<Rightarrow> ('s, 'q, rpc_err + 'r, 't option) once" where
  "metrics_once ty var m = observing
     (\<lambda>q. bind (put_state (\<lambda>s. sv_set var (tl_Tagged ty (sv_get var s) [(''method'', m)]) s)) (\<lambda>_.
        bind (start_watch ty var) (\<lambda>t. ret (Some t))))
     (\<lambda>e. put_state (count_result ty var ''error'')) (\<lambda>v. put_state (count_result ty var ''success''))
     (\<lambda>l. put_state (tl_Stop ty (the l)))"

lemmas once_defs = alone_def bind_def attempt_def resume_def ret_def fail_def ok_def panic_def defer_do_def

lemma alone_limiting: "alone (limiting sem) = RequestLimitInterceptor sem"
  by (intro ext) (auto simp: limiting_def RequestLimitInterceptor_def once_defs split: prod.splits outcome.splits)

lemma alone_serializing: "alone (serializing sem) = SerializingInterceptor sem"
  by (intro ext)
    (auto simp: serializing_def SerializingInterceptor_def once_defs split: prod.splits outcome.splits option.splits)

lemma alone_logging: "alone (logging_once pr log_line m) = LoggingInterceptor pr log_line m"
  by (intro ext)
    (auto simp: logging_once_def observing_def LoggingInterceptor_def once_defs split: prod.splits outcome.splits sum.splits)

lemma alone_metrics: "alone (metrics_once ty var m) = MetricsInterceptor ty var m"
  by (intro ext)
    (auto simp: metrics_once_def observing_def MetricsInterceptor_def start_watch_def put_state_def once_defs
      split: prod.splits outcome.splits sum.splits)

text \<open>The chain of \<open>main\<close>.\<close>

definition server_chain ::
  "'s semaphore \<Rightarrow> 's semaphore \<Rightarrow> ('ctx \<times> 'req, 'r) printer \<Rightarrow> (string \<Rightarrow> ('s, unit) io) \<Rightarrow> ('sc, 't, 's) tally
     \<Rightarrow> ('sc, 's) scope_var \<Rightarrow> string \<Rightarrow> (nat \<times> 's, 'ctx \<times> 'req, rpc_err + 'r) interceptor" where
  "server_chain limit serial pr log_line ty var m = ChainUnaryServer (map chained
     [limiting limit, serializing serial, logging_once pr log_line m, metrics_once ty var m])"

text \<open>
  a request passes the interceptors of the server in this order: the limit is tested first,
  then the request waits for its turn, and only then it is logged and measured.\<close>

theorem server_chain_order:
  "mimics c (\<lambda>q. server_chain limit serial pr log_line ty var m q (\<lambda>q. within (h q)))
     (\<lambda>q. RequestLimitInterceptor limit q (\<lambda>q. SerializingInterceptor serial q
      (\<lambda>q. LoggingInterceptor pr log_line m q (\<lambda>q. MetricsInterceptor ty var m q h))))"
proof -
  have "mimics c (\<lambda>q. chain (map chained [limiting limit, serializing serial, logging_once pr log_line m,
        metrics_once ty var m]) q (\<lambda>q. within (h q)))
      (nest (map alone [limiting limit, serializing serial, logging_once pr log_line m, metrics_once ty var m]) h)"
    by (rule chain_mimics) (rule mimics_within)
  then show ?thesis
    by (simp add: server_chain_def ChainUnaryServer_def nest_def alone_limiting alone_serializing
        alone_logging alone_metrics)
qed

section \<open>Interceptors that only observe\<close>

text \<open>An observer prepares the state, calls the handler once, returns its outcome unchanged and
  finishes the state, which may depend on what it has kept from before the call.\<close>

locale observer =
  fixes ic :: "('s, 'q, 'r) interceptor"
    and before :: "'q \<Rightarrow> 's \<Rightarrow> 's"
    and after :: "'s \<Rightarrow> 'r outcome \<Rightarrow> 's \<Rightarrow> 's"
  assumes observes: "ic q h s = (case h q (before q s) of (r, s') \<Rightarrow> (r, after s r s'))"
begin

lemma outcome_unchanged: "fst (ic q h s) = fst (h q (before q s))"
  by (simp add: observes split: prod.splits)

lemma observer_nopanic: "nopanic (h q) \<Longrightarrow> nopanic (ic q h)"
  by (simp add: nopanic_def outcome_unchanged)

lemma handler_called_once: "ic q h s = (r, s') \<Longrightarrow> \<exists>s1. h q (before q s) = (r, s1) \<and> s' = after s r s1"
  by (auto simp: observes split: prod.splits)

lemma nest_outcome: "fst (nest (ic # is) h q s) = fst (nest is h q (before q s))"
  by (simp add: nest_def outcome_unchanged)

end

text \<open>Writing a log line, as a call of the trace.\<close>

definition record_line :: "string \<Rightarrow> ('w gs, unit) io" where
  "record_line msg = extcall (Os ''note'' [msg]) (\<lambda>w. ((), w))"

definition recorded :: "string \<Rightarrow> 'w gs \<Rightarrow> 'w gs" where
  "recorded msg s = s\<lparr>trace := trace s @ [Os ''note'' [msg]]\<rparr>"

lemma record_line_apply: "record_line msg s = (Ret (), recorded msg s)"
  by (simp add: record_line_def recorded_def extcall_def)

definition log_before :: "('q, 'r) printer \<Rightarrow> string \<Rightarrow> 'q \<Rightarrow> 'w gs \<Rightarrow> 'w gs" where
  "log_before pr fullMethod q s = recorded (''Serving '' @ fullMethod @ '': req='' @ show_req pr q) s"

definition log_after :: "('q, 'r) printer \<Rightarrow> string \<Rightarrow> 'w gs \<Rightarrow> (rpc_err + 'r) outcome \<Rightarrow> 'w gs \<Rightarrow> 'w gs" where
  "log_after pr fullMethod s0 r s =
     (case r of Panic _ \<Rightarrow> s
      | Ret (Inl e) \<Rightarrow> recorded (fullMethod @ '' failed: err='' @ show_err pr e) s
      | Ret (Inr v) \<Rightarrow> recorded (''Served '' @ fullMethod @ '': resp='' @ show_resp pr v) s)"

text \<open>What the metrics interceptor does before the call, with the stopwatch it keeps, and after it.\<close>

definition metered :: "('sc, 't, 's) tally \<Rightarrow> ('sc, 's) scope_var \<Rightarrow> string \<Rightarrow> 's \<Rightarrow> 't \<times> 's" where
  "metered ty var fullMethod s =
     (let s1 = sv_set var (tl_Tagged ty (sv_get var s) [(''method'', fullMethod)]) s
      in tl_Start ty (tl_SubScope ty (sv_get var s1) ''requests'') ''latency'' s1)"

definition metrics_after ::
  "('sc, 't, 's) tally \<Rightarrow> ('sc, 's) scope_var \<Rightarrow> string \<Rightarrow> 's \<Rightarrow> (rpc_err + 'r) outcome \<Rightarrow> 's \<Rightarrow> 's" where
  "metrics_after ty var fullMethod s0 r s =
     tl_Stop ty (fst (metered ty var fullMethod s0))
       (case r of Panic _ \<Rightarrow> s
        | Ret (Inl _) \<Rightarrow> count_result ty var ''error'' s
        | Ret (Inr _) \<Rightarrow> count_result ty var ''success'' s)"

interpretation logging: observer "LoggingInterceptor pr record_line fullMethod" "log_before pr fullMethod" "log_after pr fullMethod"
  for pr fullMethod
  by unfold_locales
     (auto simp: LoggingInterceptor_def bind_def record_line_apply log_before_def log_after_def fail_def ok_def ret_def
       split: prod.splits outcome.splits sum.splits)

interpretation metrics: observer "MetricsInterceptor ty var fullMethod" "\<lambda>q s. snd (metered ty var fullMethod s)"
    "metrics_after ty var fullMethod" for ty var fullMethod
  by unfold_locales
     (auto simp: MetricsInterceptor_def start_watch_def metered_def put_state_def defer_do_def bind_def Let_def
       metrics_after_def fail_def ok_def ret_def split: prod.splits outcome.splits sum.splits)

text \<open>
  The logging and the metrics interceptor never change an answer, an error or a panic: the
  handler runs once, and the caller gets its outcome.\<close>

theorem observers_keep_outcome:
  "fst (ChainUnaryServer (map chained [logging_once pr record_line m, metrics_once ty var m]) q
      (\<lambda>q. within (h q)) (c, s)) = fst (h q (snd (metered ty var m (log_before pr m q s))))"
proof -
  have "mimics c (\<lambda>q. chain (map chained [logging_once pr record_line m, metrics_once ty var m]) q (\<lambda>q. within (h q)))
      (nest (map alone [logging_once pr record_line m, metrics_once ty var m]) h)"
    by (rule chain_mimics) (rule mimics_within)
  then have "fst (ChainUnaryServer (map chained [logging_once pr record_line m, metrics_once ty var m]) q
      (\<lambda>q. within (h q)) (c, s)) = fst (nest [LoggingInterceptor pr record_line m, MetricsInterceptor ty var m] h q s)"
    by (simp add: mimics_def ChainUnaryServer_def alone_logging alone_metrics del: split_paired_All)
  then show ?thesis
    by (simp add: logging.nest_outcome metrics.nest_outcome)
qed

section \<open>Permits\<close>

text \<open>The documented behaviour of a weighted semaphore, for the number of permits held: a
  successful acquisition takes one, a release gives one back, and nothing else changes it.\<close>

definition semaphore_law :: "'s semaphore \<Rightarrow> ('s \<Rightarrow> int) \<Rightarrow> bool" where
  "semaphore_law sem held \<longleftrightarrow> (\<forall>s.
     (\<exists>b s'. sem_TryAcquire sem s = (Ret b, s') \<and> held s' = held s + (if b then 1 else 0)) \<and>
     (\<exists>e s'. sem_Acquire sem s = (Ret e, s') \<and> held s' = held s + (if e = None then 1 else 0)) \<and>
     (\<exists>s'. sem_Release sem s = (Ret (), s') \<and> held s' = held s - 1) \<and>
     (\<exists>e s'. ctx_Err sem s = (Ret e, s') \<and> held s' = held s))"

definition balanced :: "('s \<Rightarrow> int) \<Rightarrow> ('s, 'a) io \<Rightarrow> bool" where
  "balanced held m \<longleftrightarrow> (\<forall>s. held (snd (m s)) = held s)"

lemma TryAcquire_law:
  assumes "semaphore_law sem held"
  obtains b s' where "sem_TryAcquire sem s = (Ret b, s')" and "held s' = held s + (if b then 1 else 0)"
  using spec [OF assms [unfolded semaphore_law_def], of s] by blast

lemma Acquire_law:
  assumes "semaphore_law sem held"
  obtains e s' where "sem_Acquire sem s = (Ret e, s')" and "held s' = held s + (if e = None then 1 else 0)"
  using spec [OF assms [unfolded semaphore_law_def], of s] by blast

lemma Release_law:
  assumes "semaphore_law sem held"
  obtains s' where "sem_Release sem s = (Ret (), s')" and "held s' = held s - 1"
  using spec [OF assms [unfolded semaphore_law_def], of s] by blast

lemma ctx_law:
  assumes "semaphore_law sem held"
  obtains e s' where "ctx_Err sem s = (Ret e, s')" and "held s' = held s"
  using spec [OF assms [unfolded semaphore_law_def], of s] by blast

lemma released_after:
  assumes "semaphore_law sem held" and "balanced held m"
  shows "held (snd (defer_do (sem_Release sem) m s)) = held s - 1"
proof -
  obtain r s1 where r: "m s = (r, s1)" by (cases "m s")
  obtain s2 where "sem_Release sem s1 = (Ret (), s2)" "held s2 = held s1 - 1"
    using Release_law [OF assms(1)] .
  moreover have "held s1 = held s" using assms(2) r unfolding balanced_def by (metis snd_conv)
  ultimately show ?thesis using r by (simp add: defer_do_eq)
qed

text \<open>C30: whatever becomes of a request, answered, refused, cancelled or panicking, the limiting
  and the serialising interceptor give back every permit they took.\<close>

theorem permits_returned:
  assumes "semaphore_law sem held" and "balanced held (h q)"
  shows "balanced held (RequestLimitInterceptor sem q h) \<and> balanced held (SerializingInterceptor sem q h)"
  unfolding balanced_def
proof (intro conjI allI)
  fix s
  obtain b s1 where tr: "sem_TryAcquire sem s = (Ret b, s1)" "held s1 = held s + (if b then 1 else 0)"
    using TryAcquire_law [OF assms(1)] .
  obtain e s2 where acq: "sem_Acquire sem s = (Ret e, s2)" "held s2 = held s + (if e = None then 1 else 0)"
    using Acquire_law [OF assms(1)] .
  obtain c s3 where ctx: "ctx_Err sem s2 = (Ret c, s3)" "held s3 = held s2"
    using ctx_law [OF assms(1)] .
  obtain s4 where rel: "sem_Release sem s3 = (Ret (), s4)" "held s4 = held s3 - 1"
    using Release_law [OF assms(1)] .
  show "held (snd (RequestLimitInterceptor sem q h s)) = held s"
    using tr released_after [OF assms]
    by (cases b) (simp_all add: RequestLimitInterceptor_def bind_Ret io_simps)
  show "held (snd (SerializingInterceptor sem q h s)) = held s"
  proof (cases e)
    case (Some x)
    with acq show ?thesis by (simp add: SerializingInterceptor_def bind_Ret io_simps)
  next
    case None
    with acq ctx rel released_after [OF assms, of s3] show ?thesis
      by (cases c) (simp_all add: SerializingInterceptor_def bind_Ret io_simps)
  qed
qed

definition one_permit :: "int semaphore" where
  "one_permit = \<lparr>
     sem_Acquire = (\<lambda>n. if n < 1 then (Ret None, n + 1) else (Ret (Some (TextError ''context canceled'')), n)),
     sem_TryAcquire = (\<lambda>n. if n < 1 then (Ret True, n + 1) else (Ret False, n)),
     sem_Release = (\<lambda>n. (Ret (), n - 1)),
     ctx_Err = (\<lambda>n. (Ret None, n))\<rparr>"

theorem permits_returned_witness:
  "snd (RequestLimitInterceptor one_permit () (\<lambda>q. panic ''boom'' :: (int, rpc_err + unit) io) 0) = 0"
proof -
  have law: "semaphore_law one_permit (\<lambda>n. n)"
    by (auto simp: semaphore_law_def one_permit_def)
  have bal: "balanced (\<lambda>n. n) (panic ''boom'' :: (int, rpc_err + unit) io)"
    by (simp add: balanced_def panic_def)
  have "balanced (\<lambda>n. n) (RequestLimitInterceptor one_permit () (\<lambda>q. panic ''boom'' :: (int, rpc_err + unit) io))"
    using permits_returned [where h = "\<lambda>q. panic ''boom''" and q = "()", OF law bal] by (rule conjunct1)
  then show ?thesis unfolding balanced_def by (rule spec)
qed

end
