(* ===== verification/Serving.thy ===== *)
theory Serving
  imports Interceptors
begin

text \<open>
  Requests in flight. gRPC serves each request in its own goroutine; the outer two interceptors
  of the server, \<open>RequestLimitInterceptor\<close> and \<open>SerializingInterceptor\<close>, make them share two
  semaphores. The step relation interleaves the requests at every semaphore operation of the
  two functions; everything inside the inner one is the phase \<open>Running\<close>. The semaphores
  are parameters, with their documented behaviour as hypothesis. \<open>interceptors_take_steps\<close> derives
  the steps from the definitions of the two interceptors. A handler that does not return stays in
  the phase \<open>Running\<close>; its return is the step \<open>finish\<close>. The actions it makes before are added in
  \<open>Sequential\<close>.
\<close>

datatype answer = Refused | Cancelled | Handled

datatype phase = Idle | Queued | Running | Leaving | Answered answer

record 'm pool =
  try_take :: "'m \<Rightarrow> 'm option"
  give_back :: "'m \<Rightarrow> 'm"

text \<open>The permits held never exceed the weight of the semaphore.\<close>

definition pool_law :: "'m pool \<Rightarrow> ('m \<Rightarrow> int) \<Rightarrow> int \<Rightarrow> bool" where
  "pool_law p held weight \<longleftrightarrow>
     (\<forall>m m'. try_take p m = Some m' \<longrightarrow> held m' = held m + 1 \<and> held m' \<le> weight) \<and>
     (\<forall>m. held (give_back p m) = held m - 1)"

record ('m, 'n) serving =
  limit_sem :: 'm
  serial_sem :: 'n
  phases :: "nat \<Rightarrow> phase"

abbreviation move :: "nat \<Rightarrow> phase \<Rightarrow> ('m, 'n) serving \<Rightarrow> ('m, 'n) serving" where
  "move i p c \<equiv> c\<lparr>phases := (phases c)(i := p)\<rparr>"

text \<open>\<open>admit\<close> and \<open>refuse\<close> are the two results of \<open>TryAcquire\<close>; \<open>run\<close>, \<open>cancel_late\<close> and
  \<open>cancel\<close> are the results of \<open>Acquire\<close> with the second look at the context; \<open>finish\<close> and
  \<open>leave\<close> are the deferred releases, the inner one first.\<close>

inductive serve_step ::
  "'m pool \<Rightarrow> 'n pool \<Rightarrow> ('m, 'n) serving \<Rightarrow> ('m, 'n) serving \<Rightarrow> bool" for lp sp where
  admit: "phases c i = Idle \<Longrightarrow> try_take lp (limit_sem c) = Some l \<Longrightarrow>
     serve_step lp sp c (move i Queued (c\<lparr>limit_sem := l\<rparr>))"
| refuse: "phases c i = Idle \<Longrightarrow> try_take lp (limit_sem c) = None \<Longrightarrow>
     serve_step lp sp c (move i (Answered Refused) c)"
| run: "phases c i = Queued \<Longrightarrow> try_take sp (serial_sem c) = Some r \<Longrightarrow>
     serve_step lp sp c (move i Running (c\<lparr>serial_sem := r\<rparr>))"
| cancel_late: "phases c i = Queued \<Longrightarrow> try_take sp (serial_sem c) = Some r \<Longrightarrow>
     serve_step lp sp c (move i (Answered Cancelled)
       (c\<lparr>serial_sem := give_back sp r, limit_sem := give_back lp (limit_sem c)\<rparr>))"
| cancel: "phases c i = Queued \<Longrightarrow>
     serve_step lp sp c (move i (Answered Cancelled) (c\<lparr>limit_sem := give_back lp (limit_sem c)\<rparr>))"
| finish: "phases c i = Running \<Longrightarrow>
     serve_step lp sp c (move i Leaving (c\<lparr>serial_sem := give_back sp (serial_sem c)\<rparr>))"
| leave: "phases c i = Leaving \<Longrightarrow>
     serve_step lp sp c (move i (Answered Handled) (c\<lparr>limit_sem := give_back lp (limit_sem c)\<rparr>))"

inductive_cases serve_stepE: "serve_step lp sp c c'"

definition fresh :: "'m \<Rightarrow> 'n \<Rightarrow> ('m, 'n) serving" where
  "fresh l r = \<lparr>limit_sem = l, serial_sem = r, phases = (\<lambda>_. Idle)\<rparr>"

definition reachable :: "'m pool \<Rightarrow> 'n pool \<Rightarrow> 'm \<Rightarrow> 'n \<Rightarrow> ('m, 'n) serving \<Rightarrow> bool" where
  "reachable lp sp l r c \<longleftrightarrow> (serve_step lp sp)\<^sup>*\<^sup>* (fresh l r) c"

text \<open>The requests that hold a place in the limit, and those being handled.\<close>

definition flying :: "(nat \<Rightarrow> phase) \<Rightarrow> nat set" where
  "flying ph = {i. ph i \<in> {Queued, Running, Leaving}}"

definition handled :: "(nat \<Rightarrow> phase) \<Rightarrow> nat set" where
  "handled ph = {i. ph i = Running}"

definition in_flight :: "('m, 'n) serving \<Rightarrow> nat set" where
  "in_flight c = flying (phases c)"

definition running :: "('m, 'n) serving \<Rightarrow> nat set" where
  "running c = handled (phases c)"

text \<open>An answer is final.\<close>

lemma answered_final: "serve_step lp sp c c' \<Longrightarrow> phases c i = Answered a \<Longrightarrow> phases c' i = Answered a"
  by (erule serve_stepE) auto

section \<open>The steps are those of the two interceptors\<close>

text \<open>The semaphores of request \<open>i\<close>, on the state of serving. While it waits in \<open>Acquire\<close> other
  requests go on (\<open>wait\<close>), and its context may end in the meantime (\<open>gone\<close>); \<open>late\<close> is what the
  second look at the context finds. The phases are not looked at.\<close>

definition context_canceled :: goerr where
  "context_canceled = TextError ''context canceled''"

definition limit_of :: "'m pool \<Rightarrow> ('m, 'n) serving semaphore" where
  "limit_of lp = \<lparr>
     sem_Acquire = (\<lambda>c. case try_take lp (limit_sem c) of
         Some l \<Rightarrow> (Ret None, c\<lparr>limit_sem := l\<rparr>) | None \<Rightarrow> (Ret (Some context_canceled), c)),
     sem_TryAcquire = (\<lambda>c. case try_take lp (limit_sem c) of
         Some l \<Rightarrow> (Ret True, c\<lparr>limit_sem := l\<rparr>) | None \<Rightarrow> (Ret False, c)),
     sem_Release = (\<lambda>c. (Ret (), c\<lparr>limit_sem := give_back lp (limit_sem c)\<rparr>)),
     ctx_Err = (\<lambda>c. (Ret None, c))\<rparr>"

definition serial_of ::
  "'n pool \<Rightarrow> (('m, 'n) serving \<Rightarrow> ('m, 'n) serving) \<Rightarrow> (('m, 'n) serving \<Rightarrow> bool) \<Rightarrow> bool
     \<Rightarrow> ('m, 'n) serving semaphore" where
  "serial_of sp wait gone late = \<lparr>
     sem_Acquire = (\<lambda>c. case (if gone (wait c) then None else try_take sp (serial_sem (wait c))) of
         Some r \<Rightarrow> (Ret None, (wait c)\<lparr>serial_sem := r\<rparr>) | None \<Rightarrow> (Ret (Some context_canceled), wait c)),
     sem_TryAcquire = (\<lambda>c. case try_take sp (serial_sem c) of
         Some r \<Rightarrow> (Ret True, c\<lparr>serial_sem := r\<rparr>) | None \<Rightarrow> (Ret False, c)),
     sem_Release = (\<lambda>c. (Ret (), c\<lparr>serial_sem := give_back sp (serial_sem c)\<rparr>)),
     ctx_Err = (\<lambda>c. (Ret (if late then Some context_canceled else None), c))\<rparr>"

lemma move_twice [simp]: "move i p (c\<lparr>phases := (phases c)(i := p')\<rparr>) = move i p c"
  by simp

text \<open>Running the outer two interceptors for one request, around any handler and with any steps of
  other requests while it waits and while its handler runs, is a run of \<open>serve_step\<close>. The phase
  in which the request ends tells what was answered; the handler may also panic.\<close>

theorem interceptors_take_steps:
  assumes "RequestLimitInterceptor (limit_of lp) q
      (\<lambda>q. SerializingInterceptor (serial_of sp wait gone late) q h) c = (out, c')"
    and "phases c i = Idle"
    and waits: "\<And>c. (serve_step lp sp)\<^sup>*\<^sup>* (move i Queued c) (move i Queued (wait c))"
    and handles: "\<And>q c out c'. h q c = (out, c') \<Longrightarrow> (serve_step lp sp)\<^sup>*\<^sup>* (move i Running c) (move i Running c')"
  shows "\<exists>a. (serve_step lp sp)\<^sup>*\<^sup>* c (move i (Answered a) c') \<and>
    (case a of Refused \<Rightarrow> out = Ret (Inl too_many_requests)
     | Cancelled \<Rightarrow> out = Ret (Inl (Raw context_canceled))
     | Handled \<Rightarrow> \<exists>c1 c2. h q c1 = (out, c2))"
proof (cases "try_take lp (limit_sem c)")
  case None
  with assms(1) have "out = Ret (Inl too_many_requests)" and "c' = c"
    by (simp_all add: RequestLimitInterceptor_def limit_of_def bind_def fail_def ret_def)
  moreover have "serve_step lp sp c (move i (Answered Refused) c)"
    by (rule refuse [OF assms(2) None])
  ultimately show ?thesis by (intro exI [of _ Refused]) auto
next
  case (Some l)
  define c1 where "c1 = c\<lparr>limit_sem := l\<rparr>"
  obtain o2 c2 where ser: "SerializingInterceptor (serial_of sp wait gone late) q h c1 = (o2, c2)"
    by fastforce
  with assms(1) Some have out: "out = o2" "c' = c2\<lparr>limit_sem := give_back lp (limit_sem c2)\<rparr>"
    by (simp_all add: RequestLimitInterceptor_def limit_of_def bind_def defer_do_def c1_def)
  have "serve_step lp sp c (move i Queued c1)" unfolding c1_def using admit [OF assms(2) Some] by simp
  then have queued: "(serve_step lp sp)\<^sup>*\<^sup>* c (move i Queued (wait c1))"
    using waits [of c1] by (meson converse_rtranclp_into_rtranclp)
  show ?thesis
  proof (cases "if gone (wait c1) then None else try_take sp (serial_sem (wait c1))")
    case None
    with ser have "o2 = Ret (Inl (Raw context_canceled))" and "c2 = wait c1"
      by (auto simp: SerializingInterceptor_def serial_of_def bind_def fail_def ret_def split: if_splits)
    moreover have "serve_step lp sp (move i Queued (wait c1))
        (move i (Answered Cancelled) ((wait c1)\<lparr>limit_sem := give_back lp (limit_sem (wait c1))\<rparr>))"
      using cancel [of "move i Queued (wait c1)" i lp sp] by simp
    ultimately show ?thesis
      using queued out by (intro exI [of _ Cancelled]) (auto intro: rtranclp.rtrancl_into_rtrancl)
  next
    case (Some r)
    then have free: "try_take sp (serial_sem (wait c1)) = Some r" by (simp split: if_splits)
    define c3 where "c3 = (wait c1)\<lparr>serial_sem := r\<rparr>"
    show ?thesis
    proof (cases late)
      case True
      with ser Some have "o2 = Ret (Inl (Raw context_canceled))"
          and "c2 = (wait c1)\<lparr>serial_sem := give_back sp r\<rparr>"
        by (simp_all add: SerializingInterceptor_def serial_of_def bind_def fail_def ret_def)
      moreover have "serve_step lp sp (move i Queued (wait c1)) (move i (Answered Cancelled)
          ((wait c1)\<lparr>serial_sem := give_back sp r, limit_sem := give_back lp (limit_sem (wait c1))\<rparr>))"
        using cancel_late [of "move i Queued (wait c1)" i sp r lp] free by simp
      ultimately show ?thesis
        using queued out by (intro exI [of _ Cancelled]) (auto intro: rtranclp.rtrancl_into_rtrancl)
    next
      case False
      obtain o4 c4 where hd: "h q c3 = (o4, c4)" by fastforce
      with ser Some False have o2: "o2 = o4" "c2 = c4\<lparr>serial_sem := give_back sp (serial_sem c4)\<rparr>"
        by (simp_all add: SerializingInterceptor_def serial_of_def bind_def defer_do_def c3_def)
      have "serve_step lp sp (move i Queued (wait c1)) (move i Running c3)"
        unfolding c3_def using run [of "move i Queued (wait c1)" i sp r lp] free by simp
      with queued handles [OF hd] have "(serve_step lp sp)\<^sup>*\<^sup>* c (move i Running c4)" by simp
      moreover have "serve_step lp sp (move i Running c4) (move i Leaving c2)"
        using finish [of "move i Running c4" i lp sp] o2(2) by simp
      moreover have "serve_step lp sp (move i Leaving c2) (move i (Answered Handled) c')"
        using leave [of "move i Leaving c2" i lp sp] out(2) by simp
      ultimately have "(serve_step lp sp)\<^sup>*\<^sup>* c (move i (Answered Handled) c')"
        by (meson rtranclp.rtrancl_into_rtrancl)
      then show ?thesis using hd o2 out by (intro exI [of _ Handled]) auto
    qed
  qed
qed

section \<open>The invariant\<close>

text \<open>The permits held are those of the requests that took them and did not give them back.\<close>

definition serving_inv :: "('m \<Rightarrow> int) \<Rightarrow> int \<Rightarrow> ('n \<Rightarrow> int) \<Rightarrow> int \<Rightarrow> ('m, 'n) serving \<Rightarrow> bool" where
  "serving_inv lheld lw sheld sw c \<longleftrightarrow>
     finite (in_flight c) \<and> lheld (limit_sem c) = int (card (in_flight c)) \<and>
     sheld (serial_sem c) = int (card (running c)) \<and>
     lheld (limit_sem c) \<le> lw \<and> sheld (serial_sem c) \<le> sw"

lemma running_subset: "running c \<subseteq> in_flight c"
  by (auto simp: running_def in_flight_def flying_def handled_def)

lemma flying_update:
  "flying (ph(i := p)) = (if p \<in> {Queued, Running, Leaving} then insert i (flying ph) else flying ph - {i})"
  by (auto simp: flying_def)

lemma handled_update:
  "handled (ph(i := p)) = (if p = Running then insert i (handled ph) else handled ph - {i})"
  by (auto simp: handled_def)

lemma mem_flying: "i \<in> flying ph \<longleftrightarrow> ph i \<in> {Queued, Running, Leaving}"
  by (simp add: flying_def)

lemma mem_handled: "i \<in> handled ph \<longleftrightarrow> ph i = Running"
  by (simp add: handled_def)

lemma card_remove: "finite A \<Longrightarrow> i \<in> A \<Longrightarrow> int (card (A - {i})) = int (card A) - 1"
  by (metis card_Suc_Diff1 add_diff_cancel_left' of_nat_Suc)

lemmas serving_simps = serving_inv_def in_flight_def running_def flying_update handled_update
  mem_flying mem_handled card_remove insert_absorb

lemma serving_inv_step:
  assumes "serve_step lp sp c c'" and "serving_inv lheld lw sheld sw c"
    and "pool_law lp lheld lw" and "pool_law sp sheld sw"
  shows "serving_inv lheld lw sheld sw c'"
proof -
  have fin: "finite (running c)" "finite (in_flight c)"
    using assms(2) running_subset [of c] finite_subset unfolding serving_inv_def by blast+
  have lt: "lheld l' = lheld l + 1 \<and> lheld l' \<le> lw" if "try_take lp l = Some l'" for l l'
    using assms(3) that unfolding pool_law_def by blast
  have lg: "lheld (give_back lp l) = lheld l - 1" for l
    using assms(3) unfolding pool_law_def by blast
  have st: "sheld r' = sheld r + 1 \<and> sheld r' \<le> sw" if "try_take sp r = Some r'" for r r'
    using assms(4) that unfolding pool_law_def by blast
  have sg: "sheld (give_back sp r) = sheld r - 1" for r
    using assms(4) unfolding pool_law_def by blast
  from assms(1) show ?thesis
  proof (cases rule: serve_step.cases)
    case (admit i l)
    then show ?thesis
      using assms(2) fin [unfolded in_flight_def running_def] lt [OF admit(3)] by (simp add: serving_simps del: card_Diff_insert)
  next
    case (refuse i)
    then show ?thesis
      using assms(2) fin [unfolded in_flight_def running_def]  by (simp add: serving_simps del: card_Diff_insert)
  next
    case (run i r)
    then show ?thesis
      using assms(2) fin [unfolded in_flight_def running_def] st [OF run(3)] by (simp add: serving_simps del: card_Diff_insert)
  next
    case (cancel_late i r)
    then show ?thesis
      using assms(2) fin [unfolded in_flight_def running_def] st [OF cancel_late(3)] lg sg by (simp add: serving_simps del: card_Diff_insert)
  next
    case (cancel i)
    then show ?thesis
      using assms(2) fin [unfolded in_flight_def running_def] lg by (simp add: serving_simps del: card_Diff_insert)
  next
    case (finish i)
    then show ?thesis
      using assms(2) fin [unfolded in_flight_def running_def] sg by (simp add: serving_simps del: card_Diff_insert)
  next
    case (leave i)
    then show ?thesis
      using assms(2) fin [unfolded in_flight_def running_def] lg by (simp add: serving_simps del: card_Diff_insert)
  qed
qed

lemma serving_inv_reachable:
  assumes "reachable lp sp l r c" and "pool_law lp lheld lw" and "pool_law sp sheld sw"
    and "lheld l = 0" and "sheld r = 0" and "0 \<le> lw" and "0 \<le> sw"
  shows "serving_inv lheld lw sheld sw c"
  using assms(1) unfolding reachable_def
proof (induction rule: rtranclp_induct)
  case base
  show ?case using assms by (simp add: serving_inv_def fresh_def in_flight_def running_def flying_def handled_def)
next
  case (step c c')
  then show ?case using serving_inv_step assms(2,3) by blast
qed

text \<open>C15: requests are served one at a time: with a serialising semaphore of weight one, no two
  requests are ever being handled at once, however arrivals, cancellations and completions
  interleave.\<close>

theorem one_request_at_a_time:
  assumes "reachable lp sp l r c" and "pool_law lp lheld lw" and "pool_law sp sheld 1"
    and "lheld l = 0" and "sheld r = 0" and "0 \<le> lw"
    and "phases c i = Running" and "phases c j = Running"
  shows "i = j"
proof -
  have inv: "serving_inv lheld lw sheld 1 c"
    using serving_inv_reachable assms(1-6) by fastforce
  then have "finite (running c)" "card (running c) \<le> 1"
    using running_subset [of c] finite_subset by (auto simp: serving_inv_def)
  then show ?thesis
    using assms(7,8) card_le_Suc0_iff_eq [of "running c"] by (auto simp: running_def handled_def)
qed

definition counter :: "int \<Rightarrow> int pool" where
  "counter w = \<lparr>try_take = (\<lambda>n. if n < w then Some (n + 1) else None), give_back = (\<lambda>n. n - 1)\<rparr>"

lemma counter_law: "pool_law (counter w) (\<lambda>n. n) w"
  by (auto simp: pool_law_def counter_def split: if_splits)

definition busy :: "(int, int) serving" where
  "busy = \<lparr>limit_sem = 1, serial_sem = 1, phases = (\<lambda>_. Idle)(7 := Running)\<rparr>"

lemma busy_steps: "\<exists>c1. serve_step (counter 2) (counter 1) (fresh 0 0) c1 \<and> serve_step (counter 2) (counter 1) c1 busy"
proof -
  define c1 where "c1 = move 7 Queued ((fresh 0 0)\<lparr>limit_sem := 1 :: int\<rparr> :: (int, int) serving)"
  have "serve_step (counter 2) (counter 1) (fresh 0 0) c1"
    unfolding c1_def by (rule admit) (simp_all add: fresh_def counter_def)
  moreover have "serve_step (counter 2) (counter 1) c1 (move 7 Running (c1\<lparr>serial_sem := 1\<rparr>))"
    by (rule run) (simp_all add: c1_def fresh_def counter_def)
  moreover have "move 7 Running (c1\<lparr>serial_sem := 1\<rparr>) = busy"
    by (simp add: c1_def fresh_def busy_def fun_eq_iff)
  ultimately show ?thesis by metis
qed

lemma busy_reachable: "reachable (counter 2) (counter 1) 0 0 busy"
  using busy_steps unfolding reachable_def by (metis rtranclp.simps)

theorem one_request_at_a_time_witness: "running busy = {7}"
proof -
  have 7: "phases busy 7 = Running" by (simp add: busy_def)
  have "7 = j" if "phases busy j = Running" for j
    using one_request_at_a_time [OF busy_reachable counter_law counter_law _ _ _ 7 that] by simp
  with 7 show ?thesis unfolding running_def handled_def by blast
qed

text \<open>C29: at most as many requests as the limit are pending at any time, including those that are
  waiting and the one that is being handled.\<close>

theorem pending_requests_bounded:
  assumes "reachable lp sp l r c" and "pool_law lp lheld lw" and "pool_law sp sheld 1"
    and "lheld l = 0" and "sheld r = 0" and "0 \<le> lw"
  shows "finite (in_flight c) \<and> int (card (in_flight c)) \<le> lw"
  using serving_inv_reachable [OF assms(1-5) assms(6)] by (auto simp: serving_inv_def)

theorem pending_requests_bounded_witness:
  "int (card (in_flight busy)) \<le> 2"
  using pending_requests_bounded [OF busy_reachable counter_law counter_law] by simp

section \<open>Requests only move forward\<close>

text \<open>The order in which a request goes through its phases.\<close>

fun phase_rank :: "phase \<Rightarrow> nat" where
  "phase_rank Idle = 0"
| "phase_rank Queued = 1"
| "phase_rank Running = 2"
| "phase_rank Leaving = 3"
| "phase_rank (Answered Refused) = 4"
| "phase_rank (Answered Cancelled) = 5"
| "phase_rank (Answered Handled) = 6"

lemma phase_rank_inj: "phase_rank p = phase_rank p' \<Longrightarrow> p = p'"
  by (cases p rule: phase_rank.cases; cases p' rule: phase_rank.cases) simp_all

instantiation phase :: linorder
begin

definition less_eq_phase :: "phase \<Rightarrow> phase \<Rightarrow> bool" where
  "p \<le> p' \<longleftrightarrow> phase_rank p \<le> phase_rank p'"

definition less_phase :: "phase \<Rightarrow> phase \<Rightarrow> bool" where
  "p < p' \<longleftrightarrow> phase_rank p < phase_rank p'"

instance
  by standard (auto simp: less_eq_phase_def less_phase_def dest: phase_rank_inj)

end

lemma step_forward: "serve_step lp sp c c' \<Longrightarrow> phases c i \<le> phases c' i"
  by (erule serve_stepE) (auto simp: less_eq_phase_def)

lemma run_forward: "(serve_step lp sp)\<^sup>*\<^sup>* c c' \<Longrightarrow> phases c i \<le> phases c' i"
  by (induction rule: rtranclp_induct) (auto dest: step_forward [where i = i])

section \<open>No request is stuck\<close>

text \<open>The other documented law of a semaphore: while it has permits left, one can be taken.\<close>

definition pool_live :: "'m pool \<Rightarrow> ('m \<Rightarrow> int) \<Rightarrow> int \<Rightarrow> bool" where
  "pool_live p held weight \<longleftrightarrow> (\<forall>m. held m < weight \<longrightarrow> try_take p m \<noteq> None)"

text \<open>A run in which no request is cancelled.\<close>

definition kind_step :: "'m pool \<Rightarrow> 'n pool \<Rightarrow> ('m, 'n) serving \<Rightarrow> ('m, 'n) serving \<Rightarrow> bool" where
  "kind_step lp sp c c' \<longleftrightarrow> serve_step lp sp c c' \<and>
     (\<forall>j. phases c' j = Answered Cancelled \<longrightarrow> phases c j = Answered Cancelled)"

text \<open>Once the handler is free, a waiting request can go through it.\<close>

lemma queued_runs:
  assumes "phases c i = Queued" and "try_take sp (serial_sem c) = Some r"
  shows "\<exists>c'. (kind_step lp sp)\<^sup>*\<^sup>* c c' \<and> phases c' i = Answered Handled"
proof -
  define c1 where "c1 = move i Running (c\<lparr>serial_sem := r\<rparr>)"
  define c2 where "c2 = move i Leaving (c1\<lparr>serial_sem := give_back sp (serial_sem c1)\<rparr>)"
  define c3 where "c3 = move i (Answered Handled) (c2\<lparr>limit_sem := give_back lp (limit_sem c2)\<rparr>)"
  have "serve_step lp sp c c1" unfolding c1_def by (rule serve_step.run [OF assms])
  then have 1: "kind_step lp sp c c1" by (simp add: kind_step_def c1_def)
  have "serve_step lp sp c1 c2" unfolding c2_def by (rule serve_step.finish) (simp add: c1_def)
  then have 2: "kind_step lp sp c1 c2" by (simp add: kind_step_def c2_def)
  have "serve_step lp sp c2 c3" unfolding c3_def by (rule serve_step.leave) (simp add: c2_def)
  then have 3: "kind_step lp sp c2 c3" by (simp add: kind_step_def c3_def)
  have "(kind_step lp sp)\<^sup>*\<^sup>* c c3"
    using 1 2 3 by (meson converse_rtranclp_into_rtranclp rtranclp.rtrancl_refl)
  moreover have "phases c3 i = Answered Handled" by (simp add: c3_def)
  ultimately show ?thesis by blast
qed

text \<open>C22: no request is stuck: from every reachable state in which a request waits, the requests can
  go on so that it is handled, without any request being cancelled for it.\<close>

theorem waiting_request_can_be_handled:
  assumes "reachable lp sp l r c" and "pool_law lp lheld lw" and "pool_law sp sheld 1" and "pool_live sp sheld 1"
    and "lheld l = 0" and "sheld r = 0" and "0 \<le> lw" and "phases c i = Queued"
  shows "\<exists>c'. (kind_step lp sp)\<^sup>*\<^sup>* c c' \<and> phases c' i = Answered Handled"
proof -
  have inv: "serving_inv lheld lw sheld 1 c"
    using serving_inv_reachable [OF assms(1-3,5-7)] by simp
  then have held: "sheld (serial_sem c) = int (card (running c))" "finite (running c)" "card (running c) \<le> 1"
    using running_subset [of c] finite_subset by (auto simp: serving_inv_def)
  have live: "\<exists>r'. try_take sp m = Some r'" if "sheld m < 1" for m
    using assms(4) that by (auto simp: pool_live_def)
  show ?thesis
  proof (cases "running c = {}")
    case True
    with held live [of "serial_sem c"] assms(8) queued_runs [of c i sp] show ?thesis by auto
  next
    case False
    then obtain j where j: "phases c j = Running" by (auto simp: running_def handled_def)
    with False held have one: "card (running c) = 1" using card_gt_0_iff [of "running c"] by linarith
    define c1 where "c1 = move j Leaving (c\<lparr>serial_sem := give_back sp (serial_sem c)\<rparr>)"
    have "serve_step lp sp c c1" unfolding c1_def by (rule serve_step.finish [OF j])
    then have k: "kind_step lp sp c c1" by (simp add: kind_step_def c1_def)
    have "sheld (serial_sem c1) < 1"
      using assms(3) held(1) one by (simp add: c1_def pool_law_def)
    moreover have "phases c1 i = Queued" using assms(8) j by (auto simp: c1_def)
    ultimately obtain c' where "(kind_step lp sp)\<^sup>*\<^sup>* c1 c'" "phases c' i = Answered Handled"
      using live queued_runs by metis
    with k show ?thesis by (meson converse_rtranclp_into_rtranclp)
  qed
qed

definition waiting :: "(int, int) serving" where
  "waiting = move 8 Queued (busy\<lparr>limit_sem := 2\<rparr>)"

theorem waiting_request_can_be_handled_witness:
  "\<exists>c'. (kind_step (counter 2) (counter 1))\<^sup>*\<^sup>* waiting c' \<and> phases c' 8 = Answered Handled"
proof (rule waiting_request_can_be_handled [OF _ counter_law counter_law])
  have "serve_step (counter 2) (counter 1) busy waiting"
    unfolding waiting_def by (rule admit) (simp_all add: busy_def counter_def)
  with busy_reachable show "reachable (counter 2) (counter 1) 0 0 waiting"
    unfolding reachable_def by (rule rtranclp.rtrancl_into_rtrancl)
  show "pool_live (counter 1) (\<lambda>n. n) 1" by (simp add: pool_live_def counter_def)
qed (simp_all add: waiting_def)

section \<open>Serving comes to an end\<close>

text \<open>A step of the requests in flight: no request arrives. Cancellations are among these steps.\<close>

definition settle_step :: "'m pool \<Rightarrow> 'n pool \<Rightarrow> ('m, 'n) serving \<Rightarrow> ('m, 'n) serving \<Rightarrow> bool" where
  "settle_step lp sp c c' \<longleftrightarrow> serve_step lp sp c c' \<and> (\<forall>j. phases c j = Idle \<longrightarrow> phases c' j = Idle)"

text \<open>Nothing is left to do when the only steps possible are arrivals and cancellations.\<close>

definition settled :: "'m pool \<Rightarrow> 'n pool \<Rightarrow> ('m, 'n) serving \<Rightarrow> bool" where
  "settled lp sp c \<longleftrightarrow> \<not> (\<exists>c'. settle_step lp sp c c' \<and> kind_step lp sp c c')"

text \<open>The steps a request in flight can still make, and what can become of it.\<close>

fun steps_left :: "phase \<Rightarrow> nat" where
  "steps_left Queued = 3"
| "steps_left Running = 2"
| "steps_left Leaving = 1"
| "steps_left _ = 0"

fun prospects :: "phase \<Rightarrow> phase set" where
  "prospects Queued = {Queued, Running, Leaving, Answered Handled, Answered Cancelled}"
| "prospects Running = {Running, Leaving, Answered Handled}"
| "prospects Leaving = {Leaving, Answered Handled}"
| "prospects p = {p}"

lemma prospects_refl: "p \<in> prospects p"
  by (cases p rule: prospects.cases) simp_all

lemma prospects_trans: "p2 \<in> prospects p1 \<Longrightarrow> p3 \<in> prospects p2 \<Longrightarrow> p3 \<in> prospects p1"
  by (cases p1 rule: prospects.cases) auto

lemma steps_left_prospects: "p' \<in> prospects p \<Longrightarrow> steps_left p' \<le> steps_left p"
  by (cases p rule: prospects.cases) auto

lemma steps_left_le: "steps_left p \<le> 3"
  by (cases p rule: steps_left.cases) simp_all

lemma settle_step_cases:
  assumes "settle_step lp sp c c'"
  obtains i where "i \<in> in_flight c" and "steps_left (phases c' i) < steps_left (phases c i)"
    and "phases c' i \<in> prospects (phases c i)" and "\<And>j. j \<noteq> i \<Longrightarrow> phases c' j = phases c j"
proof -
  from assms have st: "serve_step lp sp c c'" and idle: "\<And>j. phases c j = Idle \<Longrightarrow> phases c' j = Idle"
    unfolding settle_step_def by blast+
  from st show ?thesis
  proof (cases rule: serve_step.cases)
    case (admit i l)
    with idle [of i] show ?thesis by simp
  next
    case (refuse i)
    with idle [of i] show ?thesis by simp
  next
    case (run i r)
    then show ?thesis by (intro that [of i]) (simp_all add: in_flight_def flying_def)
  next
    case (cancel_late i r)
    then show ?thesis by (intro that [of i]) (simp_all add: in_flight_def flying_def)
  next
    case (cancel i)
    then show ?thesis by (intro that [of i]) (simp_all add: in_flight_def flying_def)
  next
    case (finish i)
    then show ?thesis by (intro that [of i]) (simp_all add: in_flight_def flying_def)
  next
    case (leave i)
    then show ?thesis by (intro that [of i]) (simp_all add: in_flight_def flying_def)
  qed
qed

lemma settle_prospects: "(settle_step lp sp ^^ k) c c' \<Longrightarrow> phases c' j \<in> prospects (phases c j)"
proof (induction k arbitrary: c')
  case 0
  then show ?case by (simp add: prospects_refl)
next
  case (Suc k)
  then obtain c1 where "(settle_step lp sp ^^ k) c c1" and st: "settle_step lp sp c1 c'" by auto
  then have "phases c1 j \<in> prospects (phases c j)" using Suc.IH by blast
  moreover have "phases c' j \<in> prospects (phases c1 j)"
    using settle_step_cases [OF st] prospects_refl by metis
  ultimately show ?case by (rule prospects_trans)
qed

lemma settle_in_flight: "(settle_step lp sp ^^ k) c c' \<Longrightarrow> in_flight c' \<subseteq> in_flight c"
proof
  fix j assume "(settle_step lp sp ^^ k) c c'" and "j \<in> in_flight c'"
  with settle_prospects [OF this(1), of j] show "j \<in> in_flight c"
    by (cases "phases c j" rule: prospects.cases) (auto simp: in_flight_def flying_def)
qed

lemma settle_measure:
  assumes "(settle_step lp sp ^^ k) c c'" and "finite (in_flight c)"
  shows "k + (\<Sum>i\<in>in_flight c. steps_left (phases c' i)) \<le> (\<Sum>i\<in>in_flight c. steps_left (phases c i))"
  using assms(1)
proof (induction k arbitrary: c')
  case 0
  then show ?case by simp
next
  case (Suc k)
  then obtain c1 where c1: "(settle_step lp sp ^^ k) c c1" and st: "settle_step lp sp c1 c'" by auto
  obtain i where i: "i \<in> in_flight c1" "steps_left (phases c' i) < steps_left (phases c1 i)"
      "phases c' i \<in> prospects (phases c1 i)" "\<And>j. j \<noteq> i \<Longrightarrow> phases c' j = phases c1 j"
    using settle_step_cases [OF st] by metis
  have "steps_left (phases c' j) \<le> steps_left (phases c1 j)" for j
    using i(2) i(4) [of j] by (cases "j = i") simp_all
  moreover have "i \<in> in_flight c" using settle_in_flight [OF c1] i(1) by blast
  ultimately have "(\<Sum>j\<in>in_flight c. steps_left (phases c' j)) < (\<Sum>j\<in>in_flight c. steps_left (phases c1 j))"
    using assms(2) i(2) by (intro sum_strict_mono_ex1) auto
  with Suc.IH [OF c1] show ?case by simp
qed

lemma settle_reachable:
  assumes "reachable lp sp l r c" and "(settle_step lp sp ^^ k) c c'"
  shows "reachable lp sp l r c'"
  using assms(2)
proof (induction k arbitrary: c')
  case 0
  with assms(1) show ?case by simp
next
  case (Suc k)
  then obtain c1 where "reachable lp sp l r c1" and "settle_step lp sp c1 c'" by auto
  then show ?case unfolding reachable_def settle_step_def by (meson rtranclp.rtrancl_into_rtrancl)
qed

text \<open>When nothing is left to do no request is in flight: one that is running or leaving can go on
  by itself, and one that waits when none is running.\<close>

lemma settled_idle:
  assumes "settled lp sp c" and "serving_inv lheld lw sheld 1 c" and "pool_live sp sheld 1"
  shows "in_flight c = {}"
proof -
  have none: "\<not> serve_step lp sp c (move i p x)" if "phases c i \<noteq> Idle" "p \<noteq> Idle" "p \<noteq> Answered Cancelled"
      "phases x = phases c" for i p x
  proof
    assume "serve_step lp sp c (move i p x)"
    with that have "settle_step lp sp c (move i p x)" and "kind_step lp sp c (move i p x)"
      by (auto simp: settle_step_def kind_step_def)
    with assms(1) show False unfolding settled_def by blast
  qed
  have l: "phases c i \<noteq> Leaving" for i
    using none [of i "Answered Handled"] serve_step.leave [of c i lp sp] by fastforce
  have r: "phases c i \<noteq> Running" for i
    using none [of i Leaving] serve_step.finish [of c i lp sp] by fastforce
  then have "sheld (serial_sem c) = 0"
    using assms(2) by (simp add: serving_inv_def running_def handled_def)
  then obtain m where m: "try_take sp (serial_sem c) = Some m"
    using assms(3) unfolding pool_live_def by fastforce
  have "phases c i \<noteq> Queued" for i
    using none [of i Running] serve_step.run [OF _ m, of i lp] by fastforce
  with l r show ?thesis by (auto simp: in_flight_def flying_def)
qed

text \<open>C23: serving comes to an end: while no request arrives, and given that every handler returns,
  the requests in flight make at most three steps each, however they interleave and are cancelled.
  When nothing but an arrival or a cancellation is possible any more, each of them is answered: it
  was handled, or cancelled while it waited for its turn. No request is left in flight, and both
  semaphores have all their permits back.\<close>

theorem serving_terminates:
  assumes "reachable lp sp l r c" and "pool_law lp lheld lw" and "pool_law sp sheld 1" and "pool_live sp sheld 1"
    and "lheld l = 0" and "sheld r = 0" and "0 \<le> lw" and "(settle_step lp sp ^^ k) c c'"
  shows "k \<le> 3 * card (in_flight c) \<and>
    (settled lp sp c' \<longrightarrow> in_flight c' = {} \<and> lheld (limit_sem c') = 0 \<and> sheld (serial_sem c') = 0 \<and>
       (\<forall>i\<in>in_flight c. phases c' i = Answered Handled \<or>
          phases c i = Queued \<and> phases c' i = Answered Cancelled))"
proof (intro conjI impI)
  have inv: "serving_inv lheld lw sheld 1 x" if "reachable lp sp l r x" for x
    using serving_inv_reachable [OF that assms(2,3,5-7)] by simp
  note inv' = inv [OF settle_reachable [OF assms(1,8)]]
  have fin: "finite (in_flight c)" using inv [OF assms(1)] by (simp add: serving_inv_def)
  have "(\<Sum>i\<in>in_flight c. steps_left (phases c i)) \<le> (\<Sum>i\<in>in_flight c. 3)"
    by (rule sum_mono) (rule steps_left_le)
  with settle_measure [OF assms(8) fin] show "k \<le> 3 * card (in_flight c)" by simp
  assume "settled lp sp c'"
  from settled_idle [OF this inv' assms(4)] show idle: "in_flight c' = {}" .
  then have "running c' = {}" using running_subset [of c'] by simp
  with idle inv' show "lheld (limit_sem c') = 0" and "sheld (serial_sem c') = 0"
    by (simp_all add: serving_inv_def)
  show "\<forall>i\<in>in_flight c. phases c' i = Answered Handled \<or> phases c i = Queued \<and> phases c' i = Answered Cancelled"
  proof
    fix i assume "i \<in> in_flight c"
    moreover have "phases c' i \<notin> {Queued, Running, Leaving}" using idle by (auto simp: in_flight_def flying_def)
    ultimately show "phases c' i = Answered Handled \<or> phases c i = Queued \<and> phases c' i = Answered Cancelled"
      using settle_prospects [OF assms(8), of i] by (auto simp: in_flight_def flying_def)
  qed
qed

definition busy_done :: "(int, int) serving" where
  "busy_done = \<lparr>limit_sem = 0, serial_sem = 0, phases = (\<lambda>_. Idle)(7 := Answered Handled)\<rparr>"

theorem serving_terminates_witness:
  "in_flight busy = {7} \<and> in_flight busy_done = {} \<and> limit_sem busy_done = 0 \<and> serial_sem busy_done = 0"
proof -
  define c1 where "c1 = move 7 Leaving (busy\<lparr>serial_sem := give_back (counter 1) (serial_sem busy)\<rparr>)"
  have "serve_step (counter 2) (counter 1) busy c1"
    unfolding c1_def by (rule finish) (simp add: busy_def)
  then have 1: "settle_step (counter 2) (counter 1) busy c1"
    by (simp add: settle_step_def c1_def busy_def)
  have "serve_step (counter 2) (counter 1) c1 (move 7 (Answered Handled) (c1\<lparr>limit_sem := give_back (counter 2) (limit_sem c1)\<rparr>))"
    by (rule leave) (simp add: c1_def)
  moreover have "move 7 (Answered Handled) (c1\<lparr>limit_sem := give_back (counter 2) (limit_sem c1)\<rparr>) = busy_done"
    by (simp add: c1_def busy_def busy_done_def counter_def fun_eq_iff)
  ultimately have 2: "settle_step (counter 2) (counter 1) c1 busy_done"
    by (simp add: settle_step_def c1_def busy_def busy_done_def)
  have two: "(settle_step (counter 2) (counter 1) ^^ 2) busy busy_done"
    using 1 2 by (auto simp: numeral_2_eq_2)
  have stop: "settled (counter 2) (counter 1) busy_done"
    unfolding settled_def
  proof (intro notI, elim exE conjE)
    fix c' assume "settle_step (counter 2) (counter 1) busy_done c'"
    then show False
      by (rule settle_step_cases) (auto simp: in_flight_def flying_def busy_done_def split: if_splits)
  qed
  have "settled (counter 2) (counter 1) busy_done \<longrightarrow>
      in_flight busy_done = {} \<and> limit_sem busy_done = 0 \<and> serial_sem busy_done = 0 \<and>
      (\<forall>i\<in>in_flight busy. phases busy_done i = Answered Handled \<or>
          phases busy i = Queued \<and> phases busy_done i = Answered Cancelled)"
    using serving_terminates [OF busy_reachable counter_law counter_law _ _ _ _ two] by (simp add: pool_live_def counter_def)
  with stop show ?thesis by (auto simp: in_flight_def flying_def busy_def)
qed

end
