(* ===== verification/Sequential.thy ===== *)
theory Sequential
  imports Serving
begin

text \<open>
  What the serialisation of requests is for. A handler is a sequence of actions on the shared
  state, the calls of tools and agents among them; between two actions of one request the
  scheduler may let any other request make a step. The lemmas say that handlers nevertheless
  never mix: in every reachable state the shared state is the one left by the finished
  handlers, run whole and one after the other in the order in which they finished, and by a
  beginning of the one that is running.
\<close>

section \<open>Steps\<close>

text \<open>The state of the semaphores, the shared state, the number of actions each request has made,
  and the requests whose handler has finished, in order.\<close>

record ('m, 'n, 's) machine =
  sched :: "('m, 'n) serving"
  world :: 's
  progress :: "nat \<Rightarrow> nat"
  finished :: "nat list"

text \<open>A step of the scheduler that finishes no handler, one action of a running handler, and the
  end of a handler that has made all its actions.\<close>

inductive work_step ::
  "'m pool \<Rightarrow> 'n pool \<Rightarrow> (nat \<Rightarrow> ('s \<Rightarrow> 's) list) \<Rightarrow> ('m, 'n, 's) machine \<Rightarrow> ('m, 'n, 's) machine \<Rightarrow> bool"
  for lp sp acts where
  schedule: "serve_step lp sp (sched m) c \<Longrightarrow> running (sched m) \<subseteq> running c \<Longrightarrow>
     work_step lp sp acts m (m\<lparr>sched := c\<rparr>)"
| act: "phases (sched m) i = Running \<Longrightarrow> progress m i < length (acts i) \<Longrightarrow>
     work_step lp sp acts m
       (m\<lparr>world := (acts i ! progress m i) (world m), progress := (progress m)(i := Suc (progress m i))\<rparr>)"
| complete: "serve_step lp sp (sched m) c \<Longrightarrow> phases (sched m) i = Running \<Longrightarrow> phases c i = Leaving \<Longrightarrow>
     progress m i = length (acts i) \<Longrightarrow>
     work_step lp sp acts m (m\<lparr>sched := c, finished := finished m @ [i]\<rparr>)"

definition initial :: "'m \<Rightarrow> 'n \<Rightarrow> 's \<Rightarrow> ('m, 'n, 's) machine" where
  "initial l r w = \<lparr>sched = fresh l r, world = w, progress = (\<lambda>_. 0), finished = []\<rparr>"

text \<open>A list of actions, one after the other; the whole handler of each of some requests.\<close>

definition perform :: "('s \<Rightarrow> 's) list \<Rightarrow> 's \<Rightarrow> 's" where
  "perform fs = fold (\<lambda>f. f) fs"

definition in_sequence :: "(nat \<Rightarrow> ('s \<Rightarrow> 's) list) \<Rightarrow> nat list \<Rightarrow> 's \<Rightarrow> 's" where
  "in_sequence acts ids = fold (\<lambda>i. perform (acts i)) ids"

lemma perform_snoc: "n < length fs \<Longrightarrow> perform (take (Suc n) fs) w = (fs ! n) (perform (take n fs) w)"
  by (simp add: perform_def take_Suc_conv_app_nth)

section \<open>Handlers do not mix\<close>

lemma step_running:
  assumes "serve_step lp sp c c'"
  shows "running c' = running c \<or> (\<exists>i. phases c i = Queued \<and> running c' = insert i (running c)) \<or>
    (\<exists>i. phases c i = Running \<and> phases c' i = Leaving \<and> running c' = running c - {i})"
  using assms by cases (auto simp: running_def handled_def)

text \<open>The invariant: requests that have not run have made no action, and the shared state is that
  of the finished handlers and a beginning of the running one.\<close>

definition whole :: "(nat \<Rightarrow> ('s \<Rightarrow> 's) list) \<Rightarrow> 's \<Rightarrow> ('m, 'n, 's) machine \<Rightarrow> bool" where
  "whole acts w m \<longleftrightarrow>
     (\<forall>i. phases (sched m) i = Idle \<or> phases (sched m) i = Queued \<longrightarrow> progress m i = 0) \<and>
     (\<forall>i\<in>running (sched m). progress m i \<le> length (acts i) \<and>
        world m = perform (take (progress m i) (acts i)) (in_sequence acts (finished m) w)) \<and>
     (running (sched m) = {} \<longrightarrow> world m = in_sequence acts (finished m) w)"

definition one_at_a_time :: "('m, 'n) serving \<Rightarrow> bool" where
  "one_at_a_time c \<longleftrightarrow> (\<forall>i\<in>running c. running c = {i})"

lemma early_phases:
  assumes "serve_step lp sp c c'" and "phases c' i = Idle \<or> phases c' i = Queued"
  shows "phases c i = Idle \<or> phases c i = Queued"
  using step_forward [OF assms(1), of i] assms(2)
  by (cases "phases c i" rule: phase_rank.cases) (auto simp: less_eq_phase_def)

lemma whole_step:
  assumes st: "work_step lp sp acts m m'" and inv: "whole acts w m"
    and one: "one_at_a_time (sched m)" "one_at_a_time (sched m')"
  shows "whole acts w m'"
  using st
proof cases
  case (schedule c)
  from step_running [OF schedule(2)] schedule(3)
  consider "running c = running (sched m)" | i where "phases (sched m) i = Queued" "running c = insert i (running (sched m))"
    by (auto simp: running_def handled_def)
  then show ?thesis
  proof cases
    case 1
    then show ?thesis using inv schedule early_phases [OF schedule(2)] by (auto simp: whole_def)
  next
    case (2 i)
    then have "i \<notin> running (sched m)" by (simp add: running_def handled_def)
    moreover have "running c = {i}" using one(2) 2(2) schedule(1) by (auto simp: one_at_a_time_def)
    ultimately have "running (sched m) = {}" using 2(2) by auto
    then show ?thesis
      using inv schedule early_phases [OF schedule(2)] 2(1) \<open>running c = {i}\<close>
      by (auto simp: whole_def perform_def)
  qed
next
  case (act i)
  then have i: "running (sched m) = {i}"
    using one(1) by (auto simp: one_at_a_time_def running_def handled_def)
  then show ?thesis
    using inv act perform_snoc [of "progress m i" "acts i"] by (auto simp: whole_def)
next
  case (complete c i)
  then have i: "running (sched m) = {i}"
    using one(1) by (auto simp: one_at_a_time_def running_def handled_def)
  have "i \<notin> running c" using complete by (simp add: running_def handled_def)
  with step_running [OF complete(2)] i have r: "running c = {}"
    by (auto simp: one_at_a_time_def)
  have "world m = in_sequence acts (finished m @ [i]) w"
    using inv i complete by (auto simp: whole_def in_sequence_def)
  then show ?thesis
    using inv complete r early_phases [OF complete(2)] by (auto simp: whole_def)
qed

lemma work_serve:
  assumes "work_step lp sp acts m m'"
  shows "sched m' = sched m \<or> serve_step lp sp (sched m) (sched m')"
  using assms by cases auto

lemma work_reachable:
  assumes "(work_step lp sp acts)\<^sup>*\<^sup>* (initial l r w) m"
  shows "reachable lp sp l r (sched m)"
  using assms
proof (induction rule: rtranclp_induct)
  case base
  show ?case by (simp add: initial_def reachable_def)
next
  case (step m m')
  then show ?case using work_serve [OF step(2)] unfolding reachable_def by auto
qed

lemma reachable_one:
  assumes "reachable lp sp l r c" and "pool_law lp lheld lw" and "pool_law sp sheld 1"
    and "lheld l = 0" and "sheld r = 0" and "0 \<le> lw"
  shows "one_at_a_time c"
proof -
  have "serving_inv lheld lw sheld 1 c"
    using serving_inv_reachable [OF assms(1-6)] by simp
  then have "finite (running c)" "card (running c) \<le> 1"
    using running_subset [of c] finite_subset by (auto simp: serving_inv_def)
  then show ?thesis
    using card_le_Suc0_iff_eq [of "running c"] by (auto simp: one_at_a_time_def)
qed

lemma whole_reachable:
  assumes "(work_step lp sp acts)\<^sup>*\<^sup>* (initial l r w) m" and "pool_law lp lheld lw" and "pool_law sp sheld 1"
    and "lheld l = 0" and "sheld r = 0" and "0 \<le> lw"
  shows "whole acts w m"
  using assms(1)
proof (induction rule: rtranclp_induct)
  case base
  show ?case by (auto simp: whole_def initial_def fresh_def in_sequence_def running_def handled_def)
next
  case (step m m')
  note one = reachable_one [OF work_reachable assms(2-6)]
  show ?case
    by (rule whole_step [OF step(2,3) one [OF step(1)] one [OF rtranclp.rtrancl_into_rtrancl [OF step(1,2)]]])
qed

lemma handlers_sequence:
  assumes "(work_step lp sp acts)\<^sup>*\<^sup>* (initial l r w) m" and "pool_law lp lheld lw" and "pool_law sp sheld 1"
    and "lheld l = 0" and "sheld r = 0" and "0 \<le> lw"
  shows "world m = (if running (sched m) = {} then in_sequence acts (finished m) w
    else perform (take (progress m (the_elem (running (sched m)))) (acts (the_elem (running (sched m)))))
      (in_sequence acts (finished m) w))"
proof (cases "running (sched m) = {}")
  case True
  then show ?thesis using whole_reachable [OF assms] by (simp add: whole_def)
next
  case False
  then obtain i where i: "running (sched m) = {i}"
    using reachable_one [OF work_reachable [OF assms(1)] assms(2-6)] by (auto simp: one_at_a_time_def)
  then show ?thesis using whole_reachable [OF assms] by (simp add: whole_def)
qed

text \<open>C16: concurrent requests are handled as if one after the other: however arrivals, cancellations
  and the actions of the handlers interleave, whenever no handler is running the shared state
  is the one that the finished handlers leave when they run whole in the order in which they
  finished; while one is running, its actions so far are added at the end.\<close>

theorem handlers_run_in_sequence:
  assumes "(work_step lp sp acts)\<^sup>*\<^sup>* (initial l r w) m" and "pool_law lp lheld lw" and "pool_law sp sheld 1"
    and "lheld l = 0" and "sheld r = 0" and "0 \<le> lw"
  shows "world m = (if running (sched m) = {} then in_sequence acts (finished m) w
    else perform (take (progress m (the_elem (running (sched m)))) (acts (the_elem (running (sched m)))))
      (in_sequence acts (finished m) w))"
  using handlers_sequence [OF assms] .

section \<open>An example\<close>

definition half_done :: "(int, int, nat) machine" where
  "half_done = \<lparr>sched = busy, world = 5, progress = (\<lambda>_. 0)(7 := 1), finished = []\<rparr>"

definition two_steps :: "nat \<Rightarrow> (nat \<Rightarrow> nat) list" where
  "two_steps i = [\<lambda>w. w + 5, \<lambda>w. w * 2]"

lemma busy_phases: "phases busy j = (if j = 7 then Running else Idle)"
  by (simp add: busy_def)

lemma started_reachable:
  "(work_step (counter 2) (counter 1) acts)\<^sup>*\<^sup>* (initial 0 0 w) (initial 0 0 w \<lparr>sched := busy\<rparr>)"
proof -
  obtain c1 where c1: "serve_step (counter 2) (counter 1) (fresh 0 0) c1" "serve_step (counter 2) (counter 1) c1 busy"
    using busy_steps by blast
  have sub: "running (fresh 0 0) \<subseteq> running c1" by (simp add: fresh_def running_def handled_def)
  have "running c1 \<subseteq> running busy"
    using step_running [OF c1(2)] busy_phases by (auto simp: running_def handled_def split: if_splits)
  then have "work_step (counter 2) (counter 1) acts (initial 0 0 w \<lparr>sched := c1\<rparr>) (initial 0 0 w \<lparr>sched := busy\<rparr>)"
    using schedule [of "counter 2" "counter 1" "initial 0 0 w \<lparr>sched := c1\<rparr>" busy acts] c1(2) by simp
  moreover have "work_step (counter 2) (counter 1) acts (initial 0 0 w) (initial 0 0 w \<lparr>sched := c1\<rparr>)"
    by (rule schedule) (use c1(1) sub in \<open>simp_all add: initial_def\<close>)
  ultimately show ?thesis by (blast intro: converse_rtranclp_into_rtranclp)
qed

lemma half_done_reachable: "(work_step (counter 2) (counter 1) two_steps)\<^sup>*\<^sup>* (initial 0 0 0) half_done"
proof (rule rtranclp.rtrancl_into_rtrancl [OF started_reachable])
  show "work_step (counter 2) (counter 1) two_steps (initial 0 0 0 \<lparr>sched := busy\<rparr>) half_done"
    using act [of "initial 0 0 0 \<lparr>sched := busy\<rparr>" 7 two_steps "counter 2" "counter 1"]
    by (simp add: busy_phases two_steps_def half_done_def initial_def)
qed

theorem handlers_run_in_sequence_witness: "world half_done = perform [\<lambda>w. w + 5] (0 :: nat)"
proof -
  have r: "running busy = {7}" by (auto simp: running_def handled_def busy_def)
  show ?thesis
    using handlers_run_in_sequence [OF half_done_reachable counter_law counter_law] r
    by (simp add: half_done_def two_steps_def in_sequence_def)
qed


text \<open>Request 7, alone, handled to its end.\<close>

definition handled_once :: "('s \<Rightarrow> 's) \<Rightarrow> 's \<Rightarrow> (int, int, 's) machine" where
  "handled_once f w = \<lparr>sched = \<lparr>limit_sem = 1, serial_sem = 0, phases = (\<lambda>_. Idle)(7 := Leaving)\<rparr>, world = f w,
     progress = (\<lambda>_. 0)(7 := 1), finished = [7]\<rparr>"

lemma handled_once_reachable:
  "(work_step (counter 2) (counter 1) (\<lambda>_. [f]))\<^sup>*\<^sup>* (initial 0 0 w) (handled_once f w)"
proof -
  define m where "m = initial 0 0 w \<lparr>sched := busy, world := f w, progress := (\<lambda>_. 0)(7 := 1)\<rparr>"
  have "work_step (counter 2) (counter 1) (\<lambda>_. [f]) (initial 0 0 w \<lparr>sched := busy\<rparr>) m"
    using act [of "initial 0 0 w \<lparr>sched := busy\<rparr>" 7 "\<lambda>_. [f]" "counter 2" "counter 1"]
    by (simp add: busy_phases m_def initial_def)
  moreover have "work_step (counter 2) (counter 1) (\<lambda>_. [f]) m (handled_once f w)"
  proof -
    have "serve_step (counter 2) (counter 1) busy (sched (handled_once f w))"
      using finish [of busy 7 "counter 2" "counter 1"]
      by (simp add: busy_phases handled_once_def) (simp add: busy_def counter_def)
    then show ?thesis
      using complete [of "counter 2" "counter 1" m "sched (handled_once f w)" 7 "\<lambda>_. [f]"]
      by (simp add: m_def busy_phases initial_def handled_once_def)
  qed
  ultimately show ?thesis by (blast intro: started_reachable rtranclp.rtrancl_into_rtrancl)
qed

lemma handled_once_idle: "running (sched (handled_once f w)) = {}"
  by (simp add: handled_once_def running_def handled_def)

end
