(* ===== verification/Virsh.thy ===== *)
theory Virsh
  imports GoSystem
begin

text \<open>
  \<open>pkg/virsh/virsh.go\<close>: the client of the StoLake agent and the older HTTP client of the
  hypervisor. A connection is its target URL; opening and closing it are calls of the
  trace, so that every path can be seen to close what it opened. A getter of a response is
  applied to \<open>nil\<close> when the call failed and then gives the zero value, as the generated
  code of \<open>pkg/stolake\<close> does.
\<close>

section \<open>Connections\<close>

definition stolakeConnect :: "'w sys \<Rightarrow> string \<Rightarrow> ('w gs, goerr + string) io" where
  "stolakeConnect sys url =
     bind (extcall (Rpc ''dial'' url []) (sys_dial sys url))
       (\<lambda>err. case err of Some e \<Rightarrow> fail e | None \<Rightarrow> ok url)"

definition connect :: "'w sys \<Rightarrow> ('w gs, goerr + string) io" where
  "connect sys = bind (get_state StolakeURL) (\<lambda>u. stolakeConnect sys (''unix://'' @ u))"

definition disconnect :: "string \<Rightarrow> ('w gs, unit) io" where
  "disconnect url = extcall (Rpc ''close'' url []) (\<lambda>w. ((), w))"

text \<open>The shape of every agent call: connect, give up on an error, close when done.\<close>

definition with_agent :: "'w sys \<Rightarrow> (goerr \<Rightarrow> 'a) \<Rightarrow> (string \<Rightarrow> ('w gs, 'a) io) \<Rightarrow> ('w gs, 'a) io" where
  "with_agent sys on_err body =
     tryE (connect sys) (\<lambda>e. ret (on_err e)) (\<lambda>c. defer_do (disconnect c) (body c))"

definition ProxyMode :: "('w gs, bool) io" where
  "ProxyMode = bind (get_state StolakeURL)
     (\<lambda>u. if u = ''none'' then ret False else if u = '''' then ret False else ret True)"

definition GetProxyURL :: "('w gs, string) io" where
  "GetProxyURL = get_state StolakeURL"

text \<open>\<open>SetStolakeURL\<close>; the argument \<open>parses\<close> says which texts \<open>url.Parse\<close> accepts.\<close>

definition SetStolakeURL :: "(string \<Rightarrow> bool) \<Rightarrow> 'w sys \<Rightarrow> string \<Rightarrow> ('w gs, bool) io" where
  "SetStolakeURL parses sys urlstr =
     (if \<not> parses urlstr then
        bind (put_state (\<lambda>s. s\<lparr>StolakeURL := ''''\<rparr>)) (\<lambda>_. ret False)
      else bind (extcall (Os ''stat'' [urlstr]) (sys_stat sys urlstr))
        (\<lambda>err. case err of Some _ \<Rightarrow> ret False
          | None \<Rightarrow> bind (put_state (\<lambda>s. s\<lparr>StolakeURL := urlstr\<rparr>)) (\<lambda>_. ret True)))"

section \<open>Agent calls\<close>

definition StoLakeInfo :: "'w sys \<Rightarrow> ('w gs, string \<times> goerr option) io" where
  "StoLakeInfo sys =
     with_agent sys (\<lambda>e. ('''', Some e)) (\<lambda>c.
       bind (extcall (Rpc ''RetrieveInfo'' c []) (sys_RetrieveInfo sys c))
         (\<lambda>r. case r of Inl e \<Rightarrow> ret ('' '', Some e)
            | Inr res \<Rightarrow> ret (gi_AgentName res @ '' '' @ gi_Version res, None)))"

definition VgActivate :: "'w sys \<Rightarrow> string \<Rightarrow> ('w gs, goerr option) io" where
  "VgActivate sys vgname =
     with_agent sys Some (\<lambda>c.
       extcall (Rpc ''VgChange'' c [''--lockstart'', vgname]) (sys_VgChange sys c [''--lockstart'', vgname]))"

definition VgDeActivate :: "'w sys \<Rightarrow> string \<Rightarrow> ('w gs, goerr option) io" where
  "VgDeActivate sys vgname =
     with_agent sys Some (\<lambda>c.
       extcall (Rpc ''VgChange'' c [''--lockstop'', vgname]) (sys_VgChange sys c [''--lockstop'', vgname]))"

definition ProxyStoLakeRun :: "'w sys \<Rightarrow> string \<Rightarrow> string list \<Rightarrow> ('w gs, string \<times> goerr option) io" where
  "ProxyStoLakeRun sys cmd args =
     with_agent sys (\<lambda>e. ('''', Some e)) (\<lambda>c.
       bind (extcall (Rpc ''MercuryProxy'' c (cmd # args)) (sys_MercuryProxy sys c cmd args))
         (\<lambda>r. case r of Inl e \<Rightarrow> ret ('''', Some e) | Inr out \<Rightarrow> ret (out, None)))"

definition FstypeProxy :: "'w sys \<Rightarrow> string \<Rightarrow> ('w gs, goerr + string) io" where
  "FstypeProxy sys devicepath =
     with_agent sys Inl (\<lambda>c.
       extcall (Rpc ''FileSystemType'' c [devicepath]) (sys_FileSystemType sys c devicepath))"

definition MountInfo :: "'w sys \<Rightarrow> ('w gs, goerr + string) io" where
  "MountInfo sys =
     with_agent sys Inl (\<lambda>c. extcall (Rpc ''MountInfo'' c []) (sys_MountInfo sys c))"

definition MountVolume ::
  "'w sys \<Rightarrow> string \<Rightarrow> string \<Rightarrow> string \<Rightarrow> string \<Rightarrow> string \<Rightarrow> bool \<Rightarrow> bool \<Rightarrow> ('w gs, goerr option) io" where
  "MountVolume sys source target fstype guid mountoptions readonly allusers =
     with_agent sys Some (\<lambda>c.
       extcall (Rpc ''MountVolume'' c [source, target, fstype, guid, mountoptions])
         (sys_MountVolume sys c
           \<lparr>mv_SourcePath = source, mv_TargetPath = target, mv_FsType = fstype, mv_ReadOnly = readonly,
            mv_MountOptions = mountoptions, mv_GroupId = guid, mv_AllUsers = allusers\<rparr>))"

definition UnMountVolume :: "'w sys \<Rightarrow> string \<Rightarrow> string \<Rightarrow> ('w gs, goerr option) io" where
  "UnMountVolume sys target volumeid =
     with_agent sys Some (\<lambda>c.
       extcall (Rpc ''UnMountVolume'' c [target]) (sys_UnMountVolume sys c target))"

definition SetQos :: "'w sys \<Rightarrow> string \<Rightarrow> string \<Rightarrow> string \<Rightarrow> string \<Rightarrow> ('w gs, goerr option) io" where
  "SetQos sys vgname lvname iopspergb mbpspergb =
     (let targetPath = ''/dev/'' @ vgname @ ''/'' @ lvname
      in with_agent sys Some (\<lambda>c.
           extcall (Rpc ''LvQoS'' c [targetPath, iopspergb, mbpspergb])
             (sys_LvQoS sys c (targetPath, iopspergb, mbpspergb))))"

definition UnStageIscsiTarget :: "'w sys \<Rightarrow> string \<Rightarrow> string \<Rightarrow> ('w gs, goerr option) io" where
  "UnStageIscsiTarget sys lvuuid initiqn =
     with_agent sys Some (\<lambda>c.
       extcall (Rpc ''UnStageIscsi'' c [lvuuid, initiqn]) (sys_UnStageIscsi sys c (lvuuid, initiqn)))"

section \<open>iSCSI targets\<close>

text \<open>\<open>strings.Replace(lun, "lun", "", -1)\<close>, and the replacement of the wildcard address.
  \<open>portal[0:7]\<close> panics on a portal of fewer than seven bytes.\<close>

function remove_all :: "string \<Rightarrow> string \<Rightarrow> string" where
  "remove_all s sub =
     (if sub = [] \<or> s = [] then s
      else if HasPrefix s sub then remove_all (drop (length sub) s) sub
      else hd s # remove_all (tl s) sub)"
  by pat_completeness auto
termination
  by (relation "measure (\<lambda>(s, sub). length s)") (auto simp: HasPrefix_def)

declare remove_all.simps [simp del]

definition portal_is_any :: "string \<Rightarrow> bool outcome" where
  "portal_is_any portal =
     (if length portal < 7 then Panic ''slice bounds out of range'' else Ret (take 7 portal = ''0.0.0.0''))"

definition lift_outcome :: "'a outcome \<Rightarrow> ('s, 'a) io" where
  "lift_outcome r = (case r of Ret x \<Rightarrow> ret x | Panic msg \<Rightarrow> panic msg)"

definition StageIscsiTarget ::
  "'w sys \<Rightarrow> string \<Rightarrow> string \<Rightarrow> ('w gs, (string \<times> string \<times> string) \<times> goerr option) io" where
  "StageIscsiTarget sys lvuuid initiqn =
     with_agent sys (\<lambda>e. (('''', '''', ''''), Some e)) (\<lambda>c.
       bind (extcall (Rpc ''StageIscsi'' c [lvuuid, initiqn]) (sys_StageIscsi sys c (lvuuid, initiqn)))
         (\<lambda>r. let err = (case r of Inl e \<Rightarrow> Some e | Inr _ \<Rightarrow> None);
                 res = (case r of Inl _ \<Rightarrow> \<lparr>si_TargetIqn = '''', si_Lun = '''', si_TargetPortal = ''''\<rparr> | Inr v \<Rightarrow> v);
                 targetiqn = si_TargetIqn res;
                 lun = remove_all (si_Lun res) ''lun'';
                 portal = si_TargetPortal res
             in bind (lift_outcome (portal_is_any portal)) (\<lambda>any.
                if any then
                  bind (get_state (\<lambda>s. sys_getenv sys ''CSI_NODE_IP'' (ext s))) (\<lambda>ip.
                    if ip \<noteq> '''' then ret ((targetiqn, lun, ip @ drop 7 portal), err)
                    else ret ((targetiqn, lun, portal), err))
                else ret ((targetiqn, lun, portal), err))))"

text \<open>One entry of the target list: \<open>iqn#lun#portal,\<close>.\<close>

definition target_entry :: "string \<Rightarrow> StageIscsiRes \<Rightarrow> string outcome" where
  "target_entry jbofurl tportal =
     (let portal = si_TargetPortal tportal
      in case portal_is_any portal of
           Panic msg \<Rightarrow> Panic msg
         | Ret any \<Rightarrow>
             (let portal' = (if any then hd (Split jbofurl CHR '':'') @ drop 7 portal else portal)
              in Ret (si_TargetIqn tportal @ ''#'' @ si_Lun tportal @ ''#'' @ portal' @ '','')))"

fun target_entries :: "string \<Rightarrow> StageIscsiRes list \<Rightarrow> string \<Rightarrow> string outcome" where
  "target_entries jbofurl [] acc = Ret acc"
| "target_entries jbofurl (t # ts) acc =
     (case target_entry jbofurl t of Panic msg \<Rightarrow> Panic msg
      | Ret e \<Rightarrow> target_entries jbofurl ts (acc @ e))"

text \<open>The loop over the JBOF servers. The error of \<open>CtrlPubIscsiDrives\<close> is discarded, and
  the connections stay open until the function returns.\<close>

fun jbof_loop :: "'w sys \<Rightarrow> string \<Rightarrow> string \<Rightarrow> string list \<Rightarrow> string \<Rightarrow> ('w gs, goerr + string) io" where
  "jbof_loop sys vgname initiqn [] targetlist =
     bind (extcall (Os ''now'' []) (sys_now sys)) (\<lambda>t.
     bind (put_state (\<lambda>s. s\<lparr>lastTargetSetup := t, lastVgName := vgname, lastInitIqn := initiqn,
                             lastTargetList := targetlist\<rparr>)) (\<lambda>_.
     ok targetlist))"
| "jbof_loop sys vgname initiqn (jbofurl # urls) targetlist =
     (if jbofurl = '''' then jbof_loop sys vgname initiqn urls targetlist
      else tryE (stolakeConnect sys jbofurl) fail (\<lambda>c.
        bind (extcall (Rpc ''CtrlPubIscsiDrives'' c [vgname, initiqn])
                (sys_CtrlPubIscsiDrives sys c (vgname, initiqn))) (\<lambda>r.
        defer_do (disconnect c)
          (bind (lift_outcome (target_entries jbofurl (case r of Inl _ \<Rightarrow> [] | Inr ts \<Rightarrow> ts) targetlist))
             (jbof_loop sys vgname initiqn urls)))))"

definition JbofStageIscsiTargets ::
  "'w sys \<Rightarrow> string \<Rightarrow> string \<Rightarrow> string \<Rightarrow> ('w gs, goerr + string) io" where
  "JbofStageIscsiTargets sys vgname stolakejbofurls initiqn =
     bind (extcall (Os ''now'' []) (sys_now sys)) (\<lambda>now.
     bind (get_state (\<lambda>s. (lastTargetSetup s, lastVgName s, lastInitIqn s, lastTargetList s)))
       (\<lambda>(setup, vg, iqn, tlist).
     if now - setup < 120 * 10 ^ 9 \<and> vgname = vg \<and> initiqn = iqn \<and> tlist \<noteq> ''''
     then ok tlist
     else jbof_loop sys vgname initiqn (Split stolakejbofurls CHR '','') ''''))"

section \<open>Initiator side\<close>

record lsscsi =
  hctl :: string
  kind :: string
  transport :: string
  blkdev :: string

fun parseLsScsi_lines :: "string list \<Rightarrow> goerr + lsscsi list" where
  "parseLsScsi_lines [] = Inr []"
| "parseLsScsi_lines (line # rest) =
     (if line = '''' then parseLsScsi_lines rest
      else (case Fields line of
        f0 # f1 # f2 # f3 # _ \<Rightarrow>
          (case parseLsScsi_lines rest of
             Inl e \<Rightarrow> Inl e
           | Inr devs \<Rightarrow>
               Inr (\<lparr>hctl = f0, kind = f1, transport = hd (Split f2 CHR '',''), blkdev = f3\<rparr> # devs))
      | _ \<Rightarrow> Inl (TextError ''Failed to parse lsscsi'')))"

definition parseLsScsi :: "string \<Rightarrow> goerr + lsscsi list" where
  "parseLsScsi buf = parseLsScsi_lines (Split buf CHR 0x0A)"

text \<open>Both the error of the agent call and the parse error are only logged: a failed
  listing is an empty one.\<close>

definition LsSscsiTransports :: "'w sys \<Rightarrow> ('w gs, goerr + lsscsi list) io" where
  "LsSscsiTransports sys =
     bind (ProxyStoLakeRun sys ''lsscsi'' [''-t'']) (\<lambda>(res, err).
       ok (case parseLsScsi res of Inl _ \<Rightarrow> [] | Inr devs \<Rightarrow> devs))"

definition IscsiTargetExists :: "'w sys \<Rightarrow> string \<Rightarrow> string \<Rightarrow> ('w gs, bool) io" where
  "IscsiTargetExists sys targetiqn portal =
     bind (ProxyStoLakeRun sys ''iscsiadm'' [''-m'', ''node'', ''--target'', targetiqn, ''--portal'', portal])
       (\<lambda>(res, err). ret (\<not> length res < 100))"

definition iscsi_error :: "string list \<Rightarrow> goerr \<Rightarrow> goerr" where
  "iscsi_error args err = TextError (''ISCSADM ERROR: '' @ fmt_strings args @ '' : '' @ Error_text err)"

definition find_transport :: "string \<Rightarrow> lsscsi list \<Rightarrow> lsscsi option" where
  "find_transport targetiqn devs = find (\<lambda>d. transport d = targetiqn) devs"

definition fmt_lsscsi :: "lsscsi \<Rightarrow> string" where
  "fmt_lsscsi d = ''{'' @ Join [hctl d, kind d, transport d, blkdev d] '' '' @ ''}''"

definition LoginIscsiTarget :: "'w sys \<Rightarrow> string \<Rightarrow> string \<Rightarrow> ('w gs, goerr + string) io" where
  "LoginIscsiTarget sys targetiqn portal =
     (let args = [''-m'', ''discoverydb'', ''--type'', ''sendtargets'', ''--discover'', ''--portal'', portal];
          args2 = [''-m'', ''node'', ''--login'', ''--target'', targetiqn, ''--portal'', portal]
      in bind (ProxyStoLakeRun sys ''iscsiadm'' args) (\<lambda>(_, err).
         case err of Some e \<Rightarrow> fail (iscsi_error args e) | None \<Rightarrow>
         bind (ProxyStoLakeRun sys ''iscsiadm'' args2) (\<lambda>(_, err).
         case err of Some e \<Rightarrow> fail (iscsi_error args2 e) | None \<Rightarrow>
         tryE (LsSscsiTransports sys) fail (\<lambda>scsidevs.
         case find_transport targetiqn scsidevs of
           Some d \<Rightarrow> ok (blkdev d)
         | None \<Rightarrow> fail (TextError (''ISCSI Block Device not found: '' @
             fmt_strings (map fmt_lsscsi scsidevs) @ '' ''))))))"

definition LogoutIscsiTarget :: "'w sys \<Rightarrow> string \<Rightarrow> string \<Rightarrow> ('w gs, goerr option) io" where
  "LogoutIscsiTarget sys targetiqn portal =
     bind (ProxyStoLakeRun sys ''iscsiadm'' [''-m'', ''node'', ''--logout'', ''--target'', targetiqn]) (\<lambda>_.
     bind (ProxyStoLakeRun sys ''iscsiadm'' [''-m'', ''node'', ''-o'', ''delete'', ''--target'', targetiqn]) (\<lambda>_.
     ret None))"

section \<open>The hypervisor client\<close>

text \<open>\<open>http.Get\<close> followed by the use of \<open>resp.Body\<close>: where the code defers \<open>Close\<close> before it
  looks at the error, a failed request dereferences a \<open>nil\<close> response.\<close>

definition http_Get :: "'w sys \<Rightarrow> string \<Rightarrow> ('w gs, goerr + nat \<times> (goerr + string)) io" where
  "http_Get sys url = extcall (Http url) (sys_http_get sys url)"

definition nil_deref :: string where
  "nil_deref = ''invalid memory address or nil pointer dereference''"

fun tilde_loop :: "string list \<Rightarrow> string \<Rightarrow> string" where
  "tilde_loop [] runargs = runargs"
| "tilde_loop (arg # args) runargs = tilde_loop args (runargs @ arg @ ''~'')"

definition tilde_args :: "string list \<Rightarrow> string" where
  "tilde_args args = TrimSuffix (tilde_loop args '''') ''~''"

definition http_read :: "'w sys \<Rightarrow> string \<Rightarrow> ('w gs, goerr + string) io" where
  "http_read sys url = tryE (http_Get sys url) fail (\<lambda>(_, body). ret body)"

definition virshProxy :: "'w sys \<Rightarrow> string list \<Rightarrow> ('w gs, goerr + string) io" where
  "virshProxy sys args =
     bind (get_state HostIP) (\<lambda>ip.
       http_read sys (''http://'' @ ip @ '':3141/speedboat/virsh/run?args='' @ tilde_args args))"

definition ProxyRun :: "'w sys \<Rightarrow> string \<Rightarrow> string list \<Rightarrow> ('w gs, goerr + string) io" where
  "ProxyRun sys cmd args =
     bind (get_state HostIP) (\<lambda>ip.
       http_read sys (''http://'' @ ip @ '':3141/speedboat/lvm/run?lvmcmd='' @ cmd
         @ ''&lvmargs='' @ tilde_args args))"

definition http_ok :: "'w sys \<Rightarrow> string \<Rightarrow> ('w gs, bool) io" where
  "http_ok sys url =
     tryE (http_Get sys url) (\<lambda>_. panic nil_deref) (\<lambda>(status, _). ret (status = 200))"

definition IsDomValid :: "'w sys \<Rightarrow> string \<Rightarrow> ('w gs, bool) io" where
  "IsDomValid sys domname = bind (get_state HostIP) (\<lambda>ip.
     http_ok sys (''http://'' @ ip @ '':3141/speedboat/virsh/run?args=domid~'' @ domname))"

definition IsPoolValid :: "'w sys \<Rightarrow> string \<Rightarrow> ('w gs, bool) io" where
  "IsPoolValid sys pool = bind (get_state HostIP) (\<lambda>ip.
     http_ok sys (''http://'' @ ip @ '':3141/speedboat/virsh/run?args=pool-uuid~'' @ pool))"

definition disk_url :: "string \<Rightarrow> string \<Rightarrow> string \<Rightarrow> string \<Rightarrow> string \<Rightarrow> string" where
  "disk_url ip op vm vgroup lvname =
     ''http://'' @ ip @ '':3141/speedboat/virsh/'' @ op @ ''?nodeid='' @ vm
       @ ''&vgroup='' @ vgroup @ ''&lvname='' @ lvname"

definition AttachDisk :: "'w sys \<Rightarrow> string \<Rightarrow> string \<Rightarrow> string \<Rightarrow> ('w gs, goerr + string) io" where
  "AttachDisk sys vm vgroup lvname =
     bind (get_state HostIP) (\<lambda>ip. http_read sys (disk_url ip ''attachdisk'' vm vgroup lvname))"

definition DetachDisk :: "'w sys \<Rightarrow> string \<Rightarrow> string \<Rightarrow> string \<Rightarrow> ('w gs, goerr option) io" where
  "DetachDisk sys vm vgroup lvname =
     bind (get_state HostIP) (\<lambda>ip.
       tryE (http_Get sys (disk_url ip ''detachdisk'' vm vgroup lvname))
         (\<lambda>_. panic nil_deref) (\<lambda>_. ret None))"

definition QosSync :: "'w sys \<Rightarrow> ('w gs, goerr option) io" where
  "QosSync sys =
     tryE (http_Get sys ''http://localhost:3141/speedboat/claims/qossync'')
       (\<lambda>_. panic nil_deref) (\<lambda>_. ret None)"

text \<open>The listings of virsh; the error of \<open>virshProxy\<close> is discarded.\<close>

definition proxy_out :: "goerr + string \<Rightarrow> string" where
  "proxy_out r = (case r of Inl _ \<Rightarrow> '''' | Inr out \<Rightarrow> out)"

definition vm_of_line :: "string \<Rightarrow> string option" where
  "vm_of_line ln =
     (case Fields ln of
        w0 # w1 # w2 # _ \<Rightarrow> if w0 = ''Id'' then None else Some w1
      | _ \<Rightarrow> None)"

definition ListVMs :: "'w sys \<Rightarrow> ('w gs, string list) io" where
  "ListVMs sys = bind (virshProxy sys [''list''])
     (\<lambda>out. ret (List.map_filter vm_of_line (Split (proxy_out out) CHR 0x0A)))"

record vmblkmap =
  vmname :: string
  vdblk :: string
  lvsrc :: string

definition blk_of_line :: "string \<Rightarrow> string \<Rightarrow> vmblkmap option" where
  "blk_of_line vm ln =
     (case Fields ln of
        w0 # w1 # _ \<Rightarrow>
          if w0 = ''Target'' then None
          else if length w1 < 11 then None
          else if take 10 w1 \<noteq> ''/dev/sbvg_'' then None
          else Some \<lparr>vmname = vm, vdblk = w0, lvsrc = w1\<rparr>
      | _ \<Rightarrow> None)"

definition ListVMblks :: "'w sys \<Rightarrow> string \<Rightarrow> ('w gs, vmblkmap list) io" where
  "ListVMblks sys vm = bind (virshProxy sys [''domblklist'', vm])
     (\<lambda>out. ret (List.map_filter (blk_of_line vm) (Split (proxy_out out) CHR 0x0A)))"

fun ListMappings_loop :: "'w sys \<Rightarrow> string list \<Rightarrow> vmblkmap list \<Rightarrow> ('w gs, vmblkmap list) io" where
  "ListMappings_loop sys [] mappings = ret mappings"
| "ListMappings_loop sys (vm # vms) mappings =
     bind (ListVMblks sys vm) (\<lambda>m. ListMappings_loop sys vms (mappings @ m))"

definition ListMappings :: "'w sys \<Rightarrow> ('w gs, vmblkmap list) io" where
  "ListMappings sys = bind (ListVMs sys) (\<lambda>vms. ListMappings_loop sys vms [])"

definition pool_of_line :: "string \<Rightarrow> string option" where
  "pool_of_line ln =
     (case Fields ln of
        w0 # w1 # _ \<Rightarrow>
          if w0 = ''Name'' then None
          else if length w0 < 5 then None
          else if take 5 w0 \<noteq> ''sbvg_'' then None
          else Some w0
      | _ \<Rightarrow> None)"

definition ListAllPools :: "'w sys \<Rightarrow> ('w gs, string list) io" where
  "ListAllPools sys = bind (virshProxy sys [''pool-list'', ''--all''])
     (\<lambda>out. ret (List.map_filter pool_of_line (Split (proxy_out out) CHR 0x0A)))"

definition ListPools :: "'w sys \<Rightarrow> ('w gs, string list) io" where
  "ListPools sys = bind (virshProxy sys [''pool-list''])
     (\<lambda>out. ret (List.map_filter pool_of_line (Split (proxy_out out) CHR 0x0A)))"

definition VolPath :: "'w sys \<Rightarrow> string \<Rightarrow> string \<Rightarrow> ('w gs, goerr + string) io" where
  "VolPath sys pool vol = virshProxy sys [''vol-path'', ''--pool'', pool, vol]"

definition first_open_vdx :: "string list \<Rightarrow> string \<Rightarrow> string option" where
  "first_open_vdx used letters =
     map_option (\<lambda>c. ''vd'' @ [c]) (find (\<lambda>c. ''vd'' @ [c] \<notin> set used) letters)"

definition NextOpenVdx :: "'w sys \<Rightarrow> string \<Rightarrow> ('w gs, goerr + string) io" where
  "NextOpenVdx sys vm = bind (ListVMblks sys vm) (\<lambda>blks.
     case first_open_vdx (map vdblk blks) ''abcdefghijklmnopqrstuvwxyz'' of
       None \<Rightarrow> fail (TextError (''Can'' @ [CHR 0x27] @ ''t find an open vdx block handle on VM''))
     | Some next \<Rightarrow> ok next)"

definition DefinePool :: "'w sys \<Rightarrow> string \<Rightarrow> ('w gs, goerr + string) io" where
  "DefinePool sys vg =
     virshProxy sys [''pool-define-as'', vg, ''logical'', ''--source-name'', vg, ''--target'', ''/dev/'' @ vg]"

definition StartPool :: "'w sys \<Rightarrow> string \<Rightarrow> ('w gs, goerr option) io" where
  "StartPool sys vg = bind (ListPools sys) (\<lambda>pools.
     if vg \<in> set pools then ret None
     else bind (virshProxy sys [''pool-start'', vg])
       (\<lambda>r. ret (case r of Inl e \<Rightarrow> Some e | Inr _ \<Rightarrow> None)))"

definition UndefinePool :: "'w sys \<Rightarrow> string \<Rightarrow> ('w gs, unit) io" where
  "UndefinePool sys vg =
     bind (virshProxy sys [''pool-destroy'', vg]) (\<lambda>_.
     ignore (virshProxy sys [''pool-undefine'', vg]))"

fun blkid_lines :: "string list \<Rightarrow> goerr + string" where
  "blkid_lines [] = Inl (TextError (''Can'' @ [CHR 0x27] @ ''t find blockid device on host''))"
| "blkid_lines (ln # rest) =
     (case Split ln CHR ''='' of
        [k, v] \<Rightarrow> if k = ''ID_FS_UUID'' then Inr v else blkid_lines rest
      | _ \<Rightarrow> blkid_lines rest)"

definition BlkID :: "'w sys \<Rightarrow> string \<Rightarrow> ('w gs, goerr + string) io" where
  "BlkID sys dev =
     bind (extcall (Exec ''blkid'' [''-po'', ''udev'', dev]) (sys_combined sys ''blkid'' [''-po'', ''udev'', dev]))
       (\<lambda>(out, err). case err of
          Some _ \<Rightarrow> fail (TextError (''Can'' @ [CHR 0x27] @ ''t find block device on host''))
        | None \<Rightarrow> ret (blkid_lines (Split out CHR 0x0A)))"

end
