(* ===== verification/Base64.thy ===== *)
theory Base64
  imports GoFmt
begin

text \<open>
  \<open>base64.RawURLEncoding.EncodeToString\<close>: three bytes become four characters of the URL-safe
  alphabet, without padding. The decoder is the inverse a reader of the volume context or
  of the tag applies; it shows that no information is lost.
\<close>

definition b64_alphabet :: string where
  "b64_alphabet = ''ABCDEFGHIJKLMNOPQRSTUVWXYZabcdefghijklmnopqrstuvwxyz0123456789-_''"

definition b64_char :: "nat \<Rightarrow> char" where
  "b64_char n = b64_alphabet ! n"

fun b64_sextets :: "nat list \<Rightarrow> nat list" where
  "b64_sextets [] = []"
| "b64_sextets [a] = [a div 4, a mod 4 * 16]"
| "b64_sextets [a, b] = [a div 4, a mod 4 * 16 + b div 16, b mod 16 * 4]"
| "b64_sextets (a # b # c # r) =
     a div 4 # (a mod 4 * 16 + b div 16) # (b mod 16 * 4 + c div 64) # c mod 64 # b64_sextets r"

definition b64_encode :: "string \<Rightarrow> string" where
  "b64_encode s = map b64_char (b64_sextets (map of_char s))"

fun b64_octets :: "nat list \<Rightarrow> nat list option" where
  "b64_octets [] = Some []"
| "b64_octets [a] = None"
| "b64_octets [a, b] = Some [a * 4 + b div 16]"
| "b64_octets [a, b, c] = Some [a * 4 + b div 16, b mod 16 * 16 + c div 4]"
| "b64_octets (a # b # c # d # r) =
     map_option (\<lambda>t. (a * 4 + b div 16) # (b mod 16 * 16 + c div 4) # (c mod 4 * 64 + d) # t) (b64_octets r)"

definition b64_value :: "char \<Rightarrow> nat option" where
  "b64_value c = index_byte c b64_alphabet"

fun b64_values :: "string \<Rightarrow> nat list option" where
  "b64_values [] = Some []"
| "b64_values (c # cs) =
     (case b64_value c of None \<Rightarrow> None | Some v \<Rightarrow> map_option ((#) v) (b64_values cs))"

definition b64_decode :: "string \<Rightarrow> string option" where
  "b64_decode s = (case b64_values s of None \<Rightarrow> None | Some vs \<Rightarrow> map_option (map char_of) (b64_octets vs))"

lemma b64_sextets_bound: "\<forall>x \<in> set xs. x < 256 \<Longrightarrow> v \<in> set (b64_sextets xs) \<Longrightarrow> v < 64"
proof (induction xs rule: b64_sextets.induct)
  case (3 a b)
  then have "a < 256" "b < 256" by auto
  moreover have "v = a div 4 \<or> v = a mod 4 * 16 + b div 16 \<or> v = b mod 16 * 4" using 3 by auto
  moreover have "a mod 4 < 4" "b mod 16 < 16" by auto
  ultimately show ?case by linarith
next
  case (4 a b c r)
  then have "a < 256" "b < 256" "c < 256" by auto
  moreover have "v = a div 4 \<or> v = a mod 4 * 16 + b div 16 \<or> v = b mod 16 * 4 + c div 64
      \<or> v = c mod 64 \<or> v \<in> set (b64_sextets r)" using "4.prems" by auto
  moreover have "a mod 4 < 4" "b mod 16 < 16" "c mod 64 < 64" by auto
  moreover have "v \<in> set (b64_sextets r) \<Longrightarrow> v < 64" using 4 by auto
  ultimately show ?case by linarith
qed auto

lemma b64_octets_sextets: "\<forall>x \<in> set xs. x < 256 \<Longrightarrow> b64_octets (b64_sextets xs) = Some xs"
proof (induction xs rule: b64_sextets.induct)
  case (3 a b)
  then have "b < 256" by auto
  then have "b div 16 < 16" by auto
  then show ?case by auto
next
  case (4 a b c r)
  then have "b < 256" "c < 256" by auto
  then have "b div 16 < 16" "c div 64 < 4" by auto
  moreover have "b64_octets (b64_sextets r) = Some r" using 4 by auto
  ultimately show ?case by auto
qed auto

lemma length_b64_alphabet [simp]: "length b64_alphabet = 64"
  by (simp add: b64_alphabet_def)

lemma index_byte_nth: "distinct s \<Longrightarrow> n < length s \<Longrightarrow> index_byte (s ! n) s = Some n"
  by (induction s arbitrary: n) (auto simp: nth_Cons split: nat.splits)

lemma distinct_b64_alphabet: "distinct b64_alphabet"
  by code_simp

lemma b64_value_char: "n < 64 \<Longrightarrow> b64_value (b64_char n) = Some n"
  by (simp add: b64_value_def b64_char_def index_byte_nth distinct_b64_alphabet)

lemma b64_values_map: "\<forall>v \<in> set vs. v < 64 \<Longrightarrow> b64_values (map b64_char vs) = Some vs"
  by (induction vs) (auto simp: b64_value_char)

lemma b64_decode_encode: "b64_decode (b64_encode s) = Some s"
proof -
  let ?xs = "map of_char s :: nat list"
  have bytes: "\<forall>x \<in> set ?xs. x < 256" by auto
  have "b64_values (b64_encode s) = Some (b64_sextets ?xs)"
    unfolding b64_encode_def using b64_values_map b64_sextets_bound [OF bytes] by blast
  then show ?thesis
    by (simp add: b64_decode_def b64_octets_sextets [OF bytes] comp_def)
qed

interpretation base64: codec "\<lambda>_. True" b64_encode b64_decode
  by unfold_locales (rule b64_decode_encode)

lemma b64_encode_alphabet: "c \<in> set (b64_encode s) \<Longrightarrow> c \<in> set b64_alphabet"
proof -
  assume "c \<in> set (b64_encode s)"
  then obtain v where "c = b64_char v" "v \<in> set (b64_sextets (map of_char s))"
    by (auto simp: b64_encode_def)
  then show ?thesis
    using b64_sextets_bound [of "map of_char s" v] nth_mem [of v b64_alphabet]
    by (auto simp: b64_char_def)
qed

lemma length_b64_sextets: "length (b64_sextets xs) = (4 * length xs + 2) div 3"
  by (induction xs rule: b64_sextets.induct) auto

lemma length_b64_encode [simp]: "length (b64_encode s) = (4 * length s + 2) div 3"
  by (simp add: b64_encode_def length_b64_sextets)

end
