(* ===== verification/LvmNames.thy ===== *)
theory LvmNames
  imports Base64
begin

text \<open>
  Names and tags of package lvm: the three regular expressions and the validation functions
  of \<open>pkg/lvm/lvm.go\<close>, and \<open>volumeNameToTag\<close> of \<open>pkg/csilvm/server.go\<close>, which turns the
  name of a CSI volume into a tag of its logical volume. The lemmas say when a tag is
  valid, that every produced tag is valid if short enough, and that different names give
  different tags, so that a volume is found again by its name and by no other.
\<close>

section \<open>The errors of package lvm\<close>

definition ErrNoSpace :: goerr where
  "ErrNoSpace = SimpleError ''lvm: not enough free space''"
definition ErrTooFewDisks :: goerr where
  "ErrTooFewDisks = SimpleError ''lvm: not enough underlying devices''"
definition ErrPhysicalVolumeNotFound :: goerr where
  "ErrPhysicalVolumeNotFound = SimpleError ''lvm: physical volume not found''"
definition ErrVolumeGroupNotFound :: goerr where
  "ErrVolumeGroupNotFound = SimpleError ''lvm: volume group not found''"
definition ErrLogicalVolumeNotFound :: goerr where
  "ErrLogicalVolumeNotFound = SimpleError ''lvm: logical volume not found''"
definition ErrInvalidVGName :: goerr where
  "ErrInvalidVGName =
     SimpleError ''lvm: Name contains invalid character, valid set includes: [A-Za-z0-9_+.-]''"
definition ErrInvalidLVName :: goerr where
  "ErrInvalidLVName =
     SimpleError ''lvm: Name contains invalid character, valid set includes: [A-Za-z0-9_+.-]''"
definition ErrTagInvalidLength :: goerr where
  "ErrTagInvalidLength = SimpleError ''lvm: Tag length must be between 1 and 1024 characters''"
definition ErrTagHasInvalidChars :: goerr where
  "ErrTagHasInvalidChars =
     SimpleError (''lvm: Tag must consist of only [A-Za-z0-9_+.-] and cannot start with a ''
       @ [CHR 0x27, CHR ''-'', CHR 0x27])"

lemmas lvm_error_defs =
  ErrNoSpace_def ErrTooFewDisks_def ErrPhysicalVolumeNotFound_def ErrVolumeGroupNotFound_def
  ErrLogicalVolumeNotFound_def ErrInvalidVGName_def ErrInvalidLVName_def
  ErrTagInvalidLength_def ErrTagHasInvalidChars_def

section \<open>Validation\<close>

text \<open>The classes \<open>[A-Za-z0-9_+.]\<close> and \<open>[A-Za-z0-9_+.-]\<close>, and the anchored expression.\<close>

definition name_start :: "char \<Rightarrow> bool" where
  "name_start c \<longleftrightarrow>
     (let n = of_char c :: nat in
      65 \<le> n \<and> n \<le> 90 \<or> 97 \<le> n \<and> n \<le> 122 \<or> 48 \<le> n \<and> n \<le> 57 \<or> n = 95 \<or> n = 43 \<or> n = 46)"

definition name_char :: "char \<Rightarrow> bool" where
  "name_char c \<longleftrightarrow> name_start c \<or> c = CHR ''-''"

definition nameRegexp_match :: "string \<Rightarrow> bool" where
  "nameRegexp_match s = (case s of [] \<Rightarrow> False | c # cs \<Rightarrow> name_start c \<and> list_all name_char cs)"

definition ValidateLogicalVolumeName :: "string \<Rightarrow> goerr option" where
  "ValidateLogicalVolumeName name =
     (if \<not> nameRegexp_match name then Some ErrInvalidLVName else None)"

definition ValidateVolumeGroupName :: "string \<Rightarrow> goerr option" where
  "ValidateVolumeGroupName name =
     (if \<not> nameRegexp_match name then Some ErrInvalidVGName else None)"

definition ValidateTag :: "string \<Rightarrow> goerr option" where
  "ValidateTag tag =
     (if length tag > 1024 then Some ErrTagInvalidLength
      else if \<not> nameRegexp_match tag then Some ErrTagHasInvalidChars
      else None)"

lemma ValidateTag_None_iff:
  "ValidateTag tag = None \<longleftrightarrow>
     tag \<noteq> [] \<and> length tag \<le> 1024 \<and> hd tag \<noteq> CHR ''-'' \<and> list_all name_char tag"
  by (cases tag) (auto simp: ValidateTag_def nameRegexp_match_def name_char_def name_start_def)

section \<open>Volume names as tags\<close>

definition tagVolumeNameEncodedPrefix :: string where
  "tagVolumeNameEncodedPrefix = ''VN+''"
definition tagVolumeNamePlainPrefix :: string where
  "tagVolumeNamePlainPrefix = ''VN.''"

definition tagSafeChars :: string where
  "tagSafeChars = ''ABCDEFGHIJKLMNOPQRSTUVWXYZabcdefghijklmnopqrstuvwxyz_+.-1234567890''"

fun volumeNameToTag_loop :: "string \<Rightarrow> string \<Rightarrow> string" where
  "volumeNameToTag_loop volname [] = tagVolumeNamePlainPrefix @ volname"
| "volumeNameToTag_loop volname (r # rs) =
     (if r \<in> set tagSafeChars then volumeNameToTag_loop volname rs
      else tagVolumeNameEncodedPrefix @ b64_encode volname)"

definition volumeNameToTag :: "string \<Rightarrow> string" where
  "volumeNameToTag volname = volumeNameToTag_loop volname volname"

text \<open>The reader of such a tag.\<close>

definition tagToVolumeName :: "string \<Rightarrow> string option" where
  "tagToVolumeName tag =
     (if HasPrefix tag tagVolumeNamePlainPrefix then Some (drop 3 tag)
      else if HasPrefix tag tagVolumeNameEncodedPrefix then b64_decode (drop 3 tag)
      else None)"

lemma volumeNameToTag_loop_eq:
  "volumeNameToTag_loop v s =
     (if set s \<subseteq> set tagSafeChars then tagVolumeNamePlainPrefix @ v
      else tagVolumeNameEncodedPrefix @ b64_encode v)"
  by (induction s) auto

lemma volumeNameToTag_eq:
  "volumeNameToTag v =
     (if set v \<subseteq> set tagSafeChars then ''VN.'' @ v else ''VN+'' @ b64_encode v)"
  unfolding volumeNameToTag_def volumeNameToTag_loop_eq
  by (simp add: tagVolumeNamePlainPrefix_def tagVolumeNameEncodedPrefix_def)

lemma tagToVolumeName_volumeNameToTag: "tagToVolumeName (volumeNameToTag v) = Some v"
  by (simp add: volumeNameToTag_eq tagToVolumeName_def HasPrefix_def b64_decode_encode
      tagVolumeNamePlainPrefix_def tagVolumeNameEncodedPrefix_def)

interpretation volume_tag: codec "\<lambda>_. True" volumeNameToTag tagToVolumeName
  by unfold_locales (rule tagToVolumeName_volumeNameToTag)

lemma tagSafeChars_name_char: "c \<in> set tagSafeChars \<Longrightarrow> name_char c"
proof -
  have "list_all name_char tagSafeChars" by code_simp
  then show "c \<in> set tagSafeChars \<Longrightarrow> name_char c" by (auto simp: list_all_iff)
qed

lemma b64_alphabet_name_char: "c \<in> set b64_alphabet \<Longrightarrow> name_char c"
proof -
  have "list_all name_char b64_alphabet" by code_simp
  then show "c \<in> set b64_alphabet \<Longrightarrow> name_char c" by (auto simp: list_all_iff)
qed

lemma volumeNameToTag_chars: "list_all name_char (volumeNameToTag v)"
proof -
  have "name_char (CHR ''V'')" "name_char (CHR ''N'')" "name_char (CHR ''.'')" "name_char (CHR ''+'')"
    by code_simp+
  then show ?thesis
    by (auto simp: volumeNameToTag_eq list_all_iff intro: tagSafeChars_name_char
        b64_alphabet_name_char dest: b64_encode_alphabet)
qed

lemma length_volumeNameToTag: "length (volumeNameToTag v) \<le> 3 + (4 * length v + 2) div 3"
  by (auto simp: volumeNameToTag_eq)

lemma hd_volumeNameToTag: "volumeNameToTag v \<noteq> [] \<and> hd (volumeNameToTag v) = CHR ''V''"
  by (simp add: volumeNameToTag_eq)

text \<open>
  A volume name of at most 765 bytes always becomes a tag that \<open>ValidateTag\<close> accepts,
  so \<open>CreateLogicalVolume\<close> never rejects the name tag the server adds.\<close>

theorem volume_name_tag_valid:
  assumes "length v \<le> 765"
  shows "ValidateTag (volumeNameToTag v) = None"
proof -
  have "(4 * length v + 2) div 3 \<le> 1021" using assms by simp
  then have "length (volumeNameToTag v) \<le> 1024"
    using length_volumeNameToTag [of v] by linarith
  then show ?thesis
    using volumeNameToTag_chars hd_volumeNameToTag by (simp add: ValidateTag_None_iff)
qed

theorem volume_name_tag_valid_witness:
  "length ''my volume'' \<le> 765 \<and> ValidateTag (volumeNameToTag ''my volume'') = None"
  using volume_name_tag_valid [of "''my volume''"] by simp

text \<open>C28: two volumes get the same tag only if they have the same name, whether the tag
  carries the name itself or its base64 form.\<close>

theorem volume_name_tag_injective: "volumeNameToTag v = volumeNameToTag w \<longleftrightarrow> v = w"
  by (simp add: volume_tag.enc_eq_iff)

end
