(* ===== verification/LvmLayout.thy ===== *)
theory LvmLayout
  imports GoMap LvmNames
begin

text \<open>
  The RAID layout of a logical volume: \<open>VolumeLayout\<close> and its methods in
  \<open>pkg/lvm/lvm.go\<close>, and the functions of \<open>pkg/csilvm/server.go\<close> that read a layout from the
  parameters of a storage class. All numbers are \<open>uint64\<close> and wrap around. The lemmas give
  the capacity a layout really leaves, the cases in which the subtraction of the metadata
  extents wraps, and which parameters are consumed.
\<close>

section \<open>VolumeLayout\<close>

type_synonym VolumeType = string

definition VolumeTypeDefault :: VolumeType where "VolumeTypeDefault = ''''"
definition VolumeTypeLinear :: VolumeType where "VolumeTypeLinear = ''''"
definition VolumeTypeRAID1 :: VolumeType where "VolumeTypeRAID1 = ''raid1''"
definition VolumeTypeRAID5 :: VolumeType where "VolumeTypeRAID5 = ''raid5''"
definition VolumeTypeRAID6 :: VolumeType where "VolumeTypeRAID6 = ''raid6''"
definition VolumeTypeRAID10 :: VolumeType where "VolumeTypeRAID10 = ''raid10''"

lemmas VolumeType_defs =
  VolumeTypeDefault_def VolumeTypeLinear_def VolumeTypeRAID1_def VolumeTypeRAID5_def
  VolumeTypeRAID6_def VolumeTypeRAID10_def

record VolumeLayout =
  Type :: VolumeType
  Mirrors :: uint64
  Stripes :: uint64
  StripeSize :: uint64
  Nosync :: uint64

definition zero_layout :: VolumeLayout where
  "zero_layout = \<lparr>Type = VolumeTypeDefault, Mirrors = 0, Stripes = 0, StripeSize = 0, Nosync = 0\<rparr>"

definition MinNumberOfDevices :: "VolumeLayout \<Rightarrow> uint64 outcome" where
  "MinNumberOfDevices c =
     (if Type c = VolumeTypeDefault \<or> Type c = VolumeTypeLinear then Ret 1
      else if Type c = VolumeTypeRAID1 then
        (let mirrors = (if Mirrors c = 0 then 1 else Mirrors c) in Ret (2 * mirrors))
      else if Type c = VolumeTypeRAID5 then Ret (Stripes c + 1)
      else if Type c = VolumeTypeRAID6 then Ret (Stripes c + 2)
      else if Type c = VolumeTypeRAID10 then
        (let mirrors = (if Mirrors c = 0 then 1 else Mirrors c);
             stripes = (if Stripes c = 0 then 2 else Stripes c)
         in Ret (2 * mirrors * stripes))
      else Panic (''unsupported volume type: {'' @ Type c @ ''}''))"

definition extentsFree :: "VolumeLayout \<Rightarrow> uint64 \<Rightarrow> uint64 outcome" where
  "extentsFree r count =
     (if Type r = VolumeTypeDefault \<or> Type r = VolumeTypeLinear
         \<or> Type r = VolumeTypeRAID5 \<or> Type r = VolumeTypeRAID6 then Ret count
      else if Type r = VolumeTypeRAID1 \<or> Type r = VolumeTypeRAID10 then
        (let mirrors = (if Mirrors r = 0 then 1 else Mirrors r);
             copies = mirrors + 1
         in if copies = 0 then Panic ''integer divide by zero''
            else Ret ((count - copies) div copies))
      else Panic (''unsupported volume type: {'' @ Type r @ ''}''))"

definition Flags :: "VolumeLayout \<Rightarrow> string list outcome" where
  "Flags c =
     (let rest =
        (if Mirrors c = 0 then [] else [''--mirrors='' @ fmt_d (Mirrors c)]) @
        (if Stripes c = 0 then [] else [''--stripes='' @ fmt_d (Stripes c)]) @
        (if StripeSize c = 0 then [] else [''--stripesize='' @ fmt_d (StripeSize c)]) @
        (if Nosync c = 1 then [''--nosync''] else [])
      in if Type c = VolumeTypeDefault then Ret rest
         else if Type c = VolumeTypeLinear then Ret ('''' # rest)
         else if Type c = VolumeTypeRAID1 then Ret (''--type=raid1'' # rest)
         else if Type c = VolumeTypeRAID5 then Ret (''--type=raid5'' # rest)
         else if Type c = VolumeTypeRAID6 then Ret (''--type=raid6'' # rest)
         else if Type c = VolumeTypeRAID10 then Ret (''--type=raid10'' # rest)
         else Panic (''lvm: unexpected volume type: {'' @ Type c @ ''}''))"

definition known_type :: "VolumeType \<Rightarrow> bool" where
  "known_type t \<longleftrightarrow> t \<in> {VolumeTypeDefault, VolumeTypeRAID1, VolumeTypeRAID5, VolumeTypeRAID6, VolumeTypeRAID10}"

text \<open>The number of copies of the data a mirrored layout keeps.\<close>

definition layout_copies :: "VolumeLayout \<Rightarrow> nat" where
  "layout_copies r = (if Mirrors r = 0 then 1 else unat (Mirrors r)) + 1"

definition mirrored :: "VolumeLayout \<Rightarrow> bool" where
  "mirrored r \<longleftrightarrow> Type r = VolumeTypeRAID1 \<or> Type r = VolumeTypeRAID10"

lemma extentsFree_mirrored:
  assumes "mirrored r" and "Mirrors r \<noteq> - 1"
  shows "extentsFree r count = Ret ((count - of_nat (layout_copies r)) div of_nat (layout_copies r))"
    and "unat (of_nat (layout_copies r) :: uint64) = layout_copies r"
proof -
  define m where "m = (if Mirrors r = 0 then 1 else Mirrors r)"
  have "m \<noteq> - 1" using assms(2) by (auto simp: m_def)
  then have ne: "m + 1 \<noteq> 0" by (metis eq_neg_iff_add_eq_0)
  have "layout_copies r = Suc (unat m)" by (simp add: layout_copies_def m_def)
  with ne have u: "unat (m + 1) = layout_copies r"
    using unatSuc [of m] by (simp add: add.commute)
  then have e: "of_nat (layout_copies r) = m + 1" by (simp flip: u)
  show "unat (of_nat (layout_copies r) :: uint64) = layout_copies r" using e u by simp
  have "extentsFree r count = Ret ((count - (m + 1)) div (m + 1))"
    using assms(1) ne
    by (auto simp: extentsFree_def mirrored_def VolumeType_defs m_def Let_def)
  then show "extentsFree r count = Ret ((count - of_nat (layout_copies r)) div of_nat (layout_copies r))"
    by (simp add: e)
qed

lemma mirrored_extents_fit_aux:
  assumes "mirrored r" and "Mirrors r \<noteq> - 1" and "layout_copies r \<le> unat count"
    and "extentsFree r count = Ret n"
  shows "layout_copies r * unat n + layout_copies r \<le> unat count \<and>
    unat count < layout_copies r * (unat n + 1) + layout_copies r"
proof -
  define k where "k = layout_copies r"
  have kpos: "0 < k" by (simp add: k_def layout_copies_def)
  note f = extentsFree_mirrored [OF assms(1,2), folded k_def]
  have "unat (count - of_nat k) = unat count - k"
    using assms(3) f(2) by (simp add: unat_sub word_le_nat_alt k_def)
  moreover have "n = (count - of_nat k) div of_nat k"
    using assms(4) f(1) by simp
  ultimately have n: "unat n = (unat count - k) div k"
    by (simp add: unat_div f(2))
  have "k * unat n \<le> unat count - k"
    using n by (metis mult.commute div_times_less_eq_dividend)
  then have lower: "layout_copies r * unat n + layout_copies r \<le> unat count"
    using assms(3) by (simp add: k_def)
  have "unat count - k < k * (unat n + 1)"
    using n kpos dividend_less_div_times [of k "unat count - k"] by (simp add: algebra_simps)
  then show ?thesis
    using lower by (simp add: k_def)
qed

text \<open>
  For a mirrored layout whose number of copies does not exceed the free extents, the
  reported number of extents is the largest that fits: every copy gets that many extents and
  one more for its metadata.\<close>

theorem mirrored_extents_fit:
  assumes "mirrored r" and "Mirrors r \<noteq> - 1" and "layout_copies r \<le> unat count"
    and "extentsFree r count = Ret n"
  shows "layout_copies r * unat n + layout_copies r \<le> unat count \<and>
    unat count < layout_copies r * (unat n + 1) + layout_copies r"
  using mirrored_extents_fit_aux [OF assms] .

theorem mirrored_extents_fit_witness:
  "extentsFree (zero_layout\<lparr>Type := VolumeTypeRAID1\<rparr>) 11 = Ret 4 \<and>
   layout_copies (zero_layout\<lparr>Type := VolumeTypeRAID1\<rparr>) * unat (4 :: uint64)
     + layout_copies (zero_layout\<lparr>Type := VolumeTypeRAID1\<rparr>) \<le> unat (11 :: uint64)"
proof -
  have e: "extentsFree (zero_layout\<lparr>Type := VolumeTypeRAID1\<rparr>) 11 = Ret 4" by code_simp
  have "mirrored (zero_layout\<lparr>Type := VolumeTypeRAID1\<rparr>)" by (simp add: mirrored_def)
  then show ?thesis
    using mirrored_extents_fit [OF _ _ _ e] e
    by (simp add: zero_layout_def layout_copies_def)
qed

text \<open>C37: with fewer free extents than copies, \<open>count -= copies\<close> wraps around and the code
  reports more extents than the volume group has free.\<close>

theorem mirrored_extents_underflow:
  assumes "mirrored r" and "layout_copies r \<le> 2 ^ 31" and "unat count < layout_copies r"
    and "extentsFree r count = Ret n"
  shows "unat count < unat n"
proof (rule ccontr)
  define k where "k = layout_copies r"
  assume "\<not> unat count < unat n"
  then have "unat n < k" using assms(3) by (simp add: k_def)
  have kpos: "0 < k" by (simp add: k_def layout_copies_def)
  have "Mirrors r \<noteq> - 1"
    using assms(2) by (auto simp: layout_copies_def unsigned_minus_1_eq_mask mask_eq_exp_minus_1)
  note f = extentsFree_mirrored [OF assms(1) this, folded k_def]
  have "unat (count - of_nat k) = unat count + 2 ^ 64 - k"
    using assms(3) f(2) by (simp add: unat_sub_if' k_def)
  moreover have "n = (count - of_nat k) div of_nat k"
    using assms(4) f(1) by simp
  ultimately have "unat n = (unat count + 2 ^ 64 - k) div k"
    by (simp add: unat_div f(2))
  then have "unat count + 2 ^ 64 - k < k * (unat n + 1)"
    using kpos dividend_less_div_times [of k "unat count + 2 ^ 64 - k"] by (simp add: algebra_simps)
  also have "\<dots> \<le> k * k" using \<open>unat n < k\<close> by (intro mult_le_mono) simp_all
  also have "\<dots> \<le> 2 ^ 31 * 2 ^ 31" using assms(2) by (intro mult_le_mono) (simp_all add: k_def)
  finally show False using assms(2) by (simp add: k_def)
qed

theorem mirrored_extents_underflow_witness:
  "extentsFree (zero_layout\<lparr>Type := VolumeTypeRAID1\<rparr>) 1 = Ret 9223372036854775807 \<and>
   unat (1 :: uint64) < unat (9223372036854775807 :: uint64)"
proof -
  have e: "extentsFree (zero_layout\<lparr>Type := VolumeTypeRAID1\<rparr>) 1 = Ret 9223372036854775807" by code_simp
  have "mirrored (zero_layout\<lparr>Type := VolumeTypeRAID1\<rparr>)" by (simp add: mirrored_def)
  then show ?thesis
    using mirrored_extents_underflow [OF _ _ _ e] e by (simp add: zero_layout_def layout_copies_def)
qed

text \<open>No layout with a known type makes the methods panic, and an unknown type makes all of
  them panic.\<close>

lemma Flags_panic_iff: "(\<exists>msg. Flags c = Panic msg) \<longleftrightarrow> \<not> known_type (Type c)"
  by (auto simp: Flags_def known_type_def VolumeType_defs Let_def)

lemma MinNumberOfDevices_panic_iff: "(\<exists>msg. MinNumberOfDevices c = Panic msg) \<longleftrightarrow> \<not> known_type (Type c)"
  by (auto simp: MinNumberOfDevices_def known_type_def VolumeType_defs Let_def)

section \<open>Creation options\<close>

record LVOpts =
  volumeLayout :: VolumeLayout

type_synonym CreateLogicalVolumeOpt = "LVOpts \<Rightarrow> LVOpts"

definition zero_LVOpts :: LVOpts where
  "zero_LVOpts = \<lparr>volumeLayout = zero_layout\<rparr>"

definition VolumeLayoutOpt :: "VolumeLayout \<Rightarrow> CreateLogicalVolumeOpt" where
  "VolumeLayoutOpt r = (\<lambda>opts. opts\<lparr>volumeLayout := r\<rparr>)"

definition LVOpts_Flags :: "LVOpts \<Rightarrow> string list outcome" where
  "LVOpts_Flags opts = Flags (volumeLayout opts)"

section \<open>Layouts from storage-class parameters\<close>

text \<open>The block that consumes a positive number from the parameters, which
  \<open>takeVolumeLayoutFromParameters\<close> repeats for \<open>stripes\<close> and \<open>mirrors\<close>, and the one for
  \<open>nosync\<close>. The first component of the result is the error returned, if any.\<close>

definition take_positive ::
  "string \<Rightarrow> (uint64 \<Rightarrow> VolumeLayout \<Rightarrow> VolumeLayout) \<Rightarrow> VolumeLayout \<times> gomap option
     \<Rightarrow> goerr option \<times> VolumeLayout \<times> gomap option" where
  "take_positive key upd = (\<lambda>(layout, params).
     (case nget params key of
        None \<Rightarrow> (None, layout, params)
      | Some txt \<Rightarrow>
          (let params' = ndel key params;
               msg = ''The '' @ [CHR 0x27] @ key @ [CHR 0x27] @ '' parameter must be a positive integer: err=''
           in (case ParseUint txt of
                 Inl e \<Rightarrow> (Some (TextError (msg @ ParseUint_error_text txt e)), layout, params')
               | Inr n \<Rightarrow>
                   if n < 1 then (Some (TextError (msg @ ''<nil>'')), layout, params')
                   else (None, upd n layout, params')))))"

definition take_nosync ::
  "VolumeLayout \<times> gomap option \<Rightarrow> goerr option \<times> VolumeLayout \<times> gomap option" where
  "take_nosync = (\<lambda>(layout, params).
     (case nget params ''nosync'' of
        None \<Rightarrow> (None, layout, params)
      | Some v \<Rightarrow>
          (let params' = ndel ''nosync'' params
           in if ToLower v = ''yes'' \<or> ToLower v = ''y''
              then (None, layout\<lparr>Nosync := 1\<rparr>, params') else (None, layout, params'))))"

definition then_take ::
  "goerr option \<times> VolumeLayout \<times> gomap option
     \<Rightarrow> (VolumeLayout \<times> gomap option \<Rightarrow> goerr option \<times> VolumeLayout \<times> gomap option)
     \<Rightarrow> goerr option \<times> VolumeLayout \<times> gomap option" where
  "then_take r f = (case r of (Some e, lp) \<Rightarrow> (Some e, lp) | (None, lp) \<Rightarrow> f lp)"

abbreviation take_stripes where
  "take_stripes \<equiv> take_positive ''stripes'' (\<lambda>n l. l\<lparr>Stripes := n\<rparr>)"
abbreviation take_mirrors where
  "take_mirrors \<equiv> take_positive ''mirrors'' (\<lambda>n l. l\<lparr>Mirrors := n\<rparr>)"

definition bad_type_error :: goerr where
  "bad_type_error = TextError
     (let q = [CHR 0x27] in ''The '' @ q @ ''type'' @ q @ '' parameter must be one of '' @ q @ ''linear'' @ q
       @ '', '' @ q @ ''raid1'' @ q @ '', '' @ q @ ''raid5'' @ q @ '', '' @ q @ ''raid6'' @ q
       @ '' or '' @ q @ ''raid10'' @ q @ ''.'')"

definition takeVolumeLayoutFromParameters ::
  "gomap option \<Rightarrow> goerr option \<times> VolumeLayout \<times> gomap option" where
  "takeVolumeLayoutFromParameters params =
     (case nget params ''type'' of
        None \<Rightarrow> (None, zero_layout, params)
      | Some voltype \<Rightarrow>
          (let params = ndel ''type'' params in
           if voltype = ''linear'' then
             take_stripes (zero_layout\<lparr>Type := VolumeTypeLinear\<rparr>, params)
           else if voltype = ''raid1'' then
             then_take (take_mirrors (zero_layout\<lparr>Type := VolumeTypeRAID1\<rparr>, params)) take_nosync
           else if voltype = ''raid5'' then
             take_stripes (zero_layout\<lparr>Type := VolumeTypeRAID5\<rparr>, params)
           else if voltype = ''raid6'' then
             take_stripes (zero_layout\<lparr>Type := VolumeTypeRAID6\<rparr>, params)
           else if voltype = ''raid10'' then
             then_take (take_stripes (zero_layout\<lparr>Type := VolumeTypeRAID10\<rparr>, params)) take_nosync
           else (Some bad_type_error, zero_layout, params)))"

definition ignored_parameters :: "string list" where
  "ignored_parameters = [''datapath'', ''stolakejobfurls'', ''iopspergb'', ''mbpspergb'']"

definition volumeOptsFromParameters :: "gomap option \<Rightarrow> goerr + CreateLogicalVolumeOpt list" where
  "volumeOptsFromParameters inp =
     (case takeVolumeLayoutFromParameters (dupParams inp) of
        (Some e, _) \<Rightarrow> Inl e
      | (None, layout, params) \<Rightarrow>
          (let params' = fold ndel ignored_parameters params
           in if nkeys params' \<noteq> []
              then Inl (TextError (''Unexpected parameters: '' @ fmt_strings (nkeys params')))
              else Inr [VolumeLayoutOpt layout]))"

text \<open>The parameters a given type of layout consumes.\<close>

definition layout_keys :: "string \<Rightarrow> string set" where
  "layout_keys voltype =
     (if voltype \<in> {''linear'', ''raid5'', ''raid6''} then {''type'', ''stripes''}
      else if voltype = ''raid1'' then {''type'', ''mirrors'', ''nosync''}
      else {''type'', ''stripes'', ''nosync''})"

lemma take_positive_ok:
  "take_positive key upd (l, p) = (None, l', p') \<Longrightarrow>
     nget p' = (nget p)(key := None) \<and>
     (l' = l \<and> nget p key = None \<or> (\<exists>n. l' = upd n l \<and> n \<noteq> 0 \<and> nget p key \<noteq> None))"
  by (cases "nget p key")
     (auto simp: take_positive_def Let_def nget_ndel word_less_1 fun_eq_iff split: sum.splits if_splits)

lemma take_nosync_ok:
  "take_nosync (l, p) = (None, l', p') \<Longrightarrow>
     nget p' = (nget p)(''nosync'' := None) \<and> (l' = l \<or> l' = l\<lparr>Nosync := 1\<rparr>)"
  by (cases "nget p ''nosync''")
     (auto simp: take_nosync_def Let_def nget_ndel fun_eq_iff split: if_splits)

lemma then_take_ok:
  "then_take r f = (None, l', p') \<Longrightarrow> \<exists>l p. r = (None, l, p) \<and> f (l, p) = (None, l', p')"
  by (auto simp: then_take_def split: prod.splits option.splits)

lemmas take_ok_dests = take_positive_ok take_nosync_ok then_take_ok

lemma take_layout_ok:
  assumes "takeVolumeLayoutFromParameters p = (None, l, p')"
  shows "nget p' = (case nget p ''type'' of None \<Rightarrow> nget p
      | Some t \<Rightarrow> (\<lambda>k. if k \<in> layout_keys t then None else nget p k))"
    and "known_type (Type l)"
proof -
  have "nget p' = (case nget p ''type'' of None \<Rightarrow> nget p
      | Some t \<Rightarrow> (\<lambda>k. if k \<in> layout_keys t then None else nget p k)) \<and> known_type (Type l)"
  proof (cases "nget p ''type''")
    case None
    with assms show ?thesis
      by (auto simp: takeVolumeLayoutFromParameters_def zero_layout_def known_type_def)
  next
    case (Some t)
    consider "t = ''linear''" | "t = ''raid1''" | "t = ''raid5''" | "t = ''raid6''" | "t = ''raid10''"
      using assms Some by (auto simp: takeVolumeLayoutFromParameters_def Let_def split: if_splits)
    then show ?thesis
      using assms Some
      by cases (auto simp: takeVolumeLayoutFromParameters_def Let_def layout_keys_def known_type_def
          VolumeType_defs nget_ndel fun_eq_iff dest!: take_ok_dests)
  qed
  then show "nget p' = (case nget p ''type'' of None \<Rightarrow> nget p
      | Some t \<Rightarrow> (\<lambda>k. if k \<in> layout_keys t then None else nget p k))"
    and "known_type (Type l)" by blast+
qed

lemmas layout_eval =
  takeVolumeLayoutFromParameters_def dupParams_def take_positive_def take_nosync_def then_take_def
  map_get_def map_set_def map_del_def ParseUint_def digit_val_def Let_def VolumeType_defs
  zero_layout_def ToLower_def lower_char_def

lemma nget_fold_ndel: "nget (fold ndel ks p) = (\<lambda>k. if k \<in> set ks then None else nget p k)"
  by (induction ks arbitrary: p) (auto simp: nget_ndel fun_eq_iff)

text \<open>
  The creation options are accepted exactly when the layout parameters are, and every
  parameter is one the layout type consumes or one of the four that are ignored.\<close>

theorem volume_opts_accepted_iff:
  assumes "case inp of None \<Rightarrow> True | Some m \<Rightarrow> map_ok m"
  shows "(\<exists>opts. volumeOptsFromParameters inp = Inr opts) \<longleftrightarrow>
     fst (takeVolumeLayoutFromParameters (dupParams inp)) = None \<and>
     (\<forall>k. nget inp k \<noteq> None \<longrightarrow>
        k \<in> set ignored_parameters \<or>
        (\<exists>t. nget inp ''type'' = Some t \<and> k \<in> layout_keys t))"
proof -
  obtain e l p' where t: "takeVolumeLayoutFromParameters (dupParams inp) = (e, l, p')"
    by (cases "takeVolumeLayoutFromParameters (dupParams inp)") auto
  show ?thesis
  proof (cases e)
    case None
    have "(\<exists>opts. volumeOptsFromParameters inp = Inr opts) \<longleftrightarrow>
        nget (fold ndel ignored_parameters p') = Map.empty"
      by (simp add: volumeOptsFromParameters_def t None Let_def flip: nkeys_Nil_iff)
    also have "\<dots> \<longleftrightarrow> (\<forall>k. nget inp k \<noteq> None \<longrightarrow>
        k \<in> set ignored_parameters \<or> (\<exists>t. nget inp ''type'' = Some t \<and> k \<in> layout_keys t))"
      using take_layout_ok(1) [OF t [unfolded None]] nget_dupParams [OF assms]
      by (auto simp: nget_fold_ndel fun_eq_iff split: option.splits if_splits)
    finally show ?thesis using t None by simp
  next
    case (Some a)
    with t show ?thesis by (simp add: volumeOptsFromParameters_def)
  qed
qed

theorem volume_opts_accepted_iff_witness:
  "(\<exists>opts. volumeOptsFromParameters (Some [(''type'', ''raid1''), (''mirrors'', ''2'')]) = Inr opts) \<and>
   \<not> (\<exists>opts. volumeOptsFromParameters (Some [(''type'', ''raid1''), (''stripes'', ''2'')]) = Inr opts)"
proof -
  have a: "fst (takeVolumeLayoutFromParameters (dupParams (Some [(''type'', ''raid1''), (''mirrors'', ''2'')]))) = None"
    by (simp add: layout_eval)
  show ?thesis
    using volume_opts_accepted_iff [of "Some [(''type'', ''raid1''), (''mirrors'', ''2'')]"]
      volume_opts_accepted_iff [of "Some [(''type'', ''raid1''), (''stripes'', ''2'')]"] a
    by (auto simp: map_ok_def map_get_def layout_keys_def ignored_parameters_def)
qed

text \<open>
  A layout read from parameters has a known type, so none of the methods of
  \<open>VolumeLayout\<close> panics on it.\<close>

theorem parameter_layout_never_panics:
  assumes "takeVolumeLayoutFromParameters params = (None, layout, params')"
  shows "\<exists>fs n. Flags layout = Ret fs \<and> MinNumberOfDevices layout = Ret n"
  using take_layout_ok(2) [OF assms] Flags_panic_iff [of layout] MinNumberOfDevices_panic_iff [of layout]
  by (metis outcome.exhaust)

theorem parameter_layout_never_panics_witness:
  "\<exists>fs n. Flags (zero_layout\<lparr>Type := VolumeTypeRAID5, Stripes := 3\<rparr>) = Ret fs \<and>
     MinNumberOfDevices (zero_layout\<lparr>Type := VolumeTypeRAID5, Stripes := 3\<rparr>) = Ret n"
  by (rule parameter_layout_never_panics [where params = "Some [(''type'', ''raid5''), (''stripes'', ''3'')]"
        and params' = "Some []"]) (simp add: layout_eval)

end
