(* ===== verification/Json.thy ===== *)
theory Json
  imports GoFmt
begin

text \<open>
  Package encoding/json as far as the plugin relies on it: the reader of the reports that
  the LVM tools print with \<open>--reportformat=json\<close>, and \<open>json.Marshal\<close> of a slice of strings.
  The reader works on the bytes of the text; its fuel bounds the nesting of values, and the
  length of the text is always enough. The text of a syntax or type error is one constant:
  the code only ever passes it on.
\<close>

datatype json =
    JNull
  | JBool bool
  | JNum string
  | JStr string
  | JArr "json list"
  | JObj "(string \<times> json) list"

abbreviation char_quote :: char where "char_quote \<equiv> CHR 0x22"
abbreviation char_backslash :: char where "char_backslash \<equiv> CHR 0x5C"

section \<open>Strings\<close>

definition hex_val :: "char \<Rightarrow> nat option" where
  "hex_val c = (let n = of_char c :: nat in
     if 48 \<le> n \<and> n \<le> 57 then Some (n - 48)
     else if 97 \<le> n \<and> n \<le> 102 then Some (n - 87)
     else if 65 \<le> n \<and> n \<le> 70 then Some (n - 55) else None)"

fun hex4 :: "string \<Rightarrow> (nat \<times> string) option" where
  "hex4 (a # b # c # d # r) =
     (case (hex_val a, hex_val b, hex_val c, hex_val d) of
        (Some w, Some x, Some y, Some z) \<Rightarrow> Some (((w * 16 + x) * 16 + y) * 16 + z, r)
      | _ \<Rightarrow> None)"
| "hex4 _ = None"

definition utf8 :: "nat \<Rightarrow> string" where
  "utf8 n =
     (if n < 128 then [char_of n]
      else if n < 2048 then [char_of (192 + n div 64), char_of (128 + n mod 64)]
      else if n < 65536 then [char_of (224 + n div 4096), char_of (128 + n div 64 mod 64), char_of (128 + n mod 64)]
      else [char_of (240 + n div 262144), char_of (128 + n div 4096 mod 64),
            char_of (128 + n div 64 mod 64), char_of (128 + n mod 64)])"

text \<open>The escapes after a backslash: the bytes they stand for and the rest of the text.
  A surrogate pair is one code point, a lone surrogate becomes U+FFFD.\<close>

definition unescape_u :: "string \<Rightarrow> (string \<times> string) option" where
  "unescape_u s =
     (case hex4 s of
        None \<Rightarrow> None
      | Some (n, r) \<Rightarrow>
          if 55296 \<le> n \<and> n < 57344 then
            (case (if n < 56320 \<and> take 2 r = [char_backslash, CHR ''u''] then hex4 (drop 2 r) else None) of
               Some (m, r') \<Rightarrow>
                 if 56320 \<le> m \<and> m < 57344
                 then Some (utf8 (65536 + (n - 55296) * 1024 + (m - 56320)), r')
                 else Some (utf8 65533, r)
             | None \<Rightarrow> Some (utf8 65533, r))
          else Some (utf8 n, r))"

definition unescape :: "string \<Rightarrow> (string \<times> string) option" where
  "unescape s =
     (case s of
        [] \<Rightarrow> None
      | c # r \<Rightarrow>
          if c = char_quote \<or> c = char_backslash \<or> c = CHR ''/'' then Some ([c], r)
          else if c = CHR ''b'' then Some ([CHR 0x08], r)
          else if c = CHR ''f'' then Some ([CHR 0x0C], r)
          else if c = CHR ''n'' then Some ([CHR 0x0A], r)
          else if c = CHR ''r'' then Some ([CHR 0x0D], r)
          else if c = CHR ''t'' then Some ([CHR 0x09], r)
          else if c = CHR ''u'' then unescape_u r
          else None)"

lemma hex4_length: "hex4 s = Some (n, r) \<Longrightarrow> length r < length s"
  by (induction s rule: hex4.induct) (auto split: option.splits)

lemma unescape_u_length: "unescape_u s = Some (u, r) \<Longrightarrow> length r < length s"
  unfolding unescape_u_def
  by (auto split: option.splits if_splits dest!: hex4_length)

lemma unescape_length: "unescape s = Some (u, r) \<Longrightarrow> length r < length s"
  unfolding unescape_def
  by (auto split: list.splits if_splits dest: unescape_u_length)

text \<open>The body of a string literal, after the opening quote.\<close>

function json_string :: "string \<Rightarrow> (string \<times> string) option" where
  "json_string [] = None"
| "json_string (c # cs) =
     (if c = char_quote then Some ([], cs)
      else if c = char_backslash then
        (case unescape cs of
           None \<Rightarrow> None
         | Some (u, r) \<Rightarrow> map_option (\<lambda>(v, r'). (u @ v, r')) (json_string r))
      else if (of_char c :: nat) < 32 then None
      else map_option (\<lambda>(v, r'). (c # v, r')) (json_string cs))"
  by pat_completeness auto
termination
  by (relation "measure length") (auto dest: unescape_length)

lemma json_string_length: "json_string s = Some (v, r) \<Longrightarrow> length r < length s"
proof (induction s arbitrary: v r rule: json_string.induct)
  case (2 c cs)
  then show ?case
    by (auto split: if_splits option.splits dest!: unescape_length) (fastforce dest: less_trans)+
qed simp

section \<open>Values\<close>

definition is_digit :: "char \<Rightarrow> bool" where
  "is_digit c \<longleftrightarrow> digit_val c \<noteq> None"

definition number_char :: "char \<Rightarrow> bool" where
  "number_char c \<longleftrightarrow> is_digit c \<or> c = CHR ''-'' \<or> c = CHR ''+'' \<or> c = CHR ''.'' \<or> c = CHR ''e'' \<or> c = CHR ''E''"

definition opt_exponent :: "string \<Rightarrow> bool" where
  "opt_exponent s =
     (case s of
        [] \<Rightarrow> True
      | c # r \<Rightarrow> (c = CHR ''e'' \<or> c = CHR ''E'') \<and>
          (let ds = (case r of [] \<Rightarrow> [] | d # t \<Rightarrow> if d = CHR ''+'' \<or> d = CHR ''-'' then t else r)
           in ds \<noteq> [] \<and> list_all is_digit ds))"

definition opt_fraction :: "string \<Rightarrow> bool" where
  "opt_fraction s =
     (case s of
        [] \<Rightarrow> True
      | c # r \<Rightarrow>
          if c = CHR ''.'' then takeWhile is_digit r \<noteq> [] \<and> opt_exponent (dropWhile is_digit r)
          else opt_exponent s)"

definition valid_number :: "string \<Rightarrow> bool" where
  "valid_number s =
     (let t = (case s of c # r \<Rightarrow> if c = CHR ''-'' then r else s | [] \<Rightarrow> s)
      in (case t of
            [] \<Rightarrow> False
          | c # r \<Rightarrow>
              if c = CHR ''0'' then opt_fraction r
              else is_digit c \<and> opt_fraction (dropWhile is_digit r)))"

definition json_space :: "char \<Rightarrow> bool" where
  "json_space c \<longleftrightarrow> c = CHR '' '' \<or> c = CHR 0x09 \<or> c = CHR 0x0A \<or> c = CHR 0x0D"

definition skip :: "string \<Rightarrow> string" where
  "skip s = dropWhile json_space s"

definition json_scalar :: "string \<Rightarrow> (json \<times> string) option" where
  "json_scalar s =
     (if HasPrefix s ''true'' then Some (JBool True, drop 4 s)
      else if HasPrefix s ''false'' then Some (JBool False, drop 5 s)
      else if HasPrefix s ''null'' then Some (JNull, drop 4 s)
      else let n = takeWhile number_char s in
        if valid_number n then Some (JNum n, dropWhile number_char s) else None)"

fun json_value :: "nat \<Rightarrow> string \<Rightarrow> (json \<times> string) option"
  and json_elements :: "nat \<Rightarrow> string \<Rightarrow> (json list \<times> string) option"
  and json_members :: "nat \<Rightarrow> string \<Rightarrow> ((string \<times> json) list \<times> string) option" where
  "json_value 0 s = None"
| "json_value (Suc n) s =
     (case skip s of
        [] \<Rightarrow> None
      | c # cs \<Rightarrow>
          if c = CHR ''{'' then
            (case skip cs of
               [] \<Rightarrow> None
             | d # ds \<Rightarrow> if d = CHR ''}'' then Some (JObj [], ds)
                 else map_option (\<lambda>(kvs, r). (JObj kvs, r)) (json_members n (d # ds)))
          else if c = CHR ''['' then
            (case skip cs of
               [] \<Rightarrow> None
             | d # ds \<Rightarrow> if d = CHR '']'' then Some (JArr [], ds)
                 else map_option (\<lambda>(vs, r). (JArr vs, r)) (json_elements n (d # ds)))
          else if c = char_quote then map_option (\<lambda>(v, r). (JStr v, r)) (json_string cs)
          else json_scalar (c # cs))"
| "json_elements 0 s = None"
| "json_elements (Suc n) s =
     (case json_value n s of
        None \<Rightarrow> None
      | Some (v, r) \<Rightarrow>
          (case skip r of
             [] \<Rightarrow> None
           | c # cs \<Rightarrow>
               if c = CHR '','' then map_option (\<lambda>(vs, r'). (v # vs, r')) (json_elements n cs)
               else if c = CHR '']'' then Some ([v], cs) else None))"
| "json_members 0 s = None"
| "json_members (Suc n) s =
     (case skip s of
        [] \<Rightarrow> None
      | q # ks \<Rightarrow>
          if q \<noteq> char_quote then None
          else (case json_string ks of
            None \<Rightarrow> None
          | Some (k, r) \<Rightarrow>
              (case skip r of
                 [] \<Rightarrow> None
               | d # ds \<Rightarrow>
                   if d \<noteq> CHR '':'' then None
                   else (case json_value n ds of
                     None \<Rightarrow> None
                   | Some (v, r') \<Rightarrow>
                       (case skip r' of
                          [] \<Rightarrow> None
                        | c # cs \<Rightarrow>
                            if c = CHR '','' then map_option (\<lambda>(kvs, t). ((k, v) # kvs, t)) (json_members n cs)
                            else if c = CHR ''}'' then Some ([(k, v)], cs) else None)))))"

definition json_parse :: "string \<Rightarrow> json option" where
  "json_parse s =
     (case json_value (Suc (length s)) s of
        Some (v, r) \<Rightarrow> if skip r = [] then Some v else None
      | None \<Rightarrow> None)"

section \<open>Unmarshalling into a struct\<close>

definition json_error :: string where
  "json_error = ''json: cannot unmarshal''"

type_synonym 'a unmarshal = "json \<Rightarrow> 'a \<Rightarrow> string + 'a"

text \<open>A \<open>string\<close> field and a \<open>uint64\<close> field with the \<open>,string\<close> option; \<open>null\<close> leaves a field alone.\<close>

definition um_string :: "string unmarshal" where
  "um_string j old = (case j of JStr s \<Rightarrow> Inr s | JNull \<Rightarrow> Inr old | _ \<Rightarrow> Inl json_error)"

definition um_uint64_string :: "uint64 unmarshal" where
  "um_uint64_string j old =
     (case j of
        JNull \<Rightarrow> Inr old
      | JStr s \<Rightarrow> if s = ''null'' then Inr old
          else (case ParseUint s of Inl _ \<Rightarrow> Inl json_error | Inr w \<Rightarrow> Inr w)
      | _ \<Rightarrow> Inl json_error)"

text \<open>A slice field, and an object whose members update the fields of a struct.\<close>

fun um_elements :: "(json \<Rightarrow> string + 'a) \<Rightarrow> json list \<Rightarrow> string + 'a list" where
  "um_elements f [] = Inr []"
| "um_elements f (j # js) =
     (case f j of Inl e \<Rightarrow> Inl e
      | Inr x \<Rightarrow> (case um_elements f js of Inl e \<Rightarrow> Inl e | Inr xs \<Rightarrow> Inr (x # xs)))"

definition um_slice :: "(json \<Rightarrow> string + 'a) \<Rightarrow> 'a list unmarshal" where
  "um_slice f j old =
     (case j of JArr js \<Rightarrow> um_elements f js | JNull \<Rightarrow> Inr [] | _ \<Rightarrow> Inl json_error)"

fun um_members :: "(string \<Rightarrow> json \<Rightarrow> 'a \<Rightarrow> string + 'a) \<Rightarrow> (string \<times> json) list \<Rightarrow> 'a \<Rightarrow> string + 'a" where
  "um_members f [] x = Inr x"
| "um_members f ((k, j) # r) x =
     (case f (ToLower k) j x of Inl e \<Rightarrow> Inl e | Inr x' \<Rightarrow> um_members f r x')"

definition um_struct :: "(string \<Rightarrow> json \<Rightarrow> 'a \<Rightarrow> string + 'a) \<Rightarrow> 'a unmarshal" where
  "um_struct f j x =
     (case j of JObj kvs \<Rightarrow> um_members f kvs x | JNull \<Rightarrow> Inr x | _ \<Rightarrow> Inl json_error)"

definition Unmarshal :: "'a unmarshal \<Rightarrow> string \<Rightarrow> 'a \<Rightarrow> string + 'a" where
  "Unmarshal um buf x = (case json_parse buf of None \<Rightarrow> Inl json_error | Some j \<Rightarrow> um j x)"

section \<open>json.Marshal of a slice of strings\<close>

definition escape_char :: "char \<Rightarrow> string" where
  "escape_char c =
     (let n = of_char c :: nat in
      if c = char_quote \<or> c = char_backslash then [char_backslash, c]
      else if n = 10 then [char_backslash, CHR ''n'']
      else if n = 13 then [char_backslash, CHR ''r'']
      else if n = 9 then [char_backslash, CHR ''t'']
      else if n < 32 \<or> c = CHR ''<'' \<or> c = CHR ''>'' \<or> c = CHR ''&''
        then [char_backslash, CHR ''u'', CHR ''0'', CHR ''0''] @ hex2 n
      else [c])"

definition marshal_string :: "string \<Rightarrow> string" where
  "marshal_string s = char_quote # concat (map escape_char s) @ [char_quote]"

definition Marshal_strings :: "string list \<Rightarrow> string" where
  "Marshal_strings xs = ''['' @ Join (map marshal_string xs) '','' @ '']''"

definition ascii :: "string \<Rightarrow> bool" where
  "ascii s \<longleftrightarrow> list_all (\<lambda>c. (of_char c :: nat) < 128) s"

definition strings_of_json :: "json \<Rightarrow> string list option" where
  "strings_of_json j =
     (case j of JArr js \<Rightarrow>
        those (map (\<lambda>v. case v of JStr s \<Rightarrow> Some s | _ \<Rightarrow> None) js) | _ \<Rightarrow> None)"

text \<open>Reading back what \<open>Marshal\<close> wrote.\<close>

lemma hex_val_digit_char: "d < 16 \<Longrightarrow> hex_val (digit_char d) = Some d"
  by (simp add: hex_val_def digit_char_def)

lemma hex4_hex2:
  assumes "n < 256"
  shows "hex4 (CHR ''0'' # CHR ''0'' # hex2 n @ t) = Some (n, t)"
proof -
  from assms have "n div 16 < 16" by simp
  moreover have "hex_val (CHR ''0'') = Some 0" by (simp add: hex_val_def)
  ultimately show ?thesis by (simp add: hex2_def hex_val_digit_char)
qed

lemma unescape_hex2: "n < 128 \<Longrightarrow> unescape (CHR ''u'' # CHR ''0'' # CHR ''0'' # hex2 n @ t) = Some ([char_of n], t)"
  by (simp add: unescape_def unescape_u_def hex4_hex2 utf8_def)

lemma control_chars:
  "char_of (10 :: nat) = CHR 0x0A" "char_of (13 :: nat) = CHR 0x0D" "char_of (9 :: nat) = CHR 0x09"
  by code_simp+

lemma json_string_escape_char:
  assumes "(of_char c :: nat) < 128"
  shows "json_string (escape_char c @ t) = map_option (\<lambda>(v, r). (c # v, r)) (json_string t)"
proof -
  define n where "n = (of_char c :: nat)"
  have c: "c = char_of n" by (simp add: n_def)
  consider "c = char_quote \<or> c = char_backslash" | "n = 10" | "n = 13" | "n = 9"
    | "c \<noteq> char_quote \<and> c \<noteq> char_backslash \<and> n \<noteq> 10 \<and> n \<noteq> 13 \<and> n \<noteq> 9 \<and>
        (n < 32 \<or> c = CHR ''<'' \<or> c = CHR ''>'' \<or> c = CHR ''&'')"
    | "c \<noteq> char_quote \<and> c \<noteq> char_backslash \<and> n \<ge> 32 \<and> c \<noteq> CHR ''<'' \<and> c \<noteq> CHR ''>'' \<and> c \<noteq> CHR ''&''"
    by linarith
  then show ?thesis
  proof cases
    case 5
    then have "escape_char c = char_backslash # CHR ''u'' # CHR ''0'' # CHR ''0'' # hex2 n"
      by (simp add: escape_char_def Let_def n_def)
    then show ?thesis
      using assms by (simp add: unescape_hex2 n_def)
  next
    case 6
    then have "escape_char c = [c]" by (simp add: escape_char_def Let_def n_def)
    with 6 show ?thesis by (simp add: n_def)
  qed (auto simp: escape_char_def unescape_def c Let_def control_chars)
qed

lemma json_string_escape:
  "ascii s \<Longrightarrow> json_string (concat (map escape_char s) @ char_quote # r) = Some (s, r)"
  by (induction s) (auto simp: ascii_def json_string_escape_char simp del: json_string.simps(2), simp)

lemma skip_marshal [simp]: "skip (marshal_string s @ t) = marshal_string s @ t"
  by (simp add: skip_def marshal_string_def json_space_def)

lemma json_value_marshal:
  "ascii s \<Longrightarrow> json_value (Suc n) (marshal_string s @ t) = Some (JStr s, t)"
  by (simp add: marshal_string_def skip_def json_space_def json_string_escape)

lemma json_elements_marshal:
  "xs \<noteq> [] \<Longrightarrow> list_all ascii xs \<Longrightarrow> length xs < n \<Longrightarrow>
   json_elements n (Join (map marshal_string xs) '','' @ CHR '']'' # r) = Some (map JStr xs, r)"
proof (induction xs arbitrary: n rule: induct_list012)
  case (2 x)
  then obtain m where "n = Suc (Suc m)" by (cases n; cases "n - 1") auto
  with 2 show ?case by (simp add: json_value_marshal skip_def json_space_def del: json_value.simps)
next
  case (3 x y zs)
  then obtain m where n: "n = Suc (Suc m)" by (cases n; cases "n - 1") auto
  let ?rest = "Join (map marshal_string (y # zs)) '','' @ CHR '']'' # r"
  have "json_elements (Suc m) ?rest = Some (map JStr (y # zs), r)"
    using 3 n by (intro "3.IH"(2)) auto
  moreover have "json_elements n (marshal_string x @ CHR '','' # ?rest)
      = map_option (\<lambda>(vs, r'). (JStr x # vs, r')) (json_elements (Suc m) ?rest)"
    using 3 unfolding n by (subst json_elements.simps(2), subst json_value_marshal)
      (auto simp: skip_def json_space_def)
  ultimately show ?case by simp
qed simp

lemma Join_marshal_Cons: "\<exists>t. Join (map marshal_string (x # xs)) '','' @ r = char_quote # t"
  by (cases xs) (auto simp: marshal_string_def)

lemma length_Join_marshal: "2 * length xs \<le> length (Join (map marshal_string xs) '','')"
  by (induction xs rule: induct_list012) (auto simp: marshal_string_def)

lemma json_parse_Marshal_strings:
  assumes "list_all ascii xs"
  shows "json_parse (Marshal_strings xs) = Some (JArr (map JStr xs))"
proof (cases xs)
  case Nil
  then show ?thesis by (simp add: Marshal_strings_def json_parse_def skip_def json_space_def)
next
  case (Cons x ys)
  let ?body = "Join (map marshal_string xs) '',''"
  obtain t where t: "?body @ '']'' = char_quote # t" using Join_marshal_Cons Cons by blast
  have el: "json_elements (length (Marshal_strings xs)) (?body @ '']'') = Some (map JStr xs, [])"
    using assms Cons length_Join_marshal [of xs]
    by (intro json_elements_marshal) (auto simp: Marshal_strings_def)
  have "json_value (Suc (length (Marshal_strings xs))) (Marshal_strings xs) = Some (JArr (map JStr xs), [])"
    using el by (simp add: Marshal_strings_def t skip_def json_space_def)
  then show ?thesis by (simp add: json_parse_def skip_def)
qed

lemma those_JStr: "those (map ((\<lambda>v. case v of JStr s \<Rightarrow> Some s | _ \<Rightarrow> None) \<circ> JStr) xs) = Some xs"
  by (induction xs) auto

definition Unmarshal_strings :: "string \<Rightarrow> string list option" where
  "Unmarshal_strings s = Option.bind (json_parse s) strings_of_json"

interpretation json_strings: codec "list_all ascii" Marshal_strings Unmarshal_strings
  by unfold_locales (simp add: Unmarshal_strings_def json_parse_Marshal_strings strings_of_json_def those_JStr)

end
