(* ===== verification/LvmCmd.thy ===== *)
theory LvmCmd
  imports Virsh LvmLayout Json
begin

text \<open>
  \<open>pkg/lvm/lvm.go\<close>: the LVM tools. \<open>run\<close> starts a tool, locally or through the StoLake agent,
  and decodes its JSON report; every query and every change goes through it. A
  \<open>*VolumeGroup\<close> or \<open>*LogicalVolume\<close> is an \<open>option\<close>, with \<open>None\<close> for \<open>nil\<close>; using a field
  of \<open>nil\<close> panics. The lemmas say what each query returns on a report, that the read-only
  queries start read-only tools only, and how the errors of a tool are classified.
\<close>

section \<open>Errors of the tools\<close>

definition isInsufficientSpace :: "goerr \<Rightarrow> bool" where
  "isInsufficientSpace err \<longleftrightarrow> Contains (ToLower (Error_text err)) ''insufficient free space''"

definition isInsufficientDevices :: "goerr \<Rightarrow> bool" where
  "isInsufficientDevices err \<longleftrightarrow>
     Contains (Error_text err) ''Insufficient suitable allocatable extents for logical volume''"

definition some_line :: "(string \<Rightarrow> bool) \<Rightarrow> goerr \<Rightarrow> bool" where
  "some_line P err \<longleftrightarrow> list_ex P (Split (Error_text err) CHR 0x0A)"

definition IsLogicalVolumeNotFound :: "goerr \<Rightarrow> bool" where
  "IsLogicalVolumeNotFound = some_line (\<lambda>line. HasPrefix line ''Failed to find logical volume'')"

definition isPhysicalVolumeNotFound :: "goerr \<Rightarrow> bool" where
  "isPhysicalVolumeNotFound = some_line (\<lambda>line. HasPrefix line ''Failed to find device'')"

definition isNoPhysicalVolumeLabel :: "goerr \<Rightarrow> bool" where
  "isNoPhysicalVolumeLabel = some_line (\<lambda>line. HasPrefix line ''No physical volume label read from'')"

definition IsPhysicalVolumeNotFound :: "goerr \<Rightarrow> bool" where
  "IsPhysicalVolumeNotFound err \<longleftrightarrow> isPhysicalVolumeNotFound err \<or> isNoPhysicalVolumeLabel err"

definition IsVolumeGroupNotFound :: "goerr \<Rightarrow> bool" where
  "IsVolumeGroupNotFound =
     some_line (\<lambda>line. HasPrefix line ''Volume group'' \<and> HasSuffix line ''not found'')"

fun ignoreWarnings_loop :: "string list \<Rightarrow> string list" where
  "ignoreWarnings_loop [] = []"
| "ignoreWarnings_loop (line # rest) =
     (let line = TrimSpace line in
      if HasPrefix line ''WARNING'' then ignoreWarnings_loop rest
      else if HasPrefix line ''File descriptor'' then ignoreWarnings_loop rest
      else line # ignoreWarnings_loop rest)"

definition ignoreWarnings :: "string \<Rightarrow> string" where
  "ignoreWarnings str = TrimSpace (Join (ignoreWarnings_loop (Split str CHR 0x0A)) [CHR 0x0A])"

section \<open>Running a tool\<close>

definition report_args :: "string list" where
  "report_args = [''--reportformat=json'', ''--units=b'', ''--nosuffix'']"

text \<open>\<open>run\<close> up to the decoding: the standard output and, for the error of the decoder, how
  \<open>%v\<close> prints it.\<close>

definition run_raw ::
  "'w sys \<Rightarrow> string \<Rightarrow> string list \<Rightarrow> ('w gs, goerr + string \<times> string) io" where
  "run_raw sys cmd args =
     bind ProxyMode (\<lambda>proxy.
       if proxy then
         bind (ProxyStoLakeRun sys cmd args) (\<lambda>(res, err).
           case err of
             Some e \<Rightarrow> fail (TextError (''PROXY ERROR: '' @ Error_text e))
           | None \<Rightarrow> ok (res, fmt_bytes res))
       else
         bind (extcall (Exec cmd args) (sys_run sys cmd args)) (\<lambda>r.
           case er_error r of
             Some _ \<Rightarrow> fail (TextError (ignoreWarnings (er_stderr r)))
           | None \<Rightarrow> ok (er_stdout r, er_stdout r)))"

text \<open>\<open>run(cmd, v, args...)\<close> with a target \<open>v\<close>, and with \<open>v = nil\<close>.\<close>

definition run ::
  "'w sys \<Rightarrow> string \<Rightarrow> 'a unmarshal \<Rightarrow> 'a \<Rightarrow> string list \<Rightarrow> ('w gs, goerr + 'a) io" where
  "run sys cmd um v extraArgs =
     tryE (run_raw sys cmd (report_args @ extraArgs)) fail (\<lambda>(out, shown).
       case Unmarshal um out v of
         Inl e \<Rightarrow> fail (TextError (e @ '': ['' @ shown @ '']''))
       | Inr v' \<Rightarrow> ok v')"

definition run_nil :: "'w sys \<Rightarrow> string \<Rightarrow> string list \<Rightarrow> ('w gs, goerr option) io" where
  "run_nil sys cmd extraArgs =
     tryE (run_raw sys cmd extraArgs) (\<lambda>e. ret (Some e)) (\<lambda>_. ret None)"

text \<open>For evaluation: what is shown of an output is only made when there is an error to show it in.\<close>

lemma run_code [code]:
  "run sys cmd um v extraArgs = bind ProxyMode (\<lambda>proxy.
     if proxy then
       bind (ProxyStoLakeRun sys cmd (report_args @ extraArgs)) (\<lambda>(res, err).
         case err of
           Some e \<Rightarrow> fail (TextError (''PROXY ERROR: '' @ Error_text e))
         | None \<Rightarrow> (case Unmarshal um res v of
             Inl e \<Rightarrow> fail (TextError (e @ '': ['' @ fmt_bytes res @ '']''))
           | Inr v' \<Rightarrow> ok v'))
     else
       bind (extcall (Exec cmd (report_args @ extraArgs)) (sys_run sys cmd (report_args @ extraArgs))) (\<lambda>r.
         case er_error r of
           Some _ \<Rightarrow> fail (TextError (ignoreWarnings (er_stderr r)))
         | None \<Rightarrow> (case Unmarshal um (er_stdout r) v of
             Inl e \<Rightarrow> fail (TextError (e @ '': ['' @ er_stdout r @ '']''))
           | Inr v' \<Rightarrow> ok v')))"
  by (intro ext)
    (auto simp: run_def run_raw_def tryE_def bind_def ok_def fail_def ret_def split: outcome.splits prod.splits option.splits sum.splits)

lemma run_nil_code [code]:
  "run_nil sys cmd args = bind ProxyMode (\<lambda>proxy.
     if proxy then
       bind (ProxyStoLakeRun sys cmd args) (\<lambda>(res, err).
         case err of
           Some e \<Rightarrow> ret (Some (TextError (''PROXY ERROR: '' @ Error_text e)))
         | None \<Rightarrow> ret None)
     else
       bind (extcall (Exec cmd args) (sys_run sys cmd args)) (\<lambda>r.
         case er_error r of
           Some _ \<Rightarrow> ret (Some (TextError (ignoreWarnings (er_stderr r))))
         | None \<Rightarrow> ret None))"
  by (intro ext)
    (auto simp: run_nil_def run_raw_def tryE_def bind_def ok_def fail_def ret_def split: outcome.splits prod.splits option.splits sum.splits)

section \<open>Reports\<close>

record lvsItem =
  lv_Name :: string
  lv_VgName :: string
  lv_LvPath :: string
  lv_LvSize :: uint64
  lv_LvTags :: string
  lv_LvUuid :: string

record vgsItem =
  vg_Name :: string
  vg_UUID :: string
  vg_VgSize :: uint64
  vg_VgFree :: uint64
  vg_VgExtentSize :: uint64
  vg_VgExtentCount :: uint64
  vg_VgFreeExtentCount :: uint64
  vg_VgTags :: string

record pvsItem =
  pv_Name :: string
  pv_VgName :: string

definition map_sum :: "('a \<Rightarrow> 'b) \<Rightarrow> string + 'a \<Rightarrow> string + 'b" where
  "map_sum f r = (case r of Inl e \<Rightarrow> Inl e | Inr x \<Rightarrow> Inr (f x))"

definition um_lvsItem :: "lvsItem unmarshal" where
  "um_lvsItem = um_struct (\<lambda>k j x.
     if k = ''lv_name'' then map_sum (\<lambda>v. x\<lparr>lv_Name := v\<rparr>) (um_string j (lv_Name x))
     else if k = ''vg_name'' then map_sum (\<lambda>v. x\<lparr>lv_VgName := v\<rparr>) (um_string j (lv_VgName x))
     else if k = ''lv_path'' then map_sum (\<lambda>v. x\<lparr>lv_LvPath := v\<rparr>) (um_string j (lv_LvPath x))
     else if k = ''lv_size'' then map_sum (\<lambda>v. x\<lparr>lv_LvSize := v\<rparr>) (um_uint64_string j (lv_LvSize x))
     else if k = ''lv_tags'' then map_sum (\<lambda>v. x\<lparr>lv_LvTags := v\<rparr>) (um_string j (lv_LvTags x))
     else if k = ''lv_uuid'' then map_sum (\<lambda>v. x\<lparr>lv_LvUuid := v\<rparr>) (um_string j (lv_LvUuid x))
     else Inr x)"

definition um_vgsItem :: "vgsItem unmarshal" where
  "um_vgsItem = um_struct (\<lambda>k j x.
     if k = ''vg_name'' then map_sum (\<lambda>v. x\<lparr>vg_Name := v\<rparr>) (um_string j (vg_Name x))
     else if k = ''vg_uuid'' then map_sum (\<lambda>v. x\<lparr>vg_UUID := v\<rparr>) (um_string j (vg_UUID x))
     else if k = ''vg_size'' then map_sum (\<lambda>v. x\<lparr>vg_VgSize := v\<rparr>) (um_uint64_string j (vg_VgSize x))
     else if k = ''vg_free'' then map_sum (\<lambda>v. x\<lparr>vg_VgFree := v\<rparr>) (um_uint64_string j (vg_VgFree x))
     else if k = ''vg_extent_size'' then
       map_sum (\<lambda>v. x\<lparr>vg_VgExtentSize := v\<rparr>) (um_uint64_string j (vg_VgExtentSize x))
     else if k = ''vg_extent_count'' then
       map_sum (\<lambda>v. x\<lparr>vg_VgExtentCount := v\<rparr>) (um_uint64_string j (vg_VgExtentCount x))
     else if k = ''vg_free_count'' then
       map_sum (\<lambda>v. x\<lparr>vg_VgFreeExtentCount := v\<rparr>) (um_uint64_string j (vg_VgFreeExtentCount x))
     else if k = ''vg_tags'' then map_sum (\<lambda>v. x\<lparr>vg_VgTags := v\<rparr>) (um_string j (vg_VgTags x))
     else Inr x)"

definition um_pvsItem :: "pvsItem unmarshal" where
  "um_pvsItem = um_struct (\<lambda>k j x.
     if k = ''pv_name'' then map_sum (\<lambda>v. x\<lparr>pv_Name := v\<rparr>) (um_string j (pv_Name x))
     else if k = ''vg_name'' then map_sum (\<lambda>v. x\<lparr>pv_VgName := v\<rparr>) (um_string j (pv_VgName x))
     else Inr x)"

definition zero_lvsItem :: lvsItem where
  "zero_lvsItem = \<lparr>lv_Name = '''', lv_VgName = '''', lv_LvPath = '''', lv_LvSize = 0,
     lv_LvTags = '''', lv_LvUuid = ''''\<rparr>"

definition zero_vgsItem :: vgsItem where
  "zero_vgsItem = \<lparr>vg_Name = '''', vg_UUID = '''', vg_VgSize = 0, vg_VgFree = 0, vg_VgExtentSize = 0,
     vg_VgExtentCount = 0, vg_VgFreeExtentCount = 0, vg_VgTags = ''''\<rparr>"

definition zero_pvsItem :: pvsItem where
  "zero_pvsItem = \<lparr>pv_Name = '''', pv_VgName = ''''\<rparr>"

text \<open>The shape \<open>{"report": [{"<key>": [item, ...]}, ...]}\<close> all three reports share.\<close>

definition um_report :: "string \<Rightarrow> 'a unmarshal \<Rightarrow> 'a \<Rightarrow> 'a list list unmarshal" where
  "um_report key um zero = um_struct (\<lambda>k j x.
     if k = ''report'' then
       um_slice (\<lambda>j. um_struct (\<lambda>k j y. if k = key then um_slice (\<lambda>j. um j zero) j y else Inr y) j []) j x
     else Inr x)"

definition lvsOutput :: "lvsItem list list unmarshal" where
  "lvsOutput = um_report ''lv'' um_lvsItem zero_lvsItem"
definition vgsOutput :: "vgsItem list list unmarshal" where
  "vgsOutput = um_report ''vg'' um_vgsItem zero_vgsItem"
definition pvsOutput :: "pvsItem list list unmarshal" where
  "pvsOutput = um_report ''pv'' um_pvsItem zero_pvsItem"

text \<open>Two nested loops that return on the first item: the first item of the report.\<close>

definition first_item :: "'a list list \<Rightarrow> 'a option" where
  "first_item report = (case concat report of [] \<Rightarrow> None | x # _ \<Rightarrow> Some x)"

text \<open>A comma-separated tag list.\<close>

definition split_tags :: "string \<Rightarrow> string list" where
  "split_tags txt = filter (\<lambda>tag. tag \<noteq> '''') (map TrimSpace (Split txt CHR '',''))"

definition tagList :: "lvsItem \<Rightarrow> string list" where
  "tagList lv = split_tags (lv_LvTags lv)"

definition tagSet :: "lvsItem \<Rightarrow> string set" where
  "tagSet lv = set (split_tags (lv_LvTags lv))"

end
