(* ===== verification/Lvm.thy ===== *)
theory Lvm
  imports LvmCmd LvmNames
begin

text \<open>
  The objects of \<open>pkg/lvm/lvm.go\<close> and their methods. A pointer is an \<open>option\<close>, \<open>None\<close> for
  \<open>nil\<close>; a method that reads a field of a \<open>nil\<close> receiver panics. Every query runs a tool,
  turns the tool's "not found" message into the package's error and takes the first item of
  the report: the locale \<open>first_item_query\<close> states this contract once, and it is interpreted
  on each query of the package.
\<close>

record VolumeGroup =
  vgroup_name :: string

record LogicalVolume =
  lvol_name :: string
  lvol_sizeInBytes :: uint64
  lvol_vg :: "VolumeGroup option"

record PhysicalVolume =
  pvol_dev :: string

definition deref :: "'a option \<Rightarrow> ('a \<Rightarrow> ('s, 'b) io) \<Rightarrow> ('s, 'b) io" where
  "deref p f = (case p of None \<Rightarrow> panic nil_deref | Some x \<Rightarrow> f x)"

lemma deref_Some [io_simps]: "deref (Some x) f = f x" by (simp add: deref_def)
lemma deref_None [io_simps]: "deref None f = panic nil_deref" by (simp add: deref_def)

lemma emits_deref [emits_intros]: "(\<And>x. emits P (f x)) \<Longrightarrow> emits P (deref p f)"
  unfolding deref_def by (intro emits_intros)

text \<open>\<open>lv.vg.name + "/" + lv.name\<close>, the name of a logical volume for the tools.\<close>

definition with_lv_path :: "LogicalVolume \<Rightarrow> (string \<Rightarrow> ('s, 'a) io) \<Rightarrow> ('s, 'a) io" where
  "with_lv_path lv f = deref (lvol_vg lv) (\<lambda>g. f (vgroup_name g @ ''/'' @ lvol_name lv))"

section \<open>Queries\<close>

definition query ::
  "'w sys \<Rightarrow> string \<Rightarrow> 'i list list unmarshal \<Rightarrow> (goerr \<Rightarrow> bool) \<Rightarrow> goerr \<Rightarrow> string list
     \<Rightarrow> ('i \<Rightarrow> ('w gs, goerr + 'a) io) \<Rightarrow> ('w gs, goerr + 'a) io" where
  "query sys cmd um is_not_found not_found args f =
     tryE (run sys cmd um [] args)
       (\<lambda>err. if is_not_found err then fail not_found else fail err)
       (\<lambda>report. case first_item report of None \<Rightarrow> fail not_found | Some x \<Rightarrow> f x)"

abbreviation vg_query where
  "vg_query sys \<equiv> query sys ''vgs'' vgsOutput IsVolumeGroupNotFound ErrVolumeGroupNotFound"
abbreviation lv_query where
  "lv_query sys \<equiv> query sys ''lvs'' lvsOutput IsLogicalVolumeNotFound ErrLogicalVolumeNotFound"

subsection \<open>Volume groups\<close>

definition Check_pv :: "'w sys \<Rightarrow> PhysicalVolume \<Rightarrow> ('w gs, goerr option) io" where
  "Check_pv sys pv = run_nil sys ''pvck'' [pvol_dev pv]"

definition Remove_pv :: "'w sys \<Rightarrow> PhysicalVolume \<Rightarrow> ('w gs, goerr option) io" where
  "Remove_pv sys pv = run_nil sys ''pvremove'' [pvol_dev pv]"

definition Check_vg :: "'w sys \<Rightarrow> VolumeGroup option \<Rightarrow> ('w gs, goerr option) io" where
  "Check_vg sys vg = deref vg (\<lambda>g. run_nil sys ''vgck'' [vgroup_name g])"

definition Remove_vg :: "'w sys \<Rightarrow> VolumeGroup option \<Rightarrow> ('w gs, goerr option) io" where
  "Remove_vg sys vg = deref vg (\<lambda>g. run_nil sys ''vgremove'' [''-f'', vgroup_name g])"

definition BytesTotal :: "'w sys \<Rightarrow> VolumeGroup option \<Rightarrow> ('w gs, goerr + uint64) io" where
  "BytesTotal sys vg = deref vg (\<lambda>g.
     vg_query sys [''--options=vg_size'', vgroup_name g] (\<lambda>item. ok (vg_VgSize item)))"

definition ExtentSize :: "'w sys \<Rightarrow> VolumeGroup option \<Rightarrow> ('w gs, goerr + uint64) io" where
  "ExtentSize sys vg = deref vg (\<lambda>g.
     vg_query sys [''--options=vg_extent_size'', vgroup_name g] (\<lambda>item. ok (vg_VgExtentSize item)))"

definition ExtentCount :: "'w sys \<Rightarrow> VolumeGroup option \<Rightarrow> ('w gs, goerr + uint64) io" where
  "ExtentCount sys vg = deref vg (\<lambda>g.
     vg_query sys [''--options=vg_extent_count'', vgroup_name g] (\<lambda>item. ok (vg_VgExtentCount item)))"

definition ListPhysicalVolumeNames ::
  "'w sys \<Rightarrow> VolumeGroup option \<Rightarrow> ('w gs, goerr + string list) io" where
  "ListPhysicalVolumeNames sys vg =
     tryE (run sys ''pvs'' pvsOutput [] [''--options=pv_name,vg_name'']) fail (\<lambda>report.
       if concat report = [] then ok []
       else deref vg (\<lambda>g. ok (map pv_Name (filter (\<lambda>pv. pv_VgName pv = vgroup_name g) (concat report)))))"

text \<open>\<open>len(pvnames) < int(raid.MinNumberOfDevices())\<close>: the comparison is on signed integers.\<close>

definition too_few_devices :: "string list \<Rightarrow> uint64 \<Rightarrow> bool" where
  "too_few_devices pvnames n \<longleftrightarrow> int (length pvnames) < sint n"

definition BytesFree :: "'w sys \<Rightarrow> VolumeGroup option \<Rightarrow> VolumeLayout \<Rightarrow> ('w gs, goerr + uint64) io" where
  "BytesFree sys vg raid =
     tryE (ListPhysicalVolumeNames sys vg) fail (\<lambda>pvnames.
     bind (lift_outcome (MinNumberOfDevices raid)) (\<lambda>n.
     if too_few_devices pvnames n then ok 0
     else deref vg (\<lambda>g.
       vg_query sys [''--options=vg_free,vg_free_count,vg_extent_size'', vgroup_name g] (\<lambda>item.
         bind (lift_outcome (extentsFree raid (vg_VgFreeExtentCount item))) (\<lambda>e.
           ok (e * vg_VgExtentSize item))))))"

definition ExtentFreeCount :: "'w sys \<Rightarrow> VolumeGroup option \<Rightarrow> VolumeLayout \<Rightarrow> ('w gs, goerr + uint64) io" where
  "ExtentFreeCount sys vg raid =
     tryE (ListPhysicalVolumeNames sys vg) fail (\<lambda>pvnames.
     bind (lift_outcome (MinNumberOfDevices raid)) (\<lambda>n.
     if too_few_devices pvnames n then ok 0
     else deref vg (\<lambda>g.
       vg_query sys [''--options=vg_free_count,vg_extent_size'', vgroup_name g] (\<lambda>item.
         bind (lift_outcome (extentsFree raid (vg_VgFreeExtentCount item))) ok))))"

definition Tags_vg :: "'w sys \<Rightarrow> VolumeGroup option \<Rightarrow> ('w gs, goerr + string list) io" where
  "Tags_vg sys vg = deref vg (\<lambda>g.
     vg_query sys [''--options=vg_tags'', vgroup_name g] (\<lambda>item. ok (split_tags (vg_VgTags item))))"

definition ListLogicalVolumeNames ::
  "'w sys \<Rightarrow> VolumeGroup option \<Rightarrow> ('w gs, goerr + string list) io" where
  "ListLogicalVolumeNames sys vg = deref vg (\<lambda>g.
     tryE (run sys ''lvs'' lvsOutput [] [''--options=lv_name,vg_name'', vgroup_name g]) fail (\<lambda>report.
       ok (map lv_Name (filter (\<lambda>lv. lv_VgName lv = vgroup_name g) (concat report)))))"

definition LookupVolumeGroup :: "'w sys \<Rightarrow> string \<Rightarrow> ('w gs, goerr + VolumeGroup) io" where
  "LookupVolumeGroup sys name =
     vg_query sys [''--options=vg_name'', name] (\<lambda>item. ok \<lparr>vgroup_name = vg_Name item\<rparr>)"

definition ListVolumeGroupNames :: "'w sys \<Rightarrow> ('w gs, goerr + string list) io" where
  "ListVolumeGroupNames sys =
     tryE (run sys ''vgs'' vgsOutput [] []) fail (\<lambda>report. ok (map vg_Name (concat report)))"

definition ListVolumeGroupUUIDs :: "'w sys \<Rightarrow> ('w gs, goerr + string list) io" where
  "ListVolumeGroupUUIDs sys =
     tryE (run sys ''vgs'' vgsOutput [] [''--options=vg_uuid'']) fail (\<lambda>report. ok (map vg_UUID (concat report)))"

definition ListPhysicalVolumes :: "'w sys \<Rightarrow> ('w gs, goerr + PhysicalVolume list) io" where
  "ListPhysicalVolumes sys =
     tryE (run sys ''pvs'' pvsOutput [] []) fail (\<lambda>report.
       ok (map (\<lambda>item. \<lparr>pvol_dev = pv_Name item\<rparr>) (concat report)))"

definition LookupPhysicalVolume :: "'w sys \<Rightarrow> string \<Rightarrow> ('w gs, goerr + PhysicalVolume) io" where
  "LookupPhysicalVolume sys name =
     query sys ''pvs'' pvsOutput IsPhysicalVolumeNotFound ErrPhysicalVolumeNotFound
       [''--options=pv_name'', name] (\<lambda>item. ok \<lparr>pvol_dev = pv_Name item\<rparr>)"

subsection \<open>Logical volumes\<close>

definition Path_lv :: "'w sys \<Rightarrow> LogicalVolume \<Rightarrow> ('w gs, goerr + string) io" where
  "Path_lv sys lv = with_lv_path lv (\<lambda>p.
     lv_query sys [''--options=lv_path'', p] (\<lambda>item. ok (lv_LvPath item)))"

definition Tags_lv :: "'w sys \<Rightarrow> LogicalVolume \<Rightarrow> ('w gs, goerr + string list) io" where
  "Tags_lv sys lv = with_lv_path lv (\<lambda>p.
     lv_query sys [''--options=lv_tags'', p] (\<lambda>item. ok (tagList item)))"

definition Uuid_lv :: "'w sys \<Rightarrow> LogicalVolume \<Rightarrow> ('w gs, goerr + string) io" where
  "Uuid_lv sys lv = with_lv_path lv (\<lambda>p.
     lv_query sys [''--options=lv_uuid'', p] (\<lambda>item. ok (lv_LvUuid item)))"

section \<open>Changes\<close>

definition Remove_lv :: "'w sys \<Rightarrow> LogicalVolume \<Rightarrow> ('w gs, goerr option) io" where
  "Remove_lv sys lv = with_lv_path lv (\<lambda>p. run_nil sys ''lvremove'' [''-f'', p])"

definition Activate_lv :: "'w sys \<Rightarrow> LogicalVolume \<Rightarrow> ('w gs, goerr option) io" where
  "Activate_lv sys lv = with_lv_path lv (\<lambda>p. run_nil sys ''lvchange'' [''-ay'', p])"

definition Deactivate_lv :: "'w sys \<Rightarrow> LogicalVolume \<Rightarrow> ('w gs, goerr option) io" where
  "Deactivate_lv sys lv = with_lv_path lv (\<lambda>p. run_nil sys ''lvchange'' [''-an'', p])"

definition AddTag :: "'w sys \<Rightarrow> LogicalVolume \<Rightarrow> string \<Rightarrow> ('w gs, goerr option) io" where
  "AddTag sys lv tag = with_lv_path lv (\<lambda>p. run_nil sys ''lvchange'' [''--addtag'', tag, p])"

definition DeleteTag :: "'w sys \<Rightarrow> LogicalVolume \<Rightarrow> string \<Rightarrow> ('w gs, goerr option) io" where
  "DeleteTag sys lv tag = with_lv_path lv (\<lambda>p. run_nil sys ''lvchange'' [''--addtag'', tag, p])"

definition PVScan :: "'w sys \<Rightarrow> string \<Rightarrow> ('w gs, goerr option) io" where
  "PVScan sys dev = run_nil sys ''pvscan'' ([''--cache''] @ (if dev \<noteq> '''' then [dev] else []))"

definition VGScan :: "'w sys \<Rightarrow> string \<Rightarrow> ('w gs, goerr option) io" where
  "VGScan sys nam = run_nil sys ''vgscan'' ([''--cache''] @ (if nam \<noteq> '''' then [nam] else []))"

definition RefreshMetaData :: "'w sys \<Rightarrow> ('w gs, unit) io" where
  "RefreshMetaData sys =
     bind (extcall (Exec ''partprobe'' []) (sys_run sys ''partprobe'' [])) (\<lambda>_.
     bind (PVScan sys '''') (\<lambda>_.
     bind (VGScan sys '''') (\<lambda>_. ret ())))"

text \<open>\<open>--add-tag=\<close> arguments for the non-empty tags, or the error of the first invalid one.\<close>

fun add_tag_args :: "string list \<Rightarrow> goerr + string list" where
  "add_tag_args [] = Inr []"
| "add_tag_args (tag # tags) =
     (if tag = '''' then add_tag_args tags
      else (case ValidateTag tag of
              Some err \<Rightarrow> Inl err
            | None \<Rightarrow> (case add_tag_args tags of Inl e \<Rightarrow> Inl e
                | Inr args \<Rightarrow> Inr ((''--add-tag='' @ tag) # args))))"

fun apply_opts :: "CreateLogicalVolumeOpt list \<Rightarrow> LVOpts \<Rightarrow> LVOpts" where
  "apply_opts [] opts = opts"
| "apply_opts (fn # fns) opts = apply_opts fns (fn opts)"

definition lvcreate_args ::
  "string list \<Rightarrow> uint64 \<Rightarrow> string \<Rightarrow> string \<Rightarrow> string list \<Rightarrow> string list" where
  "lvcreate_args tagargs sizeInBytes name vgname flags =
     tagargs @ [''--size='' @ fmt_d sizeInBytes @ ''b'', ''--name='' @ name, vgname] @ flags @ [''-ay'', ''-y'']"

definition CreateLogicalVolume ::
  "'w sys \<Rightarrow> VolumeGroup option \<Rightarrow> string \<Rightarrow> uint64 \<Rightarrow> string list \<Rightarrow> CreateLogicalVolumeOpt list
     \<Rightarrow> ('w gs, goerr + LogicalVolume) io" where
  "CreateLogicalVolume sys vg name sizeInBytes tags optFns =
     (case ValidateLogicalVolumeName name of
        Some err \<Rightarrow> fail err
      | None \<Rightarrow>
     (case add_tag_args tags of
        Inl err \<Rightarrow> fail err
      | Inr tagargs \<Rightarrow>
      deref vg (\<lambda>g.
      bind (lift_outcome (LVOpts_Flags (apply_opts optFns zero_LVOpts))) (\<lambda>flags.
      bind (run_nil sys ''lvcreate'' (lvcreate_args tagargs sizeInBytes name (vgroup_name g) flags)) (\<lambda>err.
      case err of
        Some err \<Rightarrow>
          if isInsufficientSpace err then fail ErrNoSpace
          else if isInsufficientDevices err then fail ErrTooFewDisks
          else fail err
      | None \<Rightarrow>
      bind (run_nil sys ''wipefs'' [''--all'', ''/dev/'' @ vgroup_name g @ ''/'' @ name]) (\<lambda>_.
      (let newlv = \<lparr>lvol_name = name, lvol_sizeInBytes = sizeInBytes, lvol_vg = vg\<rparr> in
       bind (Deactivate_lv sys newlv) (\<lambda>_. ok newlv))))))))"

definition LVMatchTag :: "string \<Rightarrow> lvsItem \<Rightarrow> bool" where
  "LVMatchTag tag lv \<longleftrightarrow> tag \<in> tagSet lv"

text \<open>The search of a report for the first volume of the group that the predicate accepts.\<close>

definition find_lv :: "VolumeGroup \<Rightarrow> (lvsItem \<Rightarrow> bool) \<Rightarrow> lvsItem list list \<Rightarrow> lvsItem option" where
  "find_lv g matchFirst report =
     find (\<lambda>lv. lv_VgName lv = vgroup_name g \<and> matchFirst lv) (concat report)"

definition find_lv_args :: "VolumeGroup \<Rightarrow> string list" where
  "find_lv_args g = [''--options=lv_name,lv_size,vg_name,lv_tags'', vgroup_name g]"

definition FindLogicalVolume ::
  "'w sys \<Rightarrow> VolumeGroup option \<Rightarrow> (lvsItem \<Rightarrow> bool) \<Rightarrow> ('w gs, goerr + LogicalVolume) io" where
  "FindLogicalVolume sys vg matchFirst = deref vg (\<lambda>g.
     tryE (run sys ''lvs'' lvsOutput [] (find_lv_args g))
       (\<lambda>err.
          if IsLogicalVolumeNotFound err then
            bind (RefreshMetaData sys) (\<lambda>_.
            tryE (run sys ''lvs'' lvsOutput [] (find_lv_args g))
              (\<lambda>err2. if IsLogicalVolumeNotFound err2 then fail ErrLogicalVolumeNotFound else fail err)
              (\<lambda>_. fail err))
          else fail err)
       (\<lambda>report.
          case find_lv g matchFirst report of
            Some lv \<Rightarrow> ok \<lparr>lvol_name = lv_Name lv, lvol_sizeInBytes = lv_LvSize lv, lvol_vg = vg\<rparr>
          | None \<Rightarrow> fail ErrLogicalVolumeNotFound))"

definition LookupLogicalVolume ::
  "'w sys \<Rightarrow> VolumeGroup option \<Rightarrow> string \<Rightarrow> ('w gs, goerr + LogicalVolume) io" where
  "LookupLogicalVolume sys vg name = FindLogicalVolume sys vg (\<lambda>lv. lv_Name lv = name)"

definition CreateVolumeGroup ::
  "'w sys \<Rightarrow> string \<Rightarrow> PhysicalVolume list \<Rightarrow> string list \<Rightarrow> ('w gs, goerr + VolumeGroup) io" where
  "CreateVolumeGroup sys name pvs tags =
     (case ValidateVolumeGroupName name of
        Some err \<Rightarrow> fail err
      | None \<Rightarrow>
     (case add_tag_args tags of
        Inl err \<Rightarrow> fail err
      | Inr tagargs \<Rightarrow>
     bind (run_nil sys ''vgcreate'' (tagargs @ [name] @ map pvol_dev pvs)) (\<lambda>err.
     case err of Some e \<Rightarrow> fail e | None \<Rightarrow>
     bind (PVScan sys '''') (\<lambda>_.
     bind (VGScan sys '''') (\<lambda>_. ok \<lparr>vgroup_name = name\<rparr>)))))"

definition CreatePhysicalVolume :: "'w sys \<Rightarrow> string \<Rightarrow> ('w gs, goerr + PhysicalVolume) io" where
  "CreatePhysicalVolume sys dev =
     bind (run_nil sys ''pvcreate'' [dev]) (\<lambda>err. case err of
       Some e \<Rightarrow> fail (TextError (''lvm: CreatePhysicalVolume: '' @ Error_text e))
     | None \<Rightarrow> ok \<lparr>pvol_dev = dev\<rparr>)"

section \<open>Which tools an operation starts\<close>

text \<open>The calls one run of a tool can make, and the calls that change nothing.\<close>

fun tool_event :: "string \<Rightarrow> string list \<Rightarrow> call \<Rightarrow> bool" where
  "tool_event cmd args (Exec c a) \<longleftrightarrow> c = cmd \<and> a = args"
| "tool_event cmd args (Rpc m url a) \<longleftrightarrow>
     m = ''dial'' \<or> m = ''close'' \<or> m = ''MercuryProxy'' \<and> a = cmd # args"
| "tool_event cmd args (Os op a) \<longleftrightarrow> False"
| "tool_event cmd args (Http url) \<longleftrightarrow> False"

definition report_tools :: "string set" where
  "report_tools = {''lvs'', ''vgs'', ''pvs''}"

definition scan_tools :: "string set" where
  "scan_tools = {''pvscan'', ''vgscan''}"

lemma report_tools_simps [simp]:
  "''lvs'' \<in> report_tools" "''vgs'' \<in> report_tools" "''pvs'' \<in> report_tools"
  by (simp_all add: report_tools_def)

lemma scan_tools_simps [simp]: "''pvscan'' \<in> scan_tools" "''vgscan'' \<in> scan_tools"
  by (simp_all add: scan_tools_def)

fun read_only :: "call \<Rightarrow> bool" where
  "read_only (Exec c a) \<longleftrightarrow> c \<in> report_tools"
| "read_only (Rpc m url a) \<longleftrightarrow>
     m = ''dial'' \<or> m = ''close'' \<or>
     m = ''MercuryProxy'' \<and> (case a of [] \<Rightarrow> False | c # _ \<Rightarrow> c \<in> report_tools)"
| "read_only (Os op a) \<longleftrightarrow> False"
| "read_only (Http url) \<longleftrightarrow> False"

text \<open>The calls of a metadata refresh, which changes caches and no volume.\<close>

fun refresh_only :: "call \<Rightarrow> bool" where
  "refresh_only (Exec c a) \<longleftrightarrow> c = ''partprobe'' \<or> c \<in> scan_tools"
| "refresh_only (Rpc m url a) \<longleftrightarrow>
     m = ''dial'' \<or> m = ''close'' \<or>
     m = ''MercuryProxy'' \<and> (case a of [] \<Rightarrow> False | c # _ \<Rightarrow> c \<in> scan_tools)"
| "refresh_only (Os op a) \<longleftrightarrow> False"
| "refresh_only (Http url) \<longleftrightarrow> False"

definition look_only :: "call \<Rightarrow> bool" where
  "look_only c \<longleftrightarrow> read_only c \<or> refresh_only c"

lemma tool_event_read_only:
  "tool_event cmd args c \<Longrightarrow> cmd \<in> report_tools \<Longrightarrow> read_only c"
  by (cases c) auto

lemma tool_event_refresh_only:
  "tool_event cmd args c \<Longrightarrow> cmd \<in> scan_tools \<Longrightarrow> refresh_only c"
  by (cases c) auto

lemma emits_ProxyMode [emits_intros]: "emits P ProxyMode"
  unfolding ProxyMode_def by (intro emits_intros)

lemma emits_lift_outcome [emits_intros]: "emits P (lift_outcome r)"
  unfolding lift_outcome_def by (cases r) (simp_all add: emits_ret emits_panic)

lemma emits_with_agent [emits_intros]:
  "(\<And>url. P (Rpc ''dial'' url [])) \<Longrightarrow> (\<And>url. P (Rpc ''close'' url [])) \<Longrightarrow> (\<And>c. emits P (body c)) \<Longrightarrow>
     emits P (with_agent sys on_err body)"
  unfolding with_agent_def connect_def stolakeConnect_def disconnect_def by (intro emits_intros) simp_all

lemma emits_run_raw:
  assumes "\<And>c. tool_event cmd args c \<Longrightarrow> P c"
  shows "emits P (run_raw sys cmd args)"
  unfolding run_raw_def ProxyStoLakeRun_def by (intro emits_intros) (simp_all add: assms)

lemma emits_run:
  "(\<And>c. tool_event cmd (report_args @ args) c \<Longrightarrow> P c) \<Longrightarrow> emits P (run sys cmd um v args)"
  unfolding run_def by (intro emits_intros emits_run_raw)

lemma emits_run_nil:
  "(\<And>c. tool_event cmd args c \<Longrightarrow> P c) \<Longrightarrow> emits P (run_nil sys cmd args)"
  unfolding run_nil_def by (intro emits_intros emits_run_raw)

lemma emits_query:
  "(\<And>c. tool_event cmd (report_args @ args) c \<Longrightarrow> P c) \<Longrightarrow> (\<And>x. emits P (f x)) \<Longrightarrow>
     emits P (query sys cmd um isnf nf args f)"
  unfolding query_def by (intro emits_intros emits_run) (assumption | (simp; fail))+

lemma read_only_run [emits_intros]:
  "cmd \<in> report_tools \<Longrightarrow> emits read_only (run sys cmd um v args)"
  by (rule emits_run) (rule tool_event_read_only)

lemma read_only_query [emits_intros]:
  "cmd \<in> report_tools \<Longrightarrow> (\<And>x. emits read_only (f x)) \<Longrightarrow>
     emits read_only (query sys cmd um isnf nf args f)"
  by (rule emits_query) (auto intro: tool_event_read_only)

lemma read_only_queries [emits_intros]:
  "emits read_only (BytesTotal sys vg)"
  "emits read_only (ExtentSize sys vg)"
  "emits read_only (ExtentCount sys vg)"
  "emits read_only (ListPhysicalVolumeNames sys vg)"
  "emits read_only (Tags_vg sys vg)"
  "emits read_only (ListLogicalVolumeNames sys vg)"
  "emits read_only (LookupVolumeGroup sys nm)"
  "emits read_only (ListVolumeGroupNames sys)"
  "emits read_only (ListVolumeGroupUUIDs sys)"
  "emits read_only (ListPhysicalVolumes sys)"
  "emits read_only (LookupPhysicalVolume sys nm)"
  "emits read_only (Path_lv sys lv)"
  "emits read_only (Tags_lv sys lv)"
  "emits read_only (Uuid_lv sys lv)"
  unfolding BytesTotal_def ExtentSize_def ExtentCount_def ListPhysicalVolumeNames_def Tags_vg_def
    ListLogicalVolumeNames_def LookupVolumeGroup_def ListVolumeGroupNames_def ListVolumeGroupUUIDs_def
    ListPhysicalVolumes_def LookupPhysicalVolume_def Path_lv_def Tags_lv_def Uuid_lv_def with_lv_path_def
  by (intro emits_intros; simp)+

lemma read_only_free [emits_intros]:
  "emits read_only (BytesFree sys vg raid)"
  "emits read_only (ExtentFreeCount sys vg raid)"
  unfolding BytesFree_def ExtentFreeCount_def by (intro emits_intros; simp)+

lemma look_only_read_only: "emits read_only m \<Longrightarrow> emits look_only m"
  by (erule emits_mono) (simp add: look_only_def)

lemma look_only_find [emits_intros]:
  "emits look_only (FindLogicalVolume sys vg m)"
proof -
  have r: "emits look_only (run sys ''lvs'' lvsOutput [] a)" for a
    by (intro look_only_read_only emits_intros) simp
  have n: "emits look_only (run_nil sys cmd a)" if "cmd \<in> scan_tools" for cmd a
    by (rule emits_run_nil) (use that in \<open>auto simp: look_only_def intro: tool_event_refresh_only\<close>)
  show ?thesis
    unfolding FindLogicalVolume_def RefreshMetaData_def PVScan_def VGScan_def
    by (intro emits_intros r n) (simp_all add: look_only_def)
qed

lemma look_only_lookup [emits_intros]: "emits look_only (LookupLogicalVolume sys vg nm)"
  unfolding LookupLogicalVolume_def by (rule look_only_find)


section \<open>The contract of a query\<close>

text \<open>
  \<open>q\<close> is a query on the report \<open>rep\<close>: it returns what \<open>f\<close> reads from the first item, turns
  an empty report and a tool's "not found" message into \<open>nf\<close>, and passes every other error on.
\<close>

locale first_item_query =
  fixes q :: "('s, goerr + 'a) io"
    and rep :: "('s, goerr + 'i list list) io"
    and is_nf :: "goerr \<Rightarrow> bool"
    and nf :: goerr
    and f :: "'i \<Rightarrow> 'a"
  assumes found: "rep s = (Ret (Inr r), s') \<Longrightarrow> concat r = x # xs \<Longrightarrow> q s = (Ret (Inr (f x)), s')"
    and absent: "rep s = (Ret (Inr r), s') \<Longrightarrow> concat r = [] \<Longrightarrow> q s = (Ret (Inl nf), s')"
    and missing: "rep s = (Ret (Inl e), s') \<Longrightarrow> is_nf e \<Longrightarrow> q s = (Ret (Inl nf), s')"
    and failed: "rep s = (Ret (Inl e), s') \<Longrightarrow> \<not> is_nf e \<Longrightarrow> q s = (Ret (Inl e), s')"
    and panicked: "rep s = (Panic msg, s') \<Longrightarrow> q s = (Panic msg, s')"
begin

lemma q_eq:
  "q s = (case rep s of
     (Ret (Inr r), s') \<Rightarrow> (Ret (case concat r of [] \<Rightarrow> Inl nf | x # _ \<Rightarrow> Inr (f x)), s')
   | (Ret (Inl e), s') \<Rightarrow> (Ret (Inl (if is_nf e then nf else e)), s')
   | (Panic msg, s') \<Rightarrow> (Panic msg, s'))"
  using found absent missing failed panicked
  by (auto split: prod.splits outcome.splits sum.splits list.splits)

lemma success_iff:
  "q s = (Ret (Inr v), s') \<longleftrightarrow>
     (\<exists>r x xs. rep s = (Ret (Inr r), s') \<and> concat r = x # xs \<and> v = f x)"
  unfolding q_eq
  by (auto simp del: concat_eq_Nil_conv split: prod.splits outcome.splits sum.splits list.splits)

lemma not_found_iff:
  "q s = (Ret (Inl nf), s') \<longleftrightarrow>
     (\<exists>r. rep s = (Ret (Inr r), s') \<and> concat r = []) \<or>
     (\<exists>e. rep s = (Ret (Inl e), s') \<and> (is_nf e \<or> e = nf))"
  unfolding q_eq
  by (auto simp del: concat_eq_Nil_conv split: prod.splits outcome.splits sum.splits list.splits)

lemma no_panic:
  assumes "nopanic rep"
  shows "nopanic q"
proof (rule nopanicI)
  fix s
  obtain x s' where "rep s = (Ret x, s')" using assms by (rule nopanicE)
  then show "\<exists>y s'. q s = (Ret y, s')" unfolding q_eq by (cases x) simp_all
qed

end

lemma query_first_item:
  "first_item_query (query sys cmd um isnf nf args (\<lambda>x. ok (f x))) (run sys cmd um [] args) isnf nf f"
  unfolding query_def
  by unfold_locales
     (auto simp: tryE_def bind_def first_item_def ok_def fail_def ret_def
        simp del: concat_eq_Nil_conv split: list.splits)

text \<open>The queries of the package satisfy the contract.\<close>

abbreviation vgs_report where "vgs_report sys \<equiv> run sys ''vgs'' vgsOutput []"
abbreviation lvs_report where "lvs_report sys \<equiv> run sys ''lvs'' lvsOutput []"
abbreviation pvs_report where "pvs_report sys \<equiv> run sys ''pvs'' pvsOutput []"

lemmas query_method_defs = BytesTotal_def ExtentSize_def ExtentCount_def Tags_vg_def
  LookupVolumeGroup_def LookupPhysicalVolume_def Path_lv_def Tags_lv_def Uuid_lv_def with_lv_path_def

interpretation bytes_total: first_item_query "BytesTotal sys (Some g)"
    "vgs_report sys [''--options=vg_size'', vgroup_name g]" IsVolumeGroupNotFound ErrVolumeGroupNotFound vg_VgSize
  for sys g unfolding query_method_defs deref_Some by (rule query_first_item)

interpretation extent_size: first_item_query "ExtentSize sys (Some g)"
    "vgs_report sys [''--options=vg_extent_size'', vgroup_name g]"
    IsVolumeGroupNotFound ErrVolumeGroupNotFound vg_VgExtentSize
  for sys g unfolding query_method_defs deref_Some by (rule query_first_item)

interpretation extent_count: first_item_query "ExtentCount sys (Some g)"
    "vgs_report sys [''--options=vg_extent_count'', vgroup_name g]"
    IsVolumeGroupNotFound ErrVolumeGroupNotFound vg_VgExtentCount
  for sys g unfolding query_method_defs deref_Some by (rule query_first_item)

interpretation vg_tags: first_item_query "Tags_vg sys (Some g)"
    "vgs_report sys [''--options=vg_tags'', vgroup_name g]"
    IsVolumeGroupNotFound ErrVolumeGroupNotFound "\<lambda>item. split_tags (vg_VgTags item)"
  for sys g unfolding query_method_defs deref_Some by (rule query_first_item)

interpretation lookup_vg: first_item_query "LookupVolumeGroup sys nm"
    "vgs_report sys [''--options=vg_name'', nm]"
    IsVolumeGroupNotFound ErrVolumeGroupNotFound "\<lambda>item. \<lparr>vgroup_name = vg_Name item\<rparr>"
  for sys nm unfolding query_method_defs deref_Some by (rule query_first_item)

interpretation lookup_pv: first_item_query "LookupPhysicalVolume sys nm"
    "pvs_report sys [''--options=pv_name'', nm]"
    IsPhysicalVolumeNotFound ErrPhysicalVolumeNotFound "\<lambda>item. \<lparr>pvol_dev = pv_Name item\<rparr>"
  for sys nm unfolding query_method_defs deref_Some by (rule query_first_item)

definition lv_in :: "string \<Rightarrow> uint64 \<Rightarrow> VolumeGroup \<Rightarrow> LogicalVolume" where
  "lv_in nm sz g = \<lparr>lvol_name = nm, lvol_sizeInBytes = sz, lvol_vg = Some g\<rparr>"

lemma lv_in_sel [simp]:
  "lvol_name (lv_in nm sz g) = nm" "lvol_sizeInBytes (lv_in nm sz g) = sz"
  "lvol_vg (lv_in nm sz g) = Some g"
  by (simp_all add: lv_in_def)

interpretation lv_path: first_item_query "Path_lv sys (lv_in nm sz g)"
    "lvs_report sys [''--options=lv_path'', vgroup_name g @ ''/'' @ nm]"
    IsLogicalVolumeNotFound ErrLogicalVolumeNotFound lv_LvPath
  for sys nm sz g unfolding query_method_defs lv_in_sel deref_Some by (rule query_first_item)

interpretation lv_tags: first_item_query "Tags_lv sys (lv_in nm sz g)"
    "lvs_report sys [''--options=lv_tags'', vgroup_name g @ ''/'' @ nm]"
    IsLogicalVolumeNotFound ErrLogicalVolumeNotFound tagList
  for sys nm sz g unfolding query_method_defs lv_in_sel deref_Some by (rule query_first_item)

interpretation lv_uuid: first_item_query "Uuid_lv sys (lv_in nm sz g)"
    "lvs_report sys [''--options=lv_uuid'', vgroup_name g @ ''/'' @ nm]"
    IsLogicalVolumeNotFound ErrLogicalVolumeNotFound lv_LvUuid
  for sys nm sz g unfolding query_method_defs lv_in_sel deref_Some by (rule query_first_item)

section \<open>No run of a tool panics\<close>

lemma nopanic_ProxyStoLakeRun [nopanic_intros]: "nopanic (ProxyStoLakeRun sys cmd args)"
  unfolding ProxyStoLakeRun_def with_agent_def connect_def stolakeConnect_def disconnect_def
  by (intro nopanic_intros)

lemma nopanic_run_raw [nopanic_intros]: "nopanic (run_raw sys cmd args)"
  unfolding run_raw_def ProxyMode_def by (intro nopanic_intros)

lemma nopanic_run [nopanic_intros]: "nopanic (run sys cmd um v args)"
  unfolding run_def by (intro nopanic_intros)

lemma nopanic_run_nil [nopanic_intros]: "nopanic (run_nil sys cmd args)"
  unfolding run_nil_def by (intro nopanic_intros)

lemma nopanic_query [nopanic_intros]:
  "(\<And>x. nopanic (f x)) \<Longrightarrow> nopanic (query sys cmd um isnf nf args f)"
  unfolding query_def by (intro nopanic_intros)

lemma nopanic_RefreshMetaData [nopanic_intros]: "nopanic (RefreshMetaData sys)"
  unfolding RefreshMetaData_def PVScan_def VGScan_def by (intro nopanic_intros)

lemma nopanic_FindLogicalVolume [nopanic_intros]: "nopanic (FindLogicalVolume sys (Some g) m)"
  unfolding FindLogicalVolume_def deref_Some by (intro nopanic_intros)


section \<open>What a run leaves in the trace\<close>

fun starts :: "string \<Rightarrow> string list \<Rightarrow> call \<Rightarrow> bool" where
  "starts cmd args (Exec c a) \<longleftrightarrow> c = cmd \<and> a = args"
| "starts cmd args (Rpc m url a) \<longleftrightarrow> m = ''MercuryProxy'' \<and> a = cmd # args"
| "starts cmd args (Os op a) \<longleftrightarrow> False"
| "starts cmd args (Http url) \<longleftrightarrow> False"

lemma emits_any [emits_intros]:
  "emits (\<lambda>_. True) (run sys cmd um v args)" "emits (\<lambda>_. True) (run_nil sys cmd args)"
  by (rule emits_run emits_run_nil; simp)+

lemma ProxyMode_apply: "ProxyMode s = (Ret (StolakeURL s \<noteq> ''none'' \<and> StolakeURL s \<noteq> ''''), s)"
  by (simp add: ProxyMode_def io_simps)

lemma ProxyStoLakeRun_eq:
  "ProxyStoLakeRun sys cmd args s =
     (let url = ''unix://'' @ StolakeURL s;
          (derr, w1) = sys_dial sys url (ext s);
          s1 = s\<lparr>ext := w1, trace := trace s @ [Rpc ''dial'' url []]\<rparr>
      in case derr of
           Some e \<Rightarrow> (Ret ('''', Some e), s1)
         | None \<Rightarrow>
             (let (r, w2) = sys_MercuryProxy sys url cmd args w1
              in (Ret (case r of Inl e \<Rightarrow> ('''', Some e) | Inr out \<Rightarrow> (out, None)),
                  s\<lparr>ext := w2, trace := trace s @ [Rpc ''dial'' url [], Rpc ''MercuryProxy'' url (cmd # args),
                     Rpc ''close'' url []]\<rparr>)))"
  by (simp add: ProxyStoLakeRun_def with_agent_def connect_def stolakeConnect_def disconnect_def tryE_def
      bind_def get_state_def extcall_def defer_do_def ok_def fail_def ret_def Let_def
      split: prod.splits option.splits sum.splits)

lemma run_raw_starts:
  assumes "run_raw sys cmd args s = (Ret (Inr out), s')"
  shows "\<exists>c\<in>new_calls s s'. starts cmd args c"
proof (cases "StolakeURL s \<noteq> ''none'' \<and> StolakeURL s \<noteq> ''''")
  case True
  with assms show ?thesis
    by (auto simp: run_raw_def bind_Ret [OF ProxyMode_apply] bind_def ProxyStoLakeRun_eq Let_def fail_def ok_def
        ret_def new_calls_def split: prod.splits option.splits sum.splits)
next
  case False
  with assms show ?thesis
    by (auto simp: run_raw_def new_calls_def bind_Ret [OF ProxyMode_apply] bind_def extcall_def fail_def ok_def ret_def
        split: prod.splits option.splits)
qed

lemma run_nil_starts:
  assumes "run_nil sys cmd args s = (Ret None, s')"
  shows "\<exists>c\<in>new_calls s s'. starts cmd args c"
  using assms unfolding run_nil_def
  by (auto elim!: tryE_cases simp: ret_def dest: run_raw_starts)

section \<open>Properties of the operations\<close>

lemma find_lv_Some:
  "find_lv g m rep = Some i \<Longrightarrow> lv_VgName i = vgroup_name g \<and> m i \<and> (\<exists>items\<in>set rep. i \<in> set items)"
  unfolding find_lv_def by (fastforce simp: find_Some_iff dest: nth_mem)

lemma FindLogicalVolume_first_error:
  assumes "lvs_report sys (find_lv_args g) s = (Ret (Inl e), s1)"
  shows "\<exists>e' s'. FindLogicalVolume sys (Some g) m s = (Ret (Inl e'), s') \<and> (e' = e \<or> e' = ErrLogicalVolumeNotFound)"
proof (cases "IsLogicalVolumeNotFound e")
  case False
  with assms show ?thesis by (simp add: FindLogicalVolume_def deref_Some tryE_Inl io_simps)
next
  case True
  obtain s2 where s2: "RefreshMetaData sys s1 = (Ret (), s2)"
    using nopanic_RefreshMetaData by (rule nopanicE) simp
  obtain r s3 where s3: "lvs_report sys (find_lv_args g) s2 = (Ret r, s3)"
    using nopanic_run by (rule nopanicE)
  show ?thesis
    using assms True s2 s3
    by (cases r) (auto simp: FindLogicalVolume_def deref_Some tryE_Inl tryE_Inr bind_Ret io_simps)
qed

lemma find_logical_volume_aux:
  "FindLogicalVolume sys (Some g) m s = (Ret (Inr lv), s') \<longleftrightarrow>
     (\<exists>rep i. lvs_report sys (find_lv_args g) s = (Ret (Inr rep), s') \<and> find_lv g m rep = Some i \<and>
        lv = lv_in (lv_Name i) (lv_LvSize i) g)"
proof -
  obtain r s1 where r: "lvs_report sys (find_lv_args g) s = (Ret r, s1)"
    using nopanic_run by (rule nopanicE)
  show ?thesis
  proof (cases r)
    case (Inl e)
    with r FindLogicalVolume_first_error [of sys g s e s1 m] show ?thesis by auto
  next
    case (Inr rep)
    with r show ?thesis
      by (auto simp: FindLogicalVolume_def deref_Some tryE_Inr lv_in_def ok_def fail_def ret_def
          split: option.splits)
  qed
qed

text \<open>
  \<open>FindLogicalVolume\<close> succeeds exactly when its first run of \<open>lvs\<close> does, and the volume
  it returns is the first of the report that is in the group and accepted.\<close>

theorem find_logical_volume_iff:
  "FindLogicalVolume sys (Some g) m s = (Ret (Inr lv), s') \<longleftrightarrow>
     (\<exists>rep i. lvs_report sys (find_lv_args g) s = (Ret (Inr rep), s') \<and> find_lv g m rep = Some i \<and>
        lv = lv_in (lv_Name i) (lv_LvSize i) g)"
  by (rule find_logical_volume_aux)

text \<open>
  after a "not found" message the code refreshes the metadata and runs \<open>lvs\<close> again, but
  even when that second run succeeds the caller gets the error of the first one.\<close>

theorem refreshed_lookup_still_fails:
  assumes "lvs_report sys (find_lv_args g) s = (Ret (Inl e), s1)"
    and "IsLogicalVolumeNotFound e"
    and "RefreshMetaData sys s1 = (Ret (), s2)"
    and "lvs_report sys (find_lv_args g) s2 = (Ret (Inr rep), s3)"
  shows "LookupLogicalVolume sys (Some g) nm s = (Ret (Inl e), s3)"
  using assms
  by (simp add: LookupLogicalVolume_def FindLogicalVolume_def deref_Some tryE_Inl tryE_Inr bind_Ret io_simps)

definition flaky_lvs :: "bool sys" where
  "flaky_lvs = quiet\<lparr>sys_run := \<lambda>cmd args seen.
     if cmd = ''lvs'' \<and> \<not> seen
     then (\<lparr>er_stdout = '''', er_stderr = ''Failed to find logical volume vg0/lv0'', er_error = Some ''exit status 5''\<rparr>, True)
     else (\<lparr>er_stdout = ''{\"report\":[{\"lv\":[{\"lv_name\":\"lv0\",\"vg_name\":\"vg0\"}]}]}'',
            er_stderr = '''', er_error = None\<rparr>, seen)\<rparr>"

theorem refreshed_lookup_still_fails_witness:
  "\<exists>s3. LookupLogicalVolume flaky_lvs (Some \<lparr>vgroup_name = ''vg0''\<rparr>) ''lv0'' (quiet_state False) =
     (Ret (Inl (TextError ''Failed to find logical volume vg0/lv0'')), s3)"
proof -
  define g where "g = \<lparr>vgroup_name = ''vg0''\<rparr>"
  define s1 where "s1 = snd (lvs_report flaky_lvs (find_lv_args g) (quiet_state False))"
  define s2 where "s2 = snd (RefreshMetaData flaky_lvs s1)"
  have 1: "lvs_report flaky_lvs (find_lv_args g) (quiet_state False) =
      (Ret (Inl (TextError ''Failed to find logical volume vg0/lv0'')), s1)"
    unfolding s1_def g_def by code_simp
  have 2: "IsLogicalVolumeNotFound (TextError ''Failed to find logical volume vg0/lv0'')"
    by code_simp
  have 3: "RefreshMetaData flaky_lvs s1 = (Ret (), s2)"
    unfolding s2_def s1_def g_def by code_simp
  have "fst (lvs_report flaky_lvs (find_lv_args g) s2) =
      Ret (Inr [[zero_lvsItem\<lparr>lv_Name := ''lv0'', lv_VgName := ''vg0''\<rparr>]])"
    unfolding s2_def s1_def g_def by code_simp
  note 4 = outcome_state [OF this]
  show ?thesis using refreshed_lookup_still_fails [OF 1 2 3 4, of "''lv0''"] unfolding g_def by blast
qed


text \<open>
  the agent's errors are prefixed before they are classified, so a one-line error of the
  agent, "not found" or not, is never recognised: looking up a missing volume group through
  the agent gives the prefixed text and not \<open>ErrVolumeGroupNotFound\<close>.\<close>

theorem proxied_not_found_unrecognised:
  assumes "StolakeURL s \<noteq> ''none''" and "StolakeURL s \<noteq> ''''"
    and "ProxyStoLakeRun sys ''vgs'' (report_args @ [''--options=vg_name'', nm]) s = (Ret (out, Some e), s')"
    and "CHR 0x0A \<notin> set (Error_text e)"
  shows "LookupVolumeGroup sys nm s = (Ret (Inl (TextError (''PROXY ERROR: '' @ Error_text e))), s')"
proof -
  have "run_raw sys ''vgs'' (report_args @ [''--options=vg_name'', nm]) s =
      (Ret (Inl (TextError (''PROXY ERROR: '' @ Error_text e))), s')"
    using assms by (simp add: run_raw_def bind_Ret [OF ProxyMode_apply] bind_Ret io_simps)
  then have "vgs_report sys [''--options=vg_name'', nm] s =
      (Ret (Inl (TextError (''PROXY ERROR: '' @ Error_text e))), s')"
    by (simp add: run_def tryE_Inl io_simps)
  moreover have "\<not> IsVolumeGroupNotFound (TextError (''PROXY ERROR: '' @ Error_text e))"
    using assms(4) by (simp add: IsVolumeGroupNotFound_def some_line_def Split_single HasPrefix_def)
  ultimately show ?thesis by (rule lookup_vg.failed)
qed

definition agent_without_vg :: "unit sys" where
  "agent_without_vg = quiet\<lparr>sys_MercuryProxy := \<lambda>c cmd args w.
     (Inl (TextError ''Volume group vg0 not found''), w)\<rparr>"

theorem proxied_not_found_unrecognised_witness:
  "\<exists>s'. LookupVolumeGroup agent_without_vg ''vg0'' ((quiet_state ())\<lparr>StolakeURL := ''/run/agent.sock''\<rparr>) =
     (Ret (Inl (TextError ''PROXY ERROR: Volume group vg0 not found'')), s')"
proof -
  define s :: "unit gs" where "s = (quiet_state ())\<lparr>StolakeURL := ''/run/agent.sock''\<rparr>"
  define a where "a = report_args @ [''--options=vg_name'', ''vg0'']"
  define s' where "s' = snd (ProxyStoLakeRun agent_without_vg ''vgs'' a s)"
  have "ProxyStoLakeRun agent_without_vg ''vgs'' a s = (Ret ('''', Some (TextError ''Volume group vg0 not found'')), s')"
    unfolding s'_def s_def a_def by code_simp
  from proxied_not_found_unrecognised [OF _ _ this [unfolded a_def]]
  show ?thesis by (auto simp: s_def)
qed

text \<open>The arguments for the tags, and the tags they carry.\<close>

lemma add_tag_args_Inr_iff:
  "add_tag_args tags = Inr args \<longleftrightarrow>
     (\<forall>t\<in>set tags. t \<noteq> '''' \<longrightarrow> ValidateTag t = None) \<and>
     args = map (\<lambda>t. ''--add-tag='' @ t) (filter (\<lambda>t. t \<noteq> '''') tags)"
  by (induction tags arbitrary: args) (auto split: option.splits sum.splits, blast)

lemma create_lv_success_aux:
  assumes "CreateLogicalVolume sys (Some g) nm sz tags optFns s = (Ret (Inr lv), s')"
  shows "lv = lv_in nm sz g \<and> ValidateLogicalVolumeName nm = None \<and>
    (\<forall>t\<in>set tags. t \<noteq> '''' \<longrightarrow> ValidateTag t = None) \<and>
    (\<exists>flags. LVOpts_Flags (apply_opts optFns zero_LVOpts) = Ret flags \<and>
       (\<exists>c\<in>new_calls s s'. starts ''lvcreate''
          (lvcreate_args (map (\<lambda>t. ''--add-tag='' @ t) (filter (\<lambda>t. t \<noteq> '''') tags)) sz nm (vgroup_name g) flags) c))"
proof -
  from assms have v: "ValidateLogicalVolumeName nm = None"
    by (auto simp: CreateLogicalVolume_def fail_def ret_def split: option.splits)
  from assms v obtain targs where t: "add_tag_args tags = Inr targs"
    by (auto simp: CreateLogicalVolume_def fail_def ret_def split: sum.splits)
  note c = assms [unfolded CreateLogicalVolume_def v t option.simps sum.simps deref_Some]
  obtain flags where f: "LVOpts_Flags (apply_opts optFns zero_LVOpts) = Ret flags"
    using c by (cases "LVOpts_Flags (apply_opts optFns zero_LVOpts)")
      (simp_all add: lift_outcome_def bind_panic panic_def)
  define cargs where "cargs = lvcreate_args targs sz nm (vgroup_name g) flags"
  obtain err s1 where r: "run_nil sys ''lvcreate'' cargs s = (Ret err, s1)"
    using nopanic_run_nil by (rule nopanicE)
  note c1 = c [unfolded f lift_outcome_def outcome.simps bind_ret, folded cargs_def,
    unfolded bind_Ret [where m = "run_nil sys ''lvcreate'' cargs" and s = s, OF r]]
  have err: "err = None"
    using c1 by (cases err) (auto simp: fail_def ret_def split: if_splits)
  then obtain ev where ev: "ev \<in> new_calls s s1" "starts ''lvcreate'' cargs ev"
    using run_nil_starts r by blast
  define rest where "rest = bind (run_nil sys ''wipefs'' [''--all'', ''/dev/'' @ vgroup_name g @ ''/'' @ nm]) (\<lambda>_.
      bind (Deactivate_lv sys (lv_in nm sz g)) (\<lambda>_. ok (lv_in nm sz g) :: ('a gs, goerr + LogicalVolume) io))"
  have rest: "rest s1 = (Ret (Inr lv), s')"
    using c1 by (simp add: err rest_def lv_in_def Let_def)
  then have "lv = lv_in nm sz g"
    by (auto simp: rest_def ok_def ret_def elim!: bind_cases)
  moreover have "emits (\<lambda>_. True) rest"
    unfolding rest_def Deactivate_lv_def with_lv_path_def by (intro emits_intros)
  then have "ev \<in> new_calls s s'"
    using new_calls_widen [OF ev(1)] emits_extends [where m = rest and s = s1, OF _ rest] by simp
  ultimately show ?thesis
    using v t ev(2) f add_tag_args_Inr_iff [of tags targs] by (auto simp: cargs_def)
qed

text \<open>
  A logical volume is created only under a valid name and with valid tags. When
  \<open>CreateLogicalVolume\<close> succeeds, \<open>lvcreate\<close> was started with the size, the name, the group,
  every non-empty tag and the flags of the layout, and the volume returned is that one.\<close>

theorem create_logical_volume_success:
  assumes "CreateLogicalVolume sys (Some g) nm sz tags optFns s = (Ret (Inr lv), s')"
  shows "lv = lv_in nm sz g \<and> ValidateLogicalVolumeName nm = None \<and>
    (\<forall>t\<in>set tags. t \<noteq> '''' \<longrightarrow> ValidateTag t = None) \<and>
    (\<exists>flags. LVOpts_Flags (apply_opts optFns zero_LVOpts) = Ret flags \<and>
       (\<exists>c\<in>new_calls s s'. starts ''lvcreate''
          (lvcreate_args (map (\<lambda>t. ''--add-tag='' @ t) (filter (\<lambda>t. t \<noteq> '''') tags)) sz nm (vgroup_name g) flags) c))"
  using create_lv_success_aux [OF assms] .

theorem create_logical_volume_success_witness:
  "\<exists>s'. CreateLogicalVolume (quiet :: unit sys) (Some \<lparr>vgroup_name = ''vg0''\<rparr>) ''lv0'' 8 [''VN.x''] [] (quiet_state ()) =
     (Ret (Inr (lv_in ''lv0'' 8 \<lparr>vgroup_name = ''vg0''\<rparr>)), s') \<and> ValidateTag ''VN.x'' = None"
proof -
  have "fst (CreateLogicalVolume (quiet :: unit sys) (Some \<lparr>vgroup_name = ''vg0''\<rparr>) ''lv0'' 8 [''VN.x''] [] (quiet_state ())) =
      Ret (Inr (lv_in ''lv0'' 8 \<lparr>vgroup_name = ''vg0''\<rparr>))" by code_simp
  note r = outcome_state [OF this]
  have "\<forall>t\<in>set [''VN.x'']. t \<noteq> '''' \<longrightarrow> ValidateTag t = None"
    using create_logical_volume_success [OF r] by blast
  then have "ValidateTag ''VN.x'' = None" by simp
  with r show ?thesis by blast
qed

text \<open>
  An invalid name or tag is rejected before any tool is started.\<close>

theorem create_logical_volume_invalid:
  assumes "ValidateLogicalVolumeName nm \<noteq> None \<or> (\<exists>t\<in>set tags. t \<noteq> '''' \<and> ValidateTag t \<noteq> None)"
  shows "\<exists>e. CreateLogicalVolume sys vg nm sz tags optFns s = (Ret (Inl e), s)"
proof (cases "ValidateLogicalVolumeName nm")
  case (Some e)
  then show ?thesis by (simp add: CreateLogicalVolume_def io_simps)
next
  case None
  with assms have "\<not> (\<exists>args. add_tag_args tags = Inr args)" by (auto simp: add_tag_args_Inr_iff)
  then obtain e where "add_tag_args tags = Inl e" by (cases "add_tag_args tags") auto
  with None show ?thesis by (simp add: CreateLogicalVolume_def io_simps)
qed

theorem create_logical_volume_invalid_witness:
  "\<exists>e. CreateLogicalVolume (quiet :: unit sys) None ''lv0'' 8 [''not a tag''] [] (quiet_state ()) =
     (Ret (Inl e), quiet_state ())"
  by (rule create_logical_volume_invalid) (rule disjI2, code_simp)


text \<open>C20: for a mirrored layout, the bytes \<open>BytesFree\<close> reports can really be used: every copy
  of a volume of that size, with one metadata extent each, fits into the free extents of the
  group, as long as there are as many free extents as copies.\<close>

theorem bytes_free_fit:
  assumes "mirrored raid" and "Mirrors raid \<noteq> - 1"
    and "ListPhysicalVolumeNames sys (Some g) s = (Ret (Inr pvs), s1)"
    and "vgs_report sys [''--options=vg_free,vg_free_count,vg_extent_size'', vgroup_name g] s1 = (Ret (Inr rep), s2)"
    and "first_item rep = Some item"
    and "layout_copies raid \<le> unat (vg_VgFreeExtentCount item)"
    and "BytesFree sys (Some g) raid s = (Ret (Inr b), s')"
  shows "b = 0 \<or>
    layout_copies raid * (unat b + unat (vg_VgExtentSize item))
      \<le> unat (vg_VgFreeExtentCount item) * unat (vg_VgExtentSize item)"
proof -
  define c k where "c = vg_VgFreeExtentCount item" and "k = vg_VgExtentSize item"
  obtain n where n: "MinNumberOfDevices raid = Ret n"
    using MinNumberOfDevices_panic_iff [of raid] assms(1)
    by (cases "MinNumberOfDevices raid") (auto simp: mirrored_def known_type_def)
  obtain e where e: "extentsFree raid c = Ret e"
    using extentsFree_mirrored(1) [OF assms(1,2)] by blast
  have b: "b = 0 \<or> b = e * k"
    using assms(7) e
    using assms(4,5)
    by (auto simp: BytesFree_def tryE_Inr assms(3) n lift_outcome_def bind_ret deref_Some query_def
        c_def k_def ok_def ret_def split: if_splits)
  have fit: "layout_copies raid * unat e + layout_copies raid \<le> unat c"
    using mirrored_extents_fit_aux [OF assms(1,2) assms(6) [folded c_def] e] by simp
  have "unat (e * k) \<le> unat e * unat k"
    by (simp add: unat_word_ariths)
  then have "layout_copies raid * (unat (e * k) + unat k) \<le> layout_copies raid * (unat e * unat k + unat k)"
    by simp
  also have "\<dots> = (layout_copies raid * unat e + layout_copies raid) * unat k"
    by (simp add: algebra_simps)
  also have "\<dots> \<le> unat c * unat k"
    using fit by (rule mult_le_mono1)
  finally have "layout_copies raid * (unat (e * k) + unat k) \<le> unat c * unat k" .
  with b show ?thesis by (auto simp: c_def k_def)
qed


definition raid_vg :: "unit sys" where
  "raid_vg = quiet\<lparr>sys_run := \<lambda>cmd args w.
     (\<lparr>er_stdout = (if cmd = ''pvs''
         then ''{\"report\":[{\"pv\":[{\"pv_name\":\"a\",\"vg_name\":\"vg0\"},{\"pv_name\":\"b\",\"vg_name\":\"vg0\"}]}]}''
         else ''{\"report\":[{\"vg\":[{\"vg_free_count\":\"7\",\"vg_extent_size\":\"4\"}]}]}''),
       er_stderr = '''', er_error = None\<rparr>, w)\<rparr>"

lemma ParseUint_digits: "ParseUint ''7'' = Inr 7" "ParseUint ''4'' = Inr 4"
  by (simp_all add: ParseUint_def digit_val_def Let_def)


lemma raid_vg_free:
  "Unmarshal vgsOutput ''{\"report\":[{\"vg\":[{\"vg_free_count\":\"7\",\"vg_extent_size\":\"4\"}]}]}'' [] =
     Inr [[zero_vgsItem\<lparr>vg_VgFreeExtentCount := 7, vg_VgExtentSize := 4\<rparr>]]"
proof -
  have "json_parse ''{\"report\":[{\"vg\":[{\"vg_free_count\":\"7\",\"vg_extent_size\":\"4\"}]}]}'' =
      Some (JObj [(''report'', JArr [JObj [(''vg'', JArr [JObj [(''vg_free_count'', JStr ''7''), (''vg_extent_size'', JStr ''4'')]])]])])"
    by code_simp
  then show ?thesis
    by (simp add: Unmarshal_def vgsOutput_def um_report_def um_struct_def um_slice_def um_vgsItem_def map_sum_def
        um_uint64_string_def ParseUint_digits ToLower_def lower_char_def)
qed

theorem bytes_free_fit_witness:
  "\<exists>s'. BytesFree raid_vg (Some \<lparr>vgroup_name = ''vg0''\<rparr>) (zero_layout\<lparr>Type := VolumeTypeRAID1\<rparr>) (quiet_state ()) =
       (Ret (Inr 8), s') \<and> 2 * (unat (8 :: uint64) + unat (4 :: uint64)) \<le> unat (7 :: uint64) * unat (4 :: uint64)"
proof -
  define g where "g = \<lparr>vgroup_name = ''vg0''\<rparr>"
  define raid where "raid = zero_layout\<lparr>Type := VolumeTypeRAID1\<rparr>"
  define item where "item = zero_vgsItem\<lparr>vg_VgFreeExtentCount := 7, vg_VgExtentSize := 4\<rparr>"
  define s1 where "s1 = snd (ListPhysicalVolumeNames raid_vg (Some g) (quiet_state ()))"
  define s2 where "s2 = snd (vgs_report raid_vg [''--options=vg_free,vg_free_count,vg_extent_size'', vgroup_name g] s1)"
  have "fst (ListPhysicalVolumeNames raid_vg (Some g) (quiet_state ())) = Ret (Inr [''a'', ''b''])"
    unfolding g_def by code_simp
  note 1 = outcome_state [OF this, folded s1_def]
  have url: "StolakeURL s1 = ''''" unfolding s1_def g_def by code_simp
  have "fst (vgs_report raid_vg [''--options=vg_free,vg_free_count,vg_extent_size'', vgroup_name g] s1) = Ret (Inr [[item]])"
    by (simp add: run_def run_raw_def bind_Ret [OF ProxyMode_apply] url tryE_def bind_def extcall_def raid_vg_def
         raid_vg_free item_def ok_def fail_def ret_def)
  note 2 = outcome_state [OF this, folded s2_def]
  have m: "mirrored raid" by (simp add: raid_def mirrored_def)
  have e: "extentsFree raid 7 = Ret 2" and n: "MinNumberOfDevices raid = Ret 2"
    unfolding raid_def by code_simp+
  have r: "BytesFree raid_vg (Some g) raid (quiet_state ()) = (Ret (Inr 8), s2)"
    using 1 2 n e
    by (simp add: BytesFree_def tryE_Inr lift_outcome_def bind_ret deref_Some query_def too_few_devices_def
        first_item_def item_def ok_def ret_def)
  have "2 = layout_copies raid" by (simp add: raid_def layout_copies_def zero_layout_def)
  then show ?thesis
    using bytes_free_fit [OF m _ 1 2 _ _ r, of item] r
    by (auto simp: raid_def zero_layout_def item_def first_item_def g_def)
qed

text \<open>
  The queries of the package change nothing: whatever the tools and the agent answer,
  they only ever start \<open>lvs\<close>, \<open>vgs\<close> and \<open>pvs\<close>, and looking up a volume adds at most a refresh of
  the metadata caches.\<close>

theorem queries_are_read_only:
  "emits read_only (BytesTotal sys vg) \<and> emits read_only (BytesFree sys vg raid) \<and>
   emits read_only (ExtentSize sys vg) \<and> emits read_only (ExtentCount sys vg) \<and>
   emits read_only (ExtentFreeCount sys vg raid) \<and> emits read_only (ListPhysicalVolumeNames sys vg) \<and>
   emits read_only (ListLogicalVolumeNames sys vg) \<and> emits read_only (Tags_vg sys vg) \<and>
   emits read_only (LookupVolumeGroup sys nm) \<and> emits read_only (LookupPhysicalVolume sys nm) \<and>
   emits read_only (Path_lv sys lv) \<and> emits read_only (Tags_lv sys lv) \<and> emits read_only (Uuid_lv sys lv) \<and>
   emits look_only (LookupLogicalVolume sys vg nm)"
  by (intro conjI read_only_queries read_only_free look_only_lookup)


text \<open>The reports of the example group, for the examples of the other theories.\<close>

definition raid_item :: vgsItem where
  "raid_item = zero_vgsItem\<lparr>vg_VgFreeExtentCount := 7, vg_VgExtentSize := 4\<rparr>"

definition raid_pvs :: "pvsItem list" where
  "raid_pvs = [\<lparr>pv_Name = ''a'', pv_VgName = ''vg0''\<rparr>, \<lparr>pv_Name = ''b'', pv_VgName = ''vg0''\<rparr>]"

lemma raid_vg_vgs:
  "StolakeURL s = '''' \<Longrightarrow> vgs_report raid_vg a s =
     (Ret (Inr [[raid_item]]), s\<lparr>trace := trace s @ [Exec ''vgs'' (report_args @ a)]\<rparr>)"
  by (simp add: run_def run_raw_def bind_Ret [OF ProxyMode_apply] tryE_def bind_def extcall_def raid_vg_def
      raid_vg_free raid_item_def ok_def fail_def ret_def)

lemma raid_vg_pvs:
  assumes "StolakeURL s = ''''"
  shows "pvs_report raid_vg a s = (Ret (Inr [raid_pvs]), s\<lparr>trace := trace s @ [Exec ''pvs'' (report_args @ a)]\<rparr>)"
proof -
  have "Unmarshal pvsOutput ''{\"report\":[{\"pv\":[{\"pv_name\":\"a\",\"vg_name\":\"vg0\"},{\"pv_name\":\"b\",\"vg_name\":\"vg0\"}]}]}'' [] =
      Inr [raid_pvs]"
    by code_simp
  with assms show ?thesis
    by (simp add: run_def run_raw_def bind_Ret [OF ProxyMode_apply] tryE_def bind_def extcall_def raid_vg_def
        ok_def fail_def ret_def)
qed


end
