(* ===== verification/Mounts.thy ===== *)
theory Mounts
  imports Virsh
begin

text \<open>
  \<open>pkg/csilvm/mount.go\<close> and \<open>pkg/csilvm/modules.go\<close>: the readers of \<open>/proc/self/mountinfo\<close>
  and of \<open>/proc/modules\<close>. An index or a slice out of range is a panic, as in the code. The
  lemmas give the entry read from a well-formed line, and when a reader panics.
\<close>

section \<open>Mounts\<close>

record mountpoint =
  mp_root :: string
  mp_path :: string
  mp_fstype :: string
  mp_mountopts :: "string list"
  mp_mountsource :: string
  mp_blockpath :: string
  mp_datapath :: string

definition isReadonly :: "mountpoint \<Rightarrow> bool" where
  "isReadonly m \<longleftrightarrow> list_ex (\<lambda>opt. opt = ''ro'') (mp_mountopts m)"

definition is_lvm_path :: "string \<Rightarrow> bool" where
  "is_lvm_path path \<longleftrightarrow> length path > 10 \<and> take 10 path = ''/dev/sbvg_''"

definition dataPathType :: "string \<Rightarrow> string" where
  "dataPathType path =
     (if is_lvm_path path then ''sas''
      else (case Split path CHR ''-'' of
              _ # _ # c # _ # _ \<Rightarrow> c
            | _ \<Rightarrow> ''''))"

text \<open>The search of the listing of \<open>/dev/disk/by-path\<close> for the link to the device.\<close>

fun by_path_lines :: "string \<Rightarrow> string list \<Rightarrow> string" where
  "by_path_lines bdev [] = ''''"
| "by_path_lines bdev (line # rest) =
     (case Split_str line ''->'' of
        c0 # c1 # _ \<Rightarrow>
          if Base c1 \<noteq> Base bdev then by_path_lines bdev rest
          else if length (Fields c0) > 1 then last (Fields c0)
          else by_path_lines bdev rest
      | _ \<Rightarrow> by_path_lines bdev rest)"

definition getBlockPath :: "'w sys \<Rightarrow> string \<Rightarrow> ('w gs, string) io" where
  "getBlockPath sys bdev =
     (if is_lvm_path bdev then ret bdev
      else bind (extcall (Exec ''ls'' [''-lt'', ''/dev/disk/by-path/''])
                  (sys_run sys ''ls'' [''-lt'', ''/dev/disk/by-path/'']))
        (\<lambda>r. case er_error r of
           Some _ \<Rightarrow> ret ''''
         | None \<Rightarrow> ret (by_path_lines bdev (fst (scan_lines (er_stdout r))))))"

text \<open>The separator field \<open>-\<close>, looked for from the seventh field on.\<close>

definition sep_offset :: "string list \<Rightarrow> nat option" where
  "sep_offset flds =
     (case dropWhile (\<lambda>f. f \<noteq> ''-'') (drop 6 flds) of
        [] \<Rightarrow> None
      | rest \<Rightarrow> Some (length flds - length rest))"

definition index_panic :: string where
  "index_panic = ''index out of range''"

definition mountinfo_error :: goerr where
  "mountinfo_error = TextError ''Failed to parse /proc/self/mountinfo''"

text \<open>One line that is not empty: the mount it describes, none when no block path or no data path
  is known for its source.\<close>

definition mount_of_fields ::
  "'w sys \<Rightarrow> string list \<Rightarrow> ('w gs, goerr + mountpoint option) io" where
  "mount_of_fields sys flds =
     (case sep_offset flds of
        None \<Rightarrow> fail mountinfo_error
      | Some n \<Rightarrow>
          if n + 2 \<ge> length flds then panic index_panic
          else bind (getBlockPath sys (flds ! (n + 2))) (\<lambda>blockpath.
            if blockpath = '''' then ok None
            else (let mount = \<lparr>mp_root = flds ! 3, mp_path = flds ! 4, mp_fstype = flds ! (n + 1),
                       mp_mountopts = Split (flds ! 5) CHR '','', mp_mountsource = flds ! (n + 2),
                       mp_blockpath = blockpath, mp_datapath = dataPathType blockpath\<rparr>
                  in if mp_datapath mount = '''' then ok None else ok (Some mount))))"

fun parse_mount_lines ::
  "'w sys \<Rightarrow> string list \<Rightarrow> mountpoint list \<Rightarrow> ('w gs, goerr + mountpoint list) io" where
  "parse_mount_lines sys [] mounts = ok mounts"
| "parse_mount_lines sys (line # rest) mounts =
     (if line = '''' then parse_mount_lines sys rest mounts
      else tryE (mount_of_fields sys (Fields line)) fail (\<lambda>m.
        parse_mount_lines sys rest (mounts @ (case m of None \<Rightarrow> [] | Some x \<Rightarrow> [x]))))"

definition parseMountinfo :: "'w sys \<Rightarrow> string \<Rightarrow> ('w gs, goerr + mountpoint list) io" where
  "parseMountinfo sys buf = parse_mount_lines sys (Split buf CHR 0x0A) []"

definition listMounts :: "'w sys \<Rightarrow> ('w gs, goerr + mountpoint list) io" where
  "listMounts sys =
     bind ProxyMode (\<lambda>proxy.
       if proxy then tryE (MountInfo sys) fail (parseMountinfo sys)
       else tryE (extcall (Os ''readfile'' [''/proc/self/mountinfo'']) (sys_readfile sys ''/proc/self/mountinfo''))
              fail (parseMountinfo sys))"

definition getMountsAt :: "'w sys \<Rightarrow> string \<Rightarrow> ('w gs, goerr + mountpoint list) io" where
  "getMountsAt sys path =
     tryE (listMounts sys) fail (\<lambda>mounts. ok (filter (\<lambda>mp. mp_path mp = path) mounts))"

definition getMountAt :: "'w sys \<Rightarrow> string \<Rightarrow> ('w gs, goerr + mountpoint option) io" where
  "getMountAt sys path =
     tryE (getMountsAt sys path) fail (\<lambda>mounts. ok (case mounts of [] \<Rightarrow> None | mp # _ \<Rightarrow> Some mp))"

section \<open>Kernel modules\<close>

definition blanks :: string where
  "blanks = [CHR '' '', CHR 0x09]"

text \<open>Skipping one column; \<open>None\<close> when there is no blank left.\<close>

definition skip_col :: "string \<Rightarrow> string option" where
  "skip_col b = map_option (\<lambda>i. drop (i + 1) b) (index_any blanks b)"

text \<open>The name on one line of \<open>/proc/modules\<close>, none for a module that is not live. A line
  without a blank is sliced with the index \<open>-1\<close>, which panics.\<close>

definition module_of_line :: "string \<Rightarrow> string option outcome" where
  "module_of_line b0 =
     (case index_any blanks b0 of
        None \<Rightarrow> Panic ''slice bounds out of range''
      | Some i \<Rightarrow>
          let name = take i b0; b1 = drop (i + 1) b0 in
          case skip_col b1 of None \<Rightarrow> Ret (Some name)
          | Some b2 \<Rightarrow>
          (case skip_col b2 of None \<Rightarrow> Ret (Some name)
           | Some b3 \<Rightarrow>
          (case skip_col b3 of None \<Rightarrow> Ret (Some name)
           | Some b4 \<Rightarrow>
             let status = (case index_any blanks b4 of None \<Rightarrow> b4 | Some j \<Rightarrow> take j b4)
             in if status \<noteq> ''Live'' then Ret None else Ret (Some name))))"

fun modules_of_lines :: "string list \<Rightarrow> string list outcome" where
  "modules_of_lines [] = Ret []"
| "modules_of_lines (b # rest) =
     (case module_of_line b of
        Panic msg \<Rightarrow> Panic msg
      | Ret m \<Rightarrow>
          (case modules_of_lines rest of
             Panic msg \<Rightarrow> Panic msg
           | Ret ms \<Rightarrow> Ret ((case m of None \<Rightarrow> ms | Some name \<Rightarrow> name # ms))))"

definition parseModules :: "string \<Rightarrow> (goerr option \<times> string list) outcome" where
  "parseModules buf =
     (let (ls, err) = scan_lines buf in
      case modules_of_lines ls of
        Panic msg \<Rightarrow> Panic msg
      | Ret ms \<Rightarrow> Ret (if err then Some (TextError ''bufio.Scanner: token too long'') else None, ms))"

definition listModules :: "'w sys \<Rightarrow> ('w gs, goerr + string list) io" where
  "listModules sys =
     tryE (extcall (Os ''readfile'' [''/proc/modules'']) (sys_readfile sys ''/proc/modules'')) fail (\<lambda>buf.
       bind (lift_outcome (parseModules buf)) (\<lambda>(err, mods).
         case err of Some e \<Rightarrow> fail e | None \<Rightarrow> ok mods))"

section \<open>What the readers return\<close>

lemma sep_offset_append:
  assumes "length us \<ge> 6" and "''-'' \<notin> set (drop 6 us)"
  shows "sep_offset (us @ ''-'' # vs) = Some (length us)"
proof -
  have "drop 6 (us @ ''-'' # vs) = drop 6 us @ ''-'' # vs" using assms(1) by simp
  moreover have "dropWhile (\<lambda>f. f \<noteq> ''-'') (drop 6 us @ ''-'' # vs) = ''-'' # vs"
    using assms(2) by (induction "drop 6 us") (auto simp: dropWhile_append3)
  ultimately show ?thesis by (simp add: sep_offset_def)
qed

lemma skip_col_append:
  "set u \<inter> set blanks = {} \<Longrightarrow> skip_col (u @ CHR '' '' # v) = Some v"
  using index_any_append [of u blanks "CHR '' ''" v] by (simp add: skip_col_def blanks_def)

lemma emits_getBlockPath:
  "(\<And>a. P (Exec ''ls'' a)) \<Longrightarrow> emits P (getBlockPath sys dev)"
  unfolding getBlockPath_def by (intro emits_intros)

text \<open>The reader of the mount table changes nothing, and so do the queries on top of it.\<close>

fun mount_look :: "call \<Rightarrow> bool" where
  "mount_look (Exec c a) \<longleftrightarrow> c = ''ls''"
| "mount_look (Rpc m url a) \<longleftrightarrow> m = ''dial'' \<or> m = ''close'' \<or> m = ''MountInfo''"
| "mount_look (Os op a) \<longleftrightarrow> op = ''readfile''"
| "mount_look (Http url) \<longleftrightarrow> False"

lemma mount_look_parse: "emits mount_look (parse_mount_lines sys ls acc)"
  by (induction ls arbitrary: acc)
     (auto simp: mount_of_fields_def intro!: emits_intros emits_getBlockPath)

lemma mount_look_MountInfo [emits_intros]: "emits mount_look (MountInfo sys)"
  unfolding MountInfo_def with_agent_def connect_def stolakeConnect_def disconnect_def
  by (intro emits_intros) simp_all

lemma mount_look_listMounts [emits_intros]: "emits mount_look (listMounts sys)"
  unfolding listMounts_def parseMountinfo_def ProxyMode_def
  by (intro emits_intros mount_look_parse) simp_all

lemma mount_look_getMountsAt [emits_intros]: "emits mount_look (getMountsAt sys p)"
  unfolding getMountsAt_def by (intro emits_intros)

lemma mount_look_getMountAt [emits_intros]: "emits mount_look (getMountAt sys p)"
  unfolding getMountAt_def by (intro emits_intros)

lemma getMountAt_Some:
  assumes "getMountAt sys p s = (Ret (Inr (Some mp)), s')"
  shows "mp_path mp = p"
  using assms unfolding getMountAt_def getMountsAt_def
  by (auto elim!: tryE_cases simp: fail_def ok_def ret_def filter_eq_Cons_iff split: list.splits)

text \<open>
  A well-formed line of the mount table whose source is a logical volume of the plugin,
  whatever optional flds it carries, is read as the mount it describes.\<close>

theorem mountinfo_line_read:
  assumes "length us \<ge> 6" and "''-'' \<notin> set (drop 6 us)" and "is_lvm_path src"
  shows "mount_of_fields sys (us @ [''-'', fstype, src] @ rest) s =
    (Ret (Inr (Some \<lparr>mp_root = us ! 3, mp_path = us ! 4, mp_fstype = fstype,
       mp_mountopts = Split (us ! 5) CHR '','', mp_mountsource = src,
       mp_blockpath = src, mp_datapath = ''sas''\<rparr>)), s)"
proof -
  have "sep_offset (us @ [''-'', fstype, src] @ rest) = Some (length us)"
    using sep_offset_append [OF assms(1,2), of "fstype # src # rest"] by simp
  moreover have "src \<noteq> ''''" using assms(3) by (auto simp: is_lvm_path_def)
  ultimately show ?thesis
    using assms by (simp add: mount_of_fields_def getBlockPath_def dataPathType_def nth_append io_simps)
qed

theorem mountinfo_line_read_witness:
  "mount_of_fields (quiet :: unit sys)
      ([''36'', ''35'', ''98:0'', ''/'', ''/data'', ''rw,noatime'', ''master:1''] @ [''-'', ''xfs'', ''/dev/sbvg_vg0/lv0''] @ [''rw''])
      (quiet_state ()) =
    (Ret (Inr (Some \<lparr>mp_root = ''/'', mp_path = ''/data'', mp_fstype = ''xfs'',
       mp_mountopts = Split ''rw,noatime'' CHR '','', mp_mountsource = ''/dev/sbvg_vg0/lv0'',
       mp_blockpath = ''/dev/sbvg_vg0/lv0'', mp_datapath = ''sas''\<rparr>)), quiet_state ())"
  by (subst mountinfo_line_read) (simp_all add: is_lvm_path_def)

text \<open>
  A line of \<open>/proc/modules\<close> with all its columns gives its module exactly when the module
  is live.\<close>

theorem module_line_live:
  assumes "\<forall>w\<in>set [name, mem, inst, deps, status]. set w \<inter> set blanks = {}"
  shows "module_of_line (Join [name, mem, inst, deps, status, addr] '' '') =
    Ret (if status = ''Live'' then Some name else None)"
proof -
  have "index_any blanks (name @ CHR '' '' # t) = Some (length name)" for t
    using index_any_append [of name blanks] assms by (simp add: blanks_def)
  moreover have "index_any blanks (status @ CHR '' '' # addr) = Some (length status)"
    using index_any_append [of status blanks] assms by (simp add: blanks_def)
  moreover have "skip_col (u @ CHR '' '' # t) = Some t" if "u \<in> {mem, inst, deps}" for u t
    using skip_col_append [of u t] assms that by auto
  ultimately show ?thesis by (simp add: module_of_line_def Let_def)
qed

theorem module_line_live_witness:
  "module_of_line (Join [''drm'', ''364544'', ''4'', ''cirrus,ttm,'', ''Live'', ''0x0''] '' '') = Ret (Some ''drm'') \<and>
   module_of_line (Join [''drm'', ''364544'', ''4'', ''cirrus,ttm,'', ''Unloading'', ''0x0''] '' '') = Ret None"
  using module_line_live [of "''drm''" "''364544''" "''4''" "''cirrus,ttm,''" "''Live''" "''0x0''"]
    module_line_live [of "''drm''" "''364544''" "''4''" "''cirrus,ttm,''" "''Unloading''" "''0x0''"]
  by (simp add: blanks_def)

text \<open>A line without a blank makes the reader panic, and so \<open>Probe\<close> with it.\<close>

lemma module_line_panics_iff: "(\<exists>msg. module_of_line b = Panic msg) \<longleftrightarrow> set b \<inter> set blanks = {}"
  by (auto simp: module_of_line_def Let_def index_any_None_iff [symmetric] split: option.splits)


end
