(* ===== verification/Server.thy ===== *)
theory Server
  imports Lvm Mounts Csi
begin

text \<open>
  The \<open>Server\<close> of \<open>pkg/csilvm/server.go\<close>: its configuration, \<open>NewServer\<close> and the options,
  \<open>Setup\<close>, the Identity service, the storage metrics of \<open>metrics.go\<close>, the helpers that
  compare devices and tags, and \<open>pkg/version\<close>. The metrics scope is added to the record in
  \<open>Metering\<close>; here what is reported is returned. A Go map used as a set is a list of its distinct keys.
\<close>

section \<open>pkg/version\<close>

record Version =
  v_Product :: string
  v_Version :: string
  v_BuildSHA :: string
  v_BuildTime :: string

text \<open>The variables of \<open>versiondata\<close>, which the build may set; their defaults.\<close>

definition default_version :: Version where
  "default_version = \<lparr>v_Product = ''.speedboat.seagate.com'', v_Version = ''v0-dbg'',
     v_BuildSHA = '''', v_BuildTime = ''''\<rparr>"

section \<open>Configuration\<close>

record Server =
  srv_vgname :: string
  srv_pvnames :: "string list"
  srv_volumeGroup :: "VolumeGroup option"
  srv_defaultVolumeSize :: uint64
  srv_supportedFilesystems :: gomap
  srv_removingVolumeGroup :: bool
  srv_controllerMode :: bool
  srv_tags :: "string list"
  srv_probeModules :: "string list"
  srv_nodeID :: string

text \<open>An option leaves the fields of an extended server alone.\<close>

type_synonym 'a ServerOpt = "'a Server_scheme \<Rightarrow> 'a Server_scheme"

definition NodeID :: "string \<Rightarrow> 'a ServerOpt" where
  "NodeID nid = (\<lambda>s. s\<lparr>srv_nodeID := nid\<rparr>)"

definition DefaultVolumeSize :: "uint64 \<Rightarrow> 'a ServerOpt" where
  "DefaultVolumeSize sz = (\<lambda>s. s\<lparr>srv_defaultVolumeSize := sz\<rparr>)"

definition SupportedFilesystem :: "string \<Rightarrow> 'a ServerOpt outcome" where
  "SupportedFilesystem fstype =
     (if fstype = '''' then Panic ''csilvm: SupportedFilesystem: filesystem type not provided''
      else Ret (\<lambda>s. s\<lparr>srv_supportedFilesystems := map_set fstype fstype (srv_supportedFilesystems s)\<rparr>))"

definition RemoveVolumeGroup :: "'a ServerOpt" where
  "RemoveVolumeGroup = (\<lambda>s. s\<lparr>srv_removingVolumeGroup := True\<rparr>)"

definition ControllerMode :: "'a ServerOpt" where
  "ControllerMode = (\<lambda>s. s\<lparr>srv_controllerMode := True\<rparr>)"

definition Tag :: "string \<Rightarrow> 'a ServerOpt" where
  "Tag tag = (\<lambda>s. s\<lparr>srv_tags := srv_tags s @ [tag]\<rparr>)"

definition ProbeModules :: "string list \<Rightarrow> 'a ServerOpt option" where
  "ProbeModules required =
     (if required = [] then None
      else Some (\<lambda>s. s\<lparr>srv_probeModules := fold List.insert required (srv_probeModules s)\<rparr>))"

fun apply_server_opts :: "'a ServerOpt option list \<Rightarrow> 'a Server_scheme \<Rightarrow> 'a Server_scheme" where
  "apply_server_opts [] s = s"
| "apply_server_opts (None # opts) s = apply_server_opts opts s"
| "apply_server_opts (Some opt # opts) s = apply_server_opts opts (opt s)"

definition NewServer :: "string \<Rightarrow> string list \<Rightarrow> string \<Rightarrow> unit ServerOpt option list \<Rightarrow> Server" where
  "NewServer vgname pvnames defaultFs opts = apply_server_opts opts
     \<lparr>srv_vgname = vgname, srv_pvnames = pvnames, srv_volumeGroup = None,
      srv_defaultVolumeSize = push_bit 30 10,
      srv_supportedFilesystems = map_set defaultFs defaultFs (map_set '''' defaultFs []),
      srv_removingVolumeGroup = False, srv_controllerMode = False, srv_tags = [],
      srv_probeModules = [], srv_nodeID = ''''\<rparr>"

definition SupportedFilesystems :: "Server \<Rightarrow> gomap option" where
  "SupportedFilesystems s = dupParams (Some (srv_supportedFilesystems s))"

section \<open>Setup\<close>

definition sq :: string where
  "sq = [CHR 0x27]"

fun first_invalid_tag :: "string list \<Rightarrow> (string \<times> goerr) option" where
  "first_invalid_tag [] = None"
| "first_invalid_tag (tag # tags) =
     (case ValidateTag tag of Some e \<Rightarrow> Some (tag, e) | None \<Rightarrow> first_invalid_tag tags)"

definition Setup :: "'w sys \<Rightarrow> Server \<Rightarrow> ('w gs, goerr + Server) io" where
  "Setup sys srv =
     (case first_invalid_tag (srv_tags srv) of
        Some (tag, e) \<Rightarrow> fail (TextError (''Invalid tag '' @ sq @ tag @ sq @ '': err='' @ Error_text e))
      | None \<Rightarrow>
     bind (StoLakeInfo sys) (\<lambda>(ver, err). case err of
        Some e \<Rightarrow> fail (TextError (''Stolake Agent not found  err='' @ Error_text e))
      | None \<Rightarrow>
     bind (LookupVolumeGroup sys (srv_vgname srv)) (\<lambda>r. case r of
        Inl _ \<Rightarrow> ok (srv\<lparr>srv_volumeGroup := None\<rparr>)
      | Inr g \<Rightarrow> bind (VgActivate sys (srv_vgname srv)) (\<lambda>_. ok (srv\<lparr>srv_volumeGroup := Some g\<rparr>)))))"

section \<open>Identity service\<close>

text \<open>\<open>s.vgname[5:len(s.vgname)]\<close>, which panics on a name of fewer than five bytes.\<close>

definition tenant :: "Server \<Rightarrow> string outcome" where
  "tenant srv =
     (if length (srv_vgname srv) < 5 then Panic ''slice bounds out of range'' else Ret (drop 5 (srv_vgname srv)))"

definition GetPluginInfo :: "Version \<Rightarrow> Server \<Rightarrow> ('w, GetPluginInfoResponse) rpc" where
  "GetPluginInfo v srv =
     (let m1 = (if v_BuildSHA v \<noteq> '''' then map_set ''buildSHA'' (v_BuildSHA v) [] else []);
          m2 = (if v_BuildTime v \<noteq> '''' then map_set ''buildTime'' (v_BuildTime v) m1 else m1)
      in bind (lift_outcome (tenant srv)) (\<lambda>t.
           ok \<lparr>pi_name = t @ v_Product v, pi_vendor_version = v_Version v, pi_manifest = m2\<rparr>))"

definition GetPluginCapabilities :: "Server \<Rightarrow> ('w, ServiceCapability list) rpc" where
  "GetPluginCapabilities srv =
     ok [if srv_controllerMode srv then CONTROLLER_SERVICE else VOLUME_ACCESSIBILITY_CONSTRAINTS]"

definition missing_modules :: "string list \<Rightarrow> string list \<Rightarrow> string list" where
  "missing_modules required listed = filter (\<lambda>m. m \<notin> set listed) required"

definition probe_modules :: "'w sys \<Rightarrow> Server \<Rightarrow> ('w, unit) rpc" where
  "probe_modules sys srv =
     (if srv_probeModules srv = [] then ok ()
      else tryR (listModules sys) (wrap FailedPrecondition ''Cannot resolve kernel modules: err='') (\<lambda>listed.
        let missing = missing_modules (srv_probeModules srv) listed in
        if missing \<noteq> [] then
          fail (Status FailedPrecondition (''One or more kernel modules are missing: '' @ fmt_strings missing))
        else ok ()))"

definition Probe :: "'w sys \<Rightarrow> Server \<Rightarrow> ('w, unit) rpc" where
  "Probe sys srv =
     tryE (probe_modules sys srv) fail (\<lambda>_.
       if srv_removingVolumeGroup srv then ok ()
       else tryR (LookupVolumeGroup sys (srv_vgname srv))
              (\<lambda>_. Status FailedPrecondition (''Cannot find volume group '' @ srv_vgname srv)) (\<lambda>_. ok ()))"

definition identity_server :: "'w sys \<Rightarrow> Version \<Rightarrow> Server \<Rightarrow> 'w IdentityServer" where
  "identity_server sys v srv = \<lparr>
     is_GetPluginInfo = GetPluginInfo v srv,
     is_GetPluginCapabilities = GetPluginCapabilities srv,
     is_Probe = Probe sys srv\<rparr>"

section \<open>Storage metrics\<close>

text \<open>The gauges set by one call, in order; an error ends the report early.\<close>

definition reportStorageMetrics :: "'w sys \<Rightarrow> Server \<Rightarrow> ('w gs, (string \<times> uint64) list) io" where
  "reportStorageMetrics sys srv =
     tryE (ListLogicalVolumeNames sys (srv_volumeGroup srv)) (\<lambda>_. ret []) (\<lambda>names.
     let g1 = [(''volumes'', of_nat (length names))] in
     tryE (BytesTotal sys (srv_volumeGroup srv)) (\<lambda>_. ret g1) (\<lambda>total.
     let g2 = g1 @ [(''bytes-total'', total)] in
     tryE (BytesFree sys (srv_volumeGroup srv) (zero_layout\<lparr>Type := VolumeTypeLinear\<rparr>)) (\<lambda>_. ret g2) (\<lambda>free.
     ret (g2 @ [(''bytes-free'', free), (''bytes-used'', total - free)]))))"

text \<open>\<open>defer s.reportStorageMetrics()\<close> before the final return.\<close>

definition and_report :: "'w sys \<Rightarrow> Server \<Rightarrow> ('w, 'a) rpc \<Rightarrow> ('w, 'a) rpc" where
  "and_report sys srv m = defer_do (ignore (reportStorageMetrics sys srv)) m"

section \<open>Devices and tags\<close>

fun contains_loop :: "string \<Rightarrow> string list \<Rightarrow> bool" where
  "contains_loop x [] = False"
| "contains_loop x (y # ys) = (if x = y then True else contains_loop x ys)"

definition not_in :: "string list \<Rightarrow> string list \<Rightarrow> string list" where
  "not_in xs ys = filter (\<lambda>x. \<not> contains_loop x ys) xs"

definition calculatePVDiff :: "string list \<Rightarrow> string list \<Rightarrow> string list \<times> string list" where
  "calculatePVDiff existing pvnames = (not_in pvnames existing, not_in existing pvnames)"

definition tags_error :: "string list \<Rightarrow> string list \<Rightarrow> goerr" where
  "tags_error mine theirs =
     TextError (''csilvm: Configured tags don'' @ sq @ ''t match existing tags: '' @ fmt_strings mine
       @ '' != '' @ fmt_strings theirs)"

definition checkVolumeGroupTags :: "Server \<Rightarrow> string list \<Rightarrow> goerr option" where
  "checkVolumeGroupTags srv tags =
     (if length tags \<noteq> length (srv_tags srv) then Some (tags_error (srv_tags srv) tags)
      else if not_in tags (srv_tags srv) \<noteq> [] then Some (tags_error (srv_tags srv) tags)
      else None)"

definition statDevice :: "'w sys \<Rightarrow> string \<Rightarrow> ('w gs, goerr option) io" where
  "statDevice sys devicePath = extcall (Os ''stat'' [devicePath]) (sys_stat sys devicePath)"

section \<open>Lemmas\<close>

lemma contains_loop_iff [simp]: "contains_loop x ys \<longleftrightarrow> x \<in> set ys"
  by (induction ys) auto

lemma first_invalid_tag_None_iff:
  "first_invalid_tag tags = None \<longleftrightarrow> (\<forall>t\<in>set tags. ValidateTag t = None)"
  by (induction tags) (auto split: option.splits)

lemma read_only_report [emits_intros]: "emits read_only (reportStorageMetrics sys srv)"
  unfolding reportStorageMetrics_def by (intro emits_intros)

lemma look_only_report [emits_intros]: "emits look_only (reportStorageMetrics sys srv)"
  by (rule look_only_read_only [OF read_only_report])

lemma emits_and_report [emits_intros]:
  "emits P (reportStorageMetrics sys srv) \<Longrightarrow> emits P m \<Longrightarrow> emits P (and_report sys srv m)"
  unfolding and_report_def by (intro emits_intros)

lemma nopanic_ListPhysicalVolumeNames [nopanic_intros]: "nopanic (ListPhysicalVolumeNames sys (Some g))"
  unfolding ListPhysicalVolumeNames_def deref_Some by (intro nopanic_intros)

lemma nopanic_BytesFree_linear [nopanic_intros]:
  "nopanic (BytesFree sys (Some g) (zero_layout\<lparr>Type := VolumeTypeLinear\<rparr>))"
proof -
  have "MinNumberOfDevices (zero_layout\<lparr>Type := VolumeTypeLinear\<rparr>) = Ret 1"
    by (simp add: MinNumberOfDevices_def VolumeType_defs)
  moreover have "extentsFree (zero_layout\<lparr>Type := VolumeTypeLinear\<rparr>) n = Ret n" for n
    by (simp add: extentsFree_def VolumeType_defs)
  ultimately show ?thesis
    unfolding BytesFree_def
    by (simp add: lift_outcome_def bind_ret deref_Some cong: if_cong) (intro nopanic_intros)
qed

lemma nopanic_report [nopanic_intros]:
  assumes "srv_volumeGroup srv = Some g"
  shows "nopanic (reportStorageMetrics sys srv)"
proof -
  have 1: "nopanic (ListLogicalVolumeNames sys (Some g))"
    unfolding ListLogicalVolumeNames_def deref_Some by (intro nopanic_intros)
  have 2: "nopanic (BytesTotal sys (Some g))"
    by (rule bytes_total.no_panic) (rule nopanic_run)
  show ?thesis
    unfolding reportStorageMetrics_def assms by (intro nopanic_intros 1 2)
qed

text \<open>What a deferred report leaves of a return that has been reached.\<close>

lemma and_report_ok:
  assumes "srv_volumeGroup srv = Some g"
  shows "\<exists>s'. and_report sys srv (ok x) s = (Ret (Inr x), s')"
proof -
  have "nopanic (ignore (reportStorageMetrics sys srv))"
    using assms by (intro nopanic_intros)
  then obtain u s' where "ignore (reportStorageMetrics sys srv) s = (Ret u, s')" by (rule nopanicE)
  then have "and_report sys srv (ok x) s = (Ret (Inr x), s')"
    unfolding and_report_def by (intro defer_do_eq [of _ _ _ s]) (simp_all add: io_simps)
  then show ?thesis by blast
qed

lemma and_report_result:
  "and_report sys srv (ok x) s = (Ret (Inr y), s') \<Longrightarrow> y = x"
  by (auto simp: and_report_def defer_do_def ok_def ret_def split: prod.splits outcome.splits)

section \<open>Properties\<close>

text \<open>The calls of \<open>Setup\<close>.\<close>

definition setup_call :: "call \<Rightarrow> bool" where
  "setup_call c \<longleftrightarrow> read_only c \<or>
     (case c of Rpc m url a \<Rightarrow> m = ''RetrieveInfo'' \<or> m = ''VgChange'' \<and> hd a = ''--lockstart'' | _ \<Rightarrow> False)"

lemma emits_Setup: "emits setup_call (Setup sys srv)"
proof -
  have q: "emits setup_call (LookupVolumeGroup sys nm)" for nm
    by (rule emits_mono [OF read_only_queries(7)]) (simp add: setup_call_def)
  have v: "emits setup_call (VgActivate sys nm)" for nm
    unfolding VgActivate_def by (intro emits_intros) (simp_all add: setup_call_def)
  have i: "emits setup_call (StoLakeInfo sys)"
    unfolding StoLakeInfo_def by (intro emits_intros) (simp_all add: setup_call_def)
  show ?thesis
    unfolding Setup_def by (intro emits_intros q v i)
qed

text \<open>C34: \<open>Setup\<close> succeeds only with valid tags and a reachable agent, and changes nothing of the
  configuration but the volume group it found. It never creates or removes a volume group:
  besides queries it only asks the agent for its version and for the locks of the group.\<close>

theorem setup_only_looks:
  "emits setup_call (Setup sys srv) \<and>
   (Setup sys srv s = (Ret (Inr srv'), s') \<longrightarrow>
      (\<forall>t\<in>set (srv_tags srv). ValidateTag t = None) \<and>
      srv' = srv\<lparr>srv_volumeGroup := srv_volumeGroup srv'\<rparr>)"
proof (intro conjI impI emits_Setup)
  assume a: "Setup sys srv s = (Ret (Inr srv'), s')"
  then show "\<forall>t\<in>set (srv_tags srv). ValidateTag t = None"
    by (auto simp: Setup_def fail_def ret_def first_invalid_tag_None_iff [symmetric] split: option.splits)
  from a show "srv' = srv\<lparr>srv_volumeGroup := srv_volumeGroup srv'\<rparr>"
    by (auto simp: Setup_def fail_def ok_def ret_def elim!: bind_cases split: option.splits prod.splits sum.splits)
qed

definition sample_server :: Server where
  "sample_server = NewServer ''sbvg_lake'' [''/dev/sda''] ''xfs'' [Some (Tag ''blue''), None]"

theorem setup_only_looks_witness:
  "\<exists>srv' s'. Setup (quiet :: unit sys) sample_server (quiet_state ()) = (Ret (Inr srv'), s') \<and>
     srv' = sample_server\<lparr>srv_volumeGroup := srv_volumeGroup srv'\<rparr>"
proof -
  have "fst (Setup (quiet :: unit sys) sample_server (quiet_state ())) = Ret (Inr sample_server)"
    by code_simp
  note r = outcome_state [OF this]
  then show ?thesis
    using setup_only_looks [of "quiet :: unit sys" sample_server "quiet_state ()"] by metis
qed

text \<open>
  \<open>Probe\<close> succeeds exactly when every required kernel module is loaded and the volume
  group, unless it is being removed, is found.\<close>

theorem probe_success_iff:
  "Probe sys srv s = (Ret (Inr ()), s') \<longleftrightarrow>
     (\<exists>s1. (srv_probeModules srv = [] \<and> s1 = s \<or>
        srv_probeModules srv \<noteq> [] \<and>
          (\<exists>listed. listModules sys s = (Ret (Inr listed), s1) \<and> set (srv_probeModules srv) \<subseteq> set listed)) \<and>
      (srv_removingVolumeGroup srv \<and> s' = s1 \<or>
       \<not> srv_removingVolumeGroup srv \<and> (\<exists>g. LookupVolumeGroup sys (srv_vgname srv) s1 = (Ret (Inr g), s'))))"
proof -
  have p: "probe_modules sys srv s = (Ret (Inr ()), s1) \<longleftrightarrow>
      srv_probeModules srv = [] \<and> s1 = s \<or>
      srv_probeModules srv \<noteq> [] \<and>
        (\<exists>listed. listModules sys s = (Ret (Inr listed), s1) \<and> set (srv_probeModules srv) \<subseteq> set listed)" for s1
    by (cases "srv_probeModules srv = []")
       (auto simp: probe_modules_def tryR_def tryE_def bind_def missing_modules_def filter_empty_conv Let_def
          ok_def fail_def ret_def split: prod.splits outcome.splits sum.splits)
  have q: "Probe sys srv s = (Ret (Inr ()), s') \<longleftrightarrow>
      (\<exists>s1. probe_modules sys srv s = (Ret (Inr ()), s1) \<and>
        (srv_removingVolumeGroup srv \<and> s' = s1 \<or>
         \<not> srv_removingVolumeGroup srv \<and> (\<exists>g. LookupVolumeGroup sys (srv_vgname srv) s1 = (Ret (Inr g), s'))))"
    by (auto simp: Probe_def tryR_def tryE_def bind_def ok_def fail_def ret_def
        split: prod.splits outcome.splits sum.splits)
  show ?thesis unfolding q p ..
qed

text \<open>The comparison of the configured devices with those of the volume group reports exactly
  the devices on one side only, each as often and in the order it was given.\<close>

theorem pv_diff_sides:
  "calculatePVDiff existing pvnames =
     (filter (\<lambda>p. p \<notin> set existing) pvnames, filter (\<lambda>p. p \<notin> set pvnames) existing) \<and>
   (calculatePVDiff existing pvnames = ([], []) \<longleftrightarrow> set existing = set pvnames)"
  by (auto simp: calculatePVDiff_def not_in_def filter_empty_conv)

end
