(* ===== verification/Validate.thy ===== *)
theory Validate
  imports Csi Virsh
begin

text \<open>
  \<open>pkg/csilvm/validate.go\<close>: the decorators that check a request before the server sees it. A
  decorator maps a service to a service. The locale \<open>guarded_rpc\<close> is the contract of one
  decorated RPC, interpreted on each of them; the properties say exactly which capabilities
  and which requests pass.
\<close>

section \<open>Errors\<close>

definition ErrRemovingMode :: rpc_err where
  "ErrRemovingMode = Status FailedPrecondition
     (''This service is running in '' @ [CHR 0x27] @ ''remove volume group'' @ [CHR 0x27] @ '' mode.'')"
definition ErrMissingName :: rpc_err where
  "ErrMissingName = Status InvalidArgument ''The name field must be specified.''"
definition ErrMissingVolumeId :: rpc_err where
  "ErrMissingVolumeId = Status InvalidArgument ''The volume_id field must be specified.''"
definition ErrUnsupportedFilesystem :: rpc_err where
  "ErrUnsupportedFilesystem = Status FailedPrecondition ''The requested filesystem type is unknown.''"
definition ErrCapacityRangeUnspecified :: rpc_err where
  "ErrCapacityRangeUnspecified = Status InvalidArgument
     ''One of required_bytes or limit_bytes must be specified if capacity_range is specified.''"
definition ErrMissingVolumeCapabilities :: rpc_err where
  "ErrMissingVolumeCapabilities = Status InvalidArgument ''The volume_capabilities field must be specified.''"
definition ErrMissingAccessType :: rpc_err where
  "ErrMissingAccessType = Status InvalidArgument ''The volume_capability.access_type field must be specified.''"
definition ErrMissingAccessMode :: rpc_err where
  "ErrMissingAccessMode = Status InvalidArgument ''The volume_capability.access_mode field must be specified.''"
definition ErrMissingAccessModeMode :: rpc_err where
  "ErrMissingAccessModeMode = Status InvalidArgument ''The volume_capability.access_mode.mode field must be specified.''"
definition ErrInvalidAccessMode :: rpc_err where
  "ErrInvalidAccessMode = Status InvalidArgument ''The volume_capability.access_mode.mode is invalid.''"
definition ErrUnsupportedAccessMode :: rpc_err where
  "ErrUnsupportedAccessMode = Status InvalidArgument ''The volume_capability.access_mode.mode is unsupported.''"
definition ErrBlockVolNoRO :: rpc_err where
  "ErrBlockVolNoRO = Status InvalidArgument ''Cannot publish block volume as readonly.''"
definition ErrMissingTargetPath :: rpc_err where
  "ErrMissingTargetPath = Status InvalidArgument ''The target_path field must be specified.''"
definition ErrMissingVolumeCapability :: rpc_err where
  "ErrMissingVolumeCapability = Status InvalidArgument ''The volume_capability field must be specified.''"
definition ErrSpecifiedPublishNoContext :: rpc_err where
  "ErrSpecifiedPublishNoContext = Status InvalidArgument
     ''The publish_volume_context field must be specified in Proxy Mode.''"

section \<open>Checks\<close>

text \<open>The first error of a sequence of checks.\<close>

definition first_err :: "rpc_err option \<Rightarrow> rpc_err option \<Rightarrow> rpc_err option" where
  "first_err a b = (case a of Some e \<Rightarrow> Some e | None \<Rightarrow> b)"

lemma first_err_None_iff [simp]: "first_err a b = None \<longleftrightarrow> a = None \<and> b = None"
  by (auto simp: first_err_def split: option.splits)

definition validateRemoving :: "bool \<Rightarrow> rpc_err option" where
  "validateRemoving removing = (if removing then Some ErrRemovingMode else None)"

text \<open>\<open>%d\<close> of a signed integer.\<close>

definition fmt_int64 :: "int64 \<Rightarrow> string" where
  "fmt_int64 w = (if sint w < 0 then CHR ''-'' # fmt_d (- w) else fmt_d w)"

definition validateCapacityRange :: "CapacityRange \<Rightarrow> rpc_err option" where
  "validateCapacityRange r =
     (if required_bytes r = 0 \<and> limit_bytes r = 0 then Some ErrCapacityRangeUnspecified
      else if limit_bytes r = 0 then None
      else if limit_bytes r <s required_bytes r then
        Some (Status InvalidArgument (''required_bytes: '' @ fmt_int64 (required_bytes r)
          @ '' cannot exceed the limit_bytes: '' @ fmt_int64 (limit_bytes r)))
      else None)"

definition validateVolumeCapability ::
  "VolumeCapability \<Rightarrow> gomap option \<Rightarrow> bool \<Rightarrow> bool \<Rightarrow> rpc_err option" where
  "validateVolumeCapability c filesystems unsupportedFsOK readonly =
     (if access_type c = None then Some ErrMissingAccessType
      else if (case GetMount c of None \<Rightarrow> False
          | Some mnt \<Rightarrow> nget filesystems (fs_type mnt) = None \<and> \<not> unsupportedFsOK)
        then Some ErrUnsupportedFilesystem
      else if GetBlock c \<and> (readonly \<or> GetMode c = SINGLE_NODE_READER_ONLY)
        then Some ErrBlockVolNoRO
      else (case access_mode c of
          None \<Rightarrow> Some ErrMissingAccessMode
        | Some UNKNOWN \<Rightarrow> Some ErrMissingAccessModeMode
        | Some SINGLE_NODE_READER_ONLY \<Rightarrow> None
        | Some SINGLE_NODE_WRITER \<Rightarrow> None
        | Some MULTI_NODE_READER_ONLY \<Rightarrow> Some ErrUnsupportedAccessMode
        | Some MULTI_NODE_SINGLE_WRITER \<Rightarrow> Some ErrUnsupportedAccessMode
        | Some MULTI_NODE_MULTI_WRITER \<Rightarrow> Some ErrUnsupportedAccessMode
        | Some (OTHER_MODE _) \<Rightarrow> Some ErrInvalidAccessMode))"

fun validate_each ::
  "VolumeCapability list \<Rightarrow> gomap option \<Rightarrow> bool \<Rightarrow> rpc_err option" where
  "validate_each [] filesystems okfs = None"
| "validate_each (c # cs) filesystems okfs =
     (case validateVolumeCapability c filesystems okfs False of
        Some e \<Rightarrow> Some e
      | None \<Rightarrow> validate_each cs filesystems okfs)"

definition validateVolumeCapabilities :: "VolumeCapability list \<Rightarrow> gomap option \<Rightarrow> rpc_err option" where
  "validateVolumeCapabilities cs filesystems =
     (if cs = [] then Some ErrMissingVolumeCapabilities else validate_each cs filesystems False)"

definition validateCreateVolumeRequest ::
  "CreateVolumeRequest \<Rightarrow> bool \<Rightarrow> gomap option \<Rightarrow> rpc_err option" where
  "validateCreateVolumeRequest request removing filesystems =
     first_err (validateRemoving removing)
     (if cv_name request = '''' then Some ErrMissingName
      else first_err
        (case cv_capacity_range request of None \<Rightarrow> None | Some r \<Rightarrow> validateCapacityRange r)
        (validateVolumeCapabilities (cv_volume_capabilities request) filesystems))"

definition validateDeleteVolumeRequest :: "DeleteVolumeRequest \<Rightarrow> bool \<Rightarrow> rpc_err option" where
  "validateDeleteVolumeRequest request removing =
     first_err (validateRemoving removing)
     (if dv_volume_id request = '''' then Some ErrMissingVolumeId else None)"

definition validateValidateVolumeCapabilitiesRequest ::
  "ValidateVolumeCapabilitiesRequest \<Rightarrow> bool \<Rightarrow> gomap option \<Rightarrow> rpc_err option" where
  "validateValidateVolumeCapabilitiesRequest request removing filesystems =
     first_err (validateRemoving removing)
     (if vc_volume_id request = '''' then Some ErrMissingVolumeId
      else validateVolumeCapabilities (vc_volume_capabilities request) filesystems)"

definition validateGetCapacityRequest :: "GetCapacityRequest \<Rightarrow> gomap option \<Rightarrow> rpc_err option" where
  "validateGetCapacityRequest request filesystems =
     validate_each (gc_volume_capabilities request) filesystems True"

definition validateNodePublishVolumeRequest ::
  "NodePublishVolumeRequest \<Rightarrow> bool \<Rightarrow> gomap option \<Rightarrow> bool \<Rightarrow> rpc_err option" where
  "validateNodePublishVolumeRequest request removing filesystems proxy =
     first_err (validateRemoving removing)
     (if np_volume_id request = '''' then Some ErrMissingVolumeId
      else if proxy \<and> np_publish_context request = None then Some ErrSpecifiedPublishNoContext
      else if np_target_path request = '''' then Some ErrMissingTargetPath
      else (case np_volume_capability request of
          None \<Rightarrow> Some ErrMissingVolumeCapability
        | Some c \<Rightarrow> validateVolumeCapability c filesystems False (np_readonly request)))"

definition validateNodeUnpublishVolumeRequest :: "NodeUnpublishVolumeRequest \<Rightarrow> bool \<Rightarrow> rpc_err option" where
  "validateNodeUnpublishVolumeRequest request removing =
     first_err (validateRemoving removing)
     (if nu_volume_id request = '''' then Some ErrMissingVolumeId
      else if nu_target_path request = '''' then Some ErrMissingTargetPath
      else None)"

section \<open>Decorators\<close>

text \<open>\<open>if err := check; err != nil { return nil, err }; return inner\<close>.\<close>

definition check_first :: "rpc_err option \<Rightarrow> ('w, 'a) rpc \<Rightarrow> ('w, 'a) rpc" where
  "check_first err inner = (case err of Some e \<Rightarrow> fail e | None \<Rightarrow> inner)"

text \<open>The requests without anything to check.\<close>

definition validateGetPluginInfoRequest :: "rpc_err option" where "validateGetPluginInfoRequest = None"
definition validateGetPluginCapabilitiesRequest :: "rpc_err option" where "validateGetPluginCapabilitiesRequest = None"
definition validateProbeRequest :: "rpc_err option" where "validateProbeRequest = None"

definition IdentityServerValidator :: "'w IdentityServer \<Rightarrow> 'w IdentityServer" where
  "IdentityServerValidator inner = \<lparr>
     is_GetPluginInfo = check_first validateGetPluginInfoRequest (is_GetPluginInfo inner),
     is_GetPluginCapabilities = check_first validateGetPluginCapabilitiesRequest (is_GetPluginCapabilities inner),
     is_Probe = check_first validateProbeRequest (is_Probe inner)\<rparr>"

definition validateListVolumesRequest :: "ListVolumesRequest \<Rightarrow> rpc_err option" where
  "validateListVolumesRequest request = None"
definition validateControllerGetCapabilitiesRequest :: "rpc_err option" where
  "validateControllerGetCapabilitiesRequest = None"

text \<open>The decorated queries of the Controller service.\<close>

definition checked_ListVolumes :: "'w ControllerServer \<Rightarrow> ListVolumesRequest \<Rightarrow> ('w, Volume list) rpc" where
  "checked_ListVolumes inner request = check_first (validateListVolumesRequest request) (cs_ListVolumes inner request)"

definition checked_GetCapacity ::
  "'w ControllerServer \<Rightarrow> gomap option \<Rightarrow> GetCapacityRequest \<Rightarrow> ('w, int64) rpc" where
  "checked_GetCapacity inner filesystems request =
     check_first (validateGetCapacityRequest request filesystems) (cs_GetCapacity inner request)"

definition checked_ControllerGetCapabilities :: "'w ControllerServer \<Rightarrow> ('w, ControllerCapability list) rpc" where
  "checked_ControllerGetCapabilities inner =
     check_first validateControllerGetCapabilitiesRequest (cs_ControllerGetCapabilities inner)"

definition ControllerServerValidator ::
  "'w ControllerServer \<Rightarrow> bool \<Rightarrow> gomap option \<Rightarrow> 'w ControllerServer" where
  "ControllerServerValidator inner removing filesystems = \<lparr>
     cs_CreateVolume = (\<lambda>r. check_first (validateCreateVolumeRequest r removing filesystems) (cs_CreateVolume inner r)),
     cs_DeleteVolume = (\<lambda>r. check_first (validateDeleteVolumeRequest r removing) (cs_DeleteVolume inner r)),
     cs_ControllerPublishVolume = cs_ControllerPublishVolume inner,
     cs_ControllerUnpublishVolume = cs_ControllerUnpublishVolume inner,
     cs_ValidateVolumeCapabilities = (\<lambda>r. check_first
       (validateValidateVolumeCapabilitiesRequest r removing filesystems) (cs_ValidateVolumeCapabilities inner r)),
     cs_ListVolumes = checked_ListVolumes inner,
     cs_GetCapacity = checked_GetCapacity inner filesystems,
     cs_ControllerGetCapabilities = checked_ControllerGetCapabilities inner,
     cs_CreateSnapshot = cs_CreateSnapshot inner,
     cs_DeleteSnapshot = cs_DeleteSnapshot inner,
     cs_ListSnapshots = cs_ListSnapshots inner,
     cs_ControllerExpandVolume = cs_ControllerExpandVolume inner,
     cs_ControllerGetVolume = cs_ControllerGetVolume inner\<rparr>"

definition validateNodeGetCapabilitiesRequest :: "rpc_err option" where
  "validateNodeGetCapabilitiesRequest = None"

definition NodeServerValidator :: "'w NodeServer \<Rightarrow> bool \<Rightarrow> gomap option \<Rightarrow> 'w NodeServer" where
  "NodeServerValidator inner removing filesystems = \<lparr>
     ns_NodePublishVolume = (\<lambda>r. bind ProxyMode (\<lambda>proxy.
       check_first (validateNodePublishVolumeRequest r removing filesystems proxy) (ns_NodePublishVolume inner r))),
     ns_NodeUnpublishVolume = (\<lambda>r. check_first
       (validateNodeUnpublishVolumeRequest r removing) (ns_NodeUnpublishVolume inner r)),
     ns_NodeGetCapabilities = check_first validateNodeGetCapabilitiesRequest (ns_NodeGetCapabilities inner),
     ns_NodeGetInfo = ns_NodeGetInfo inner,
     ns_NodeStageVolume = ns_NodeStageVolume inner,
     ns_NodeUnstageVolume = ns_NodeUnstageVolume inner,
     ns_NodeExpandVolume = ns_NodeExpandVolume inner,
     ns_NodeGetVolumeStats = ns_NodeGetVolumeStats inner\<rparr>"

lemma check_first_None [simp]: "check_first None inner = inner"
  by (simp add: check_first_def)

text \<open>The decorators that check nothing.\<close>

lemma nothing_checked [simp]:
  "checked_ListVolumes inner = cs_ListVolumes inner"
  "checked_ControllerGetCapabilities inner = cs_ControllerGetCapabilities inner"
  "validateNodeGetCapabilitiesRequest = None"
  "IdentityServerValidator ident = ident"
  by (simp_all add: fun_eq_iff checked_ListVolumes_def validateListVolumesRequest_def
      checked_ControllerGetCapabilities_def validateControllerGetCapabilitiesRequest_def
      validateNodeGetCapabilitiesRequest_def IdentityServerValidator_def validateGetPluginInfoRequest_def
      validateGetPluginCapabilitiesRequest_def validateProbeRequest_def)

section \<open>The contract of a decorated RPC\<close>

text \<open>A rejected request leaves the state alone, an accepted one is handed over unchanged.\<close>

locale guarded_rpc =
  fixes check :: "'req \<Rightarrow> 'w gs \<Rightarrow> rpc_err option"
    and inner :: "'req \<Rightarrow> ('w, 'a) rpc"
    and guarded :: "'req \<Rightarrow> ('w, 'a) rpc"
  assumes rejected: "check r s = Some e \<Longrightarrow> guarded r s = (Ret (Inl e), s)"
    and accepted: "check r s = None \<Longrightarrow> guarded r s = inner r s"
begin

lemma guarded_eq:
  "guarded r s = (case check r s of Some e \<Rightarrow> (Ret (Inl e), s) | None \<Rightarrow> inner r s)"
  by (simp add: rejected accepted split: option.split)

lemma success_iff:
  "guarded r s = (Ret (Inr x), s') \<longleftrightarrow> check r s = None \<and> inner r s = (Ret (Inr x), s')"
  by (auto simp: guarded_eq split: option.splits)

lemma effect_only_if_accepted: "guarded r s = (out, s') \<Longrightarrow> s' \<noteq> s \<Longrightarrow> check r s = None"
  by (auto simp: guarded_eq split: option.splits)

lemma panics_only_if_accepted: "guarded r s = (Panic msg, s') \<Longrightarrow> check r s = None"
  by (auto simp: guarded_eq split: option.splits)

lemma guarded_emits: "emits P (inner r) \<Longrightarrow> emits P (guarded r)"
  unfolding emits_def guarded_eq by (auto split: option.splits)

lemma guarded_nopanic: "nopanic (inner r) \<Longrightarrow> nopanic (guarded r)"
  unfolding nopanic_def guarded_eq by (auto split: option.splits)

end

lemma check_first_guarded:
  "guarded_rpc (\<lambda>r s. check r) inner (\<lambda>r. check_first (check r) (inner r))"
  by unfold_locales (simp_all add: check_first_def io_simps)

interpretation guarded_create: guarded_rpc
  "\<lambda>r s. validateCreateVolumeRequest r removing fss" "cs_CreateVolume inner"
  "cs_CreateVolume (ControllerServerValidator inner removing fss)" for inner removing fss
  unfolding ControllerServerValidator_def ControllerServer.simps by (rule check_first_guarded)

interpretation guarded_delete: guarded_rpc
  "\<lambda>r s. validateDeleteVolumeRequest r removing" "cs_DeleteVolume inner"
  "cs_DeleteVolume (ControllerServerValidator inner removing fss)" for inner removing fss
  unfolding ControllerServerValidator_def ControllerServer.simps by (rule check_first_guarded)

interpretation guarded_caps: guarded_rpc
  "\<lambda>r s. validateValidateVolumeCapabilitiesRequest r removing fss" "cs_ValidateVolumeCapabilities inner"
  "cs_ValidateVolumeCapabilities (ControllerServerValidator inner removing fss)" for inner removing fss
  unfolding ControllerServerValidator_def ControllerServer.simps by (rule check_first_guarded)

interpretation guarded_capacity: guarded_rpc
  "\<lambda>r s. validateGetCapacityRequest r fss" "cs_GetCapacity inner"
  "cs_GetCapacity (ControllerServerValidator inner removing fss)" for inner removing fss
  unfolding ControllerServerValidator_def ControllerServer.simps checked_GetCapacity_def by (rule check_first_guarded)

definition proxied :: "'w gs \<Rightarrow> bool" where
  "proxied s \<longleftrightarrow> StolakeURL s \<noteq> ''none'' \<and> StolakeURL s \<noteq> ''''"

lemma ProxyMode_proxied: "ProxyMode s = (Ret (proxied s), s)"
  by (simp add: ProxyMode_def proxied_def io_simps)

interpretation guarded_publish: guarded_rpc
  "\<lambda>r s. validateNodePublishVolumeRequest r removing fss (proxied s)" "ns_NodePublishVolume inner"
  "ns_NodePublishVolume (NodeServerValidator inner removing fss)" for inner removing fss
  unfolding NodeServerValidator_def NodeServer.simps
  by unfold_locales (simp_all add: bind_Ret [OF ProxyMode_proxied] check_first_def io_simps)

interpretation guarded_unpublish: guarded_rpc
  "\<lambda>r s. validateNodeUnpublishVolumeRequest r removing" "ns_NodeUnpublishVolume inner"
  "ns_NodeUnpublishVolume (NodeServerValidator inner removing fss)" for inner removing fss
  unfolding NodeServerValidator_def NodeServer.simps by (rule check_first_guarded)

section \<open>What is accepted\<close>

definition single_node :: "VolumeCapability \<Rightarrow> bool" where
  "single_node c \<longleftrightarrow> access_mode c = Some SINGLE_NODE_WRITER \<or> access_mode c = Some SINGLE_NODE_READER_ONLY"

definition fs_known :: "gomap option \<Rightarrow> VolumeCapability \<Rightarrow> bool" where
  "fs_known fss c = (case GetMount c of None \<Rightarrow> True | Some mnt \<Rightarrow> nget fss (fs_type mnt) \<noteq> None)"

lemma capability_accepted_aux:
  "validateVolumeCapability c fss okfs ro = None \<longleftrightarrow>
     access_type c \<noteq> None \<and> single_node c \<and> (okfs \<or> fs_known fss c) \<and>
     \<not> (GetBlock c \<and> (ro \<or> access_mode c = Some SINGLE_NODE_READER_ONLY))"
proof (cases "access_mode c")
  case None
  then show ?thesis
    by (auto simp: validateVolumeCapability_def single_node_def)
next
  case (Some m)
  then show ?thesis
    by (cases m; cases "GetMount c")
       (auto simp: validateVolumeCapability_def single_node_def fs_known_def GetMode_def)
qed

text \<open>C21: a capability is accepted exactly when it names an access type, asks for a single-node
  mode, asks for no unknown file system (unless those are let through), and does not ask for
  a read-only block device.\<close>

theorem capability_accepted_iff:
  "validateVolumeCapability c fss okfs ro = None \<longleftrightarrow>
     access_type c \<noteq> None \<and> single_node c \<and> (okfs \<or> fs_known fss c) \<and>
     \<not> (GetBlock c \<and> (ro \<or> access_mode c = Some SINGLE_NODE_READER_ONLY))"
  by (rule capability_accepted_aux)

lemma validate_each_None_iff:
  "validate_each cs fss okfs = None \<longleftrightarrow> list_all (\<lambda>c. validateVolumeCapability c fss okfs False = None) cs"
  by (induction cs) (auto split: option.splits)

text \<open>
  a \<open>CreateVolume\<close> request passes exactly when the plugin is not removing its volume group,
  the name is given, the capacity range, if any, is set and not empty as a signed interval,
  and there is at least one capability and all are acceptable.\<close>

theorem create_request_accepted_iff:
  "validateCreateVolumeRequest r removing fss = None \<longleftrightarrow>
     \<not> removing \<and> cv_name r \<noteq> '''' \<and>
     (case cv_capacity_range r of None \<Rightarrow> True
      | Some cr \<Rightarrow> \<not> (required_bytes cr = 0 \<and> limit_bytes cr = 0) \<and>
          (limit_bytes cr = 0 \<or> sint (required_bytes cr) \<le> sint (limit_bytes cr))) \<and>
     cv_volume_capabilities r \<noteq> [] \<and>
     list_all (\<lambda>c. validateVolumeCapability c fss False False = None) (cv_volume_capabilities r)"
  by (auto simp: validateCreateVolumeRequest_def validateRemoving_def validateCapacityRange_def
      validateVolumeCapabilities_def validate_each_None_iff word_sless_alt not_less split: option.split)

text \<open>
  While the plugin removes its volume group, the five RPCs that check for it return
  \<open>ErrRemovingMode\<close>, whatever the request, and touch nothing.\<close>

theorem removing_mode_refuses:
  "cs_CreateVolume (ControllerServerValidator cinner True fss) r1 s = (Ret (Inl ErrRemovingMode), s) \<and>
   cs_DeleteVolume (ControllerServerValidator cinner True fss) r2 s = (Ret (Inl ErrRemovingMode), s) \<and>
   cs_ValidateVolumeCapabilities (ControllerServerValidator cinner True fss) r3 s = (Ret (Inl ErrRemovingMode), s) \<and>
   ns_NodePublishVolume (NodeServerValidator ninner True fss) r4 s = (Ret (Inl ErrRemovingMode), s) \<and>
   ns_NodeUnpublishVolume (NodeServerValidator ninner True fss) r5 s = (Ret (Inl ErrRemovingMode), s)"
  by (intro conjI guarded_create.rejected guarded_delete.rejected guarded_caps.rejected
      guarded_publish.rejected guarded_unpublish.rejected)
     (simp_all add: validateCreateVolumeRequest_def validateDeleteVolumeRequest_def
      validateValidateVolumeCapabilitiesRequest_def validateNodePublishVolumeRequest_def
      validateNodeUnpublishVolumeRequest_def validateRemoving_def first_err_def)

text \<open>
  A request to publish is handed to the server only with a volume id, a target path, a
  capability with an access type and a single-node mode, and in proxy mode a publish context.\<close>

theorem publish_request_accepted:
  assumes "ns_NodePublishVolume (NodeServerValidator inner removing fss) r s = (out, s')" and "s' \<noteq> s"
  shows "\<not> removing \<and> np_volume_id r \<noteq> '''' \<and> np_target_path r \<noteq> '''' \<and>
    (proxied s \<longrightarrow> np_publish_context r \<noteq> None) \<and>
    (\<exists>c. np_volume_capability r = Some c \<and> access_type c \<noteq> None \<and> single_node c \<and> fs_known fss c)"
  using guarded_publish.effect_only_if_accepted [OF assms]
  by (auto simp: validateNodePublishVolumeRequest_def validateRemoving_def capability_accepted_aux
      split: if_splits option.splits)

text \<open>A node service that only notes that it was called, for the example.\<close>

definition noting_node :: "unit NodeServer" where
  "noting_node = \<lparr>
     ns_NodePublishVolume = (\<lambda>r. bind (extcall (Os ''publish'' [np_volume_id r]) (\<lambda>w. ((), w))) ok),
     ns_NodeUnpublishVolume = (\<lambda>r. bind (extcall (Os ''unpublish'' [nu_volume_id r]) (\<lambda>w. ((), w))) ok),
     ns_NodeGetCapabilities = ok [], ns_NodeGetInfo = ok \<lparr>ni_node_id = '''', ni_segments = []\<rparr>,
     ns_NodeStageVolume = ok (), ns_NodeUnstageVolume = ok (), ns_NodeExpandVolume = ok (),
     ns_NodeGetVolumeStats = ok ()\<rparr>"

definition sample_publish :: NodePublishVolumeRequest where
  "sample_publish = \<lparr>np_volume_id = ''csilv1'', np_publish_context = Some [(''datapath'', ''direct'')],
     np_target_path = ''/data'', np_volume_capability = Some \<lparr>access_type = Some (AccessMount
       (Some \<lparr>fs_type = ''xfs'', mount_flags = [], volume_mount_group = ''''\<rparr>)), access_mode = Some SINGLE_NODE_WRITER\<rparr>,
     np_readonly = False\<rparr>"

theorem publish_request_accepted_witness:
  "\<exists>out s'. ns_NodePublishVolume (NodeServerValidator noting_node False (Some [(''xfs'', ''xfs'')])) sample_publish (quiet_state ())
      = (out, s') \<and> s' \<noteq> quiet_state () \<and> np_volume_id sample_publish \<noteq> ''''"
proof -
  define res where "res = ns_NodePublishVolume (NodeServerValidator noting_node False (Some [(''xfs'', ''xfs'')]))
      sample_publish (quiet_state ())"
  have "trace (snd res) = [Os ''publish'' [''csilv1'']]" unfolding res_def by code_simp
  then have ne: "snd res \<noteq> quiet_state ()" by (auto simp: quiet_state_def)
  show ?thesis
    using publish_request_accepted [of noting_node False "Some [(''xfs'', ''xfs'')]" sample_publish
        "quiet_state ()" "fst res" "snd res"] ne
    by (metis prod.collapse res_def)
qed


end
