(* ===== verification/Controller.thy ===== *)
theory Controller
  imports Server Validate
begin

text \<open>
  The Controller service of \<open>pkg/csilvm/server.go\<close>, one definition per RPC. The lemmas say what
  a new volume looks like and that its size fits the request, that an existing volume is
  reused and nothing created, that only the named volume is ever removed, that the queries
  change nothing, and where the code panics or wraps around.
\<close>

section \<open>Errors\<close>

definition ErrVolumeAlreadyExists :: rpc_err where
  "ErrVolumeAlreadyExists = Status AlreadyExists ''The volume already exists''"
definition ErrInsufficientCapacity :: rpc_err where
  "ErrInsufficientCapacity = Status OutOfRange ''Not enough free space''"
definition ErrTooFewDisksStatus :: rpc_err where
  "ErrTooFewDisksStatus = Status OutOfRange (''The volume group does not have enough underlying ''
     @ ''physical devices to support the requested RAID configuration'')"
definition ErrVolumeNotFound :: rpc_err where
  "ErrVolumeNotFound = Status NotFound ''The volume does not exist.''"
definition ErrCallNotImplemented :: rpc_err where
  "ErrCallNotImplemented = Status Unimplemented ''That RPC is not implemented.''"
definition ErrUnsupportDatapath :: rpc_err where
  "ErrUnsupportDatapath = Status NotFound ''The datapath mode is not supported.''"
definition ErrMismatchedFilesystemType :: rpc_err where
  "ErrMismatchedFilesystemType = Status InvalidArgument
     ''The requeed fs_type does not match the existing filesystem on the volume.''"

definition ErrNotMultipleOfExtentSize :: "uint64 \<Rightarrow> rpc_err" where
  "ErrNotMultipleOfExtentSize extentSize = Status OutOfRange
     (''Volume capacity must be a multiple of '' @ fmt_d (drop_bit 20 extentSize) @ ''MiB'')"

section \<open>Creating a volume\<close>

definition volumeAttributes :: "'w sys \<Rightarrow> LogicalVolume \<Rightarrow> ('w gs, goerr + gomap option) io" where
  "volumeAttributes sys lv =
     tryE (Tags_lv sys lv) fail (\<lambda>t.
       if t = [] then ok None
       else ok (Some (map_set ''tags'' (b64_encode (Marshal_strings t)) [])))"

definition attributes_error :: "goerr \<Rightarrow> rpc_err" where
  "attributes_error = wrap Internal ''failed to get volume attributes: err=''"

definition validateExistingVolume ::
  "'w sys \<Rightarrow> LogicalVolume \<Rightarrow> CreateVolumeRequest \<Rightarrow> ('w gs, rpc_err option) io" where
  "validateExistingVolume sys lv request =
     (let sz = lvol_sizeInBytes lv;
          misfit = (case cv_capacity_range request of
              None \<Rightarrow> False
            | Some r \<Rightarrow> required_bytes r \<noteq> 0 \<and> sz <s required_bytes r \<or>
                        limit_bytes r \<noteq> 0 \<and> limit_bytes r <s sz)
      in if misfit then ret (Some ErrVolumeAlreadyExists)
         else tryE (Path_lv sys lv) (\<lambda>e. ret (Some (wrap Internal ''Error in Path(): err='' e))) (\<lambda>_. ret None))"

text \<open>The loop that draws a volume id that no volume has yet, at most \<open>n\<close> times.\<close>

definition lvPrefix :: string where
  "lvPrefix = ''csilv''"

fun allocate_id :: "'w sys \<Rightarrow> VolumeGroup option \<Rightarrow> nat \<Rightarrow> ('w gs, string option) io" where
  "allocate_id sys vg 0 = ret None"
| "allocate_id sys vg (Suc n) =
     bind (extcall (Os ''rand'' []) (sys_rand sys)) (\<lambda>r.
       let tryID = lvPrefix @ FormatUint r 36 in
       bind (LookupLogicalVolume sys vg tryID) (\<lambda>res. case res of
           Inr _ \<Rightarrow> allocate_id sys vg n
         | Inl _ \<Rightarrow> ret (Some tryID)))"

definition round_up :: "uint64 \<Rightarrow> uint64 \<Rightarrow> uint64" where
  "round_up sz extentSize =
     (if sz mod extentSize \<noteq> 0 then ((sz + extentSize) div extentSize) * extentSize else sz)"

definition check_size :: "uint64 \<Rightarrow> uint64 \<Rightarrow> uint64 \<Rightarrow> CapacityRange \<Rightarrow> rpc_err + uint64" where
  "check_size sz extentSize bytesFree r =
     (if bytesFree < sz then Inl ErrInsufficientCapacity
      else if limit_bytes r \<noteq> 0 \<and> limit_bytes r < sz then Inl (ErrNotMultipleOfExtentSize extentSize)
      else Inr sz)"

definition requested_size ::
  "'w sys \<Rightarrow> Server \<Rightarrow> CreateVolumeRequest \<Rightarrow> VolumeLayout \<Rightarrow> ('w, uint64) rpc" where
  "requested_size sys srv request layout =
     (case cv_capacity_range request of
        None \<Rightarrow> ok (srv_defaultVolumeSize srv)
      | Some r \<Rightarrow>
          tryR (ExtentSize sys (srv_volumeGroup srv)) (wrap Internal ''Error in ExtentSize: err='') (\<lambda>extentSize.
          if extentSize = 0 then panic ''integer divide by zero''
          else let sz = round_up (required_bytes r) extentSize in
          tryR (BytesFree sys (srv_volumeGroup srv) layout) (wrap Internal ''Error in BytesFree: err='') (\<lambda>bytesFree.
          ret (check_size sz extentSize bytesFree r))))"

text \<open>The entries \<open>CreateVolume\<close> adds to the volume context; each is an assignment to the map,
  which panics when the map is \<open>nil\<close>.\<close>

definition context_entries :: "gomap option \<Rightarrow> (string \<times> string) list" where
  "context_entries params =
     (case nget params ''iopspergb'' of None \<Rightarrow> [] | Some v \<Rightarrow> [(''iopspergb'', v)]) @
     (case nget params ''mbpspergb'' of None \<Rightarrow> [] | Some v \<Rightarrow> [(''mbpspergb'', v)]) @
     [(''datapath'', case nget params ''datapath'' of None \<Rightarrow> ''direct'' | Some v \<Rightarrow> ToLower v)] @
     (case nget params ''stolakejobfurls'' of None \<Rightarrow> [] | Some v \<Rightarrow> [(''stolakejobfurls'', v)])"

fun set_entries :: "(string \<times> string) list \<Rightarrow> gomap option \<Rightarrow> gomap option outcome" where
  "set_entries [] m = Ret m"
| "set_entries ((k, v) # kvs) m =
     (case nset k v m of Panic msg \<Rightarrow> Panic msg | Ret m' \<Rightarrow> set_entries kvs m')"

definition create_error :: "goerr \<Rightarrow> rpc_err" where
  "create_error e =
     (if e = ErrInvalidLVName then wrap InvalidArgument ''The volume name is invalid: err='' e
      else if e = ErrNoSpace then ErrInsufficientCapacity
      else if e = ErrTooFewDisks then ErrTooFewDisksStatus
      else wrap Internal ''Error in CreateLogicalVolume: err='' e)"

definition existing_volume :: "'w sys \<Rightarrow> CreateVolumeRequest \<Rightarrow> LogicalVolume \<Rightarrow> ('w, Volume) rpc" where
  "existing_volume sys request lv =
     bind (validateExistingVolume sys lv request) (\<lambda>err. case err of
       Some e \<Rightarrow> fail e
     | None \<Rightarrow> tryR (volumeAttributes sys lv) attributes_error (\<lambda>attr.
         ok \<lparr>vol_capacity_bytes = lvol_sizeInBytes lv, vol_volume_id = lvol_name lv, vol_volume_context = attr\<rparr>))"

text \<open>The end of \<open>CreateVolume\<close>, once the logical volume exists.\<close>

definition finish_volume ::
  "'w sys \<Rightarrow> Server \<Rightarrow> gomap option \<Rightarrow> string \<Rightarrow> LogicalVolume \<Rightarrow> ('w, Volume) rpc" where
  "finish_volume sys srv params volumeID lv =
     tryR (volumeAttributes sys lv) attributes_error (\<lambda>attr.
     bind (lift_outcome (set_entries (context_entries params) attr)) (\<lambda>attr'.
     and_report sys srv
       (ok \<lparr>vol_capacity_bytes = lvol_sizeInBytes lv, vol_volume_id = volumeID, vol_volume_context = attr'\<rparr>)))"

definition new_volume ::
  "'w sys \<Rightarrow> Server \<Rightarrow> CreateVolumeRequest \<Rightarrow> string list \<Rightarrow> string \<Rightarrow> ('w, Volume) rpc" where
  "new_volume sys srv request tags volumeID =
     (case takeVolumeLayoutFromParameters (dupParams (cv_parameters request)) of
        (Some e, _, _) \<Rightarrow> fail (wrap Internal ''Invalid volume layout: err='' e)
      | (None, layout, params) \<Rightarrow>
     tryE (requested_size sys srv request layout) fail (\<lambda>sz.
     case volumeOptsFromParameters (cv_parameters request) of
       Inl e \<Rightarrow> fail (wrap InvalidArgument ''Invalid parameters: '' e)
     | Inr lvopts \<Rightarrow>
     tryR (CreateLogicalVolume sys (srv_volumeGroup srv) volumeID sz tags lvopts) create_error (\<lambda>lv.
     finish_volume sys srv params volumeID lv)))"

definition CreateVolume :: "'w sys \<Rightarrow> Server \<Rightarrow> CreateVolumeRequest \<Rightarrow> ('w, Volume) rpc" where
  "CreateVolume sys srv request =
     (let encodedName = volumeNameToTag (cv_name request);
          tags = srv_tags srv @ [encodedName]
      in bind (FindLogicalVolume sys (srv_volumeGroup srv) (LVMatchTag encodedName)) (\<lambda>found.
         case found of
           Inr lv \<Rightarrow> existing_volume sys request lv
         | Inl _ \<Rightarrow> bind (allocate_id sys (srv_volumeGroup srv) 10) (\<lambda>volumeID.
             case volumeID of
               None \<Rightarrow> fail (Status Internal ''Failed to allocate volume ID'')
             | Some vid \<Rightarrow> new_volume sys srv request tags vid)))"

section \<open>Deleting, publishing, unpublishing\<close>

definition DeleteVolume :: "'w sys \<Rightarrow> Server \<Rightarrow> DeleteVolumeRequest \<Rightarrow> ('w, unit) rpc" where
  "DeleteVolume sys srv request =
     bind (LookupLogicalVolume sys (srv_volumeGroup srv) (dv_volume_id request)) (\<lambda>found.
       case found of
         Inl _ \<Rightarrow> ok ()
       | Inr lv \<Rightarrow> bind (Remove_lv sys lv) (\<lambda>err.
           case err of
             Some e \<Rightarrow> fail (wrap Internal ''Failed to remove volume: err='' e)
           | None \<Rightarrow> and_report sys srv (ok ())))"

text \<open>The three assignments of the iSCSI branch, on the copy of the volume context.\<close>

definition publish_iscsi ::
  "'w sys \<Rightarrow> Server \<Rightarrow> string \<Rightarrow> string \<Rightarrow> gomap option \<Rightarrow> ('w, gomap option) rpc" where
  "publish_iscsi sys srv volumeID nodeID pubcontext =
     tryR (LookupLogicalVolume sys (srv_volumeGroup srv) volumeID) (\<lambda>_. ErrVolumeNotFound) (\<lambda>lv.
     tryR (Uuid_lv sys lv) (\<lambda>_. ErrVolumeNotFound) (\<lambda>lvuuid.
     bind (Activate_lv sys lv) (\<lambda>err. case err of Some _ \<Rightarrow> fail ErrVolumeNotFound | None \<Rightarrow>
     bind (StageIscsiTarget sys lvuuid nodeID) (\<lambda>((targetiqn, lun, portal), err).
     case err of Some _ \<Rightarrow> fail ErrVolumeNotFound | None \<Rightarrow>
     bind (lift_outcome (set_entries [(''blockid'', targetiqn), (''lun'', lun), (''portal'', portal)] pubcontext)) ok))))"

definition publish_jbof ::
  "'w sys \<Rightarrow> Server \<Rightarrow> string \<Rightarrow> gomap option \<Rightarrow> ('w, gomap option) rpc" where
  "publish_jbof sys srv nodeID pubcontext =
     (case nget pubcontext ''stolakejobfurls'' of
        None \<Rightarrow> fail (Status InvalidArgument ''Missing stolakejobfurls parameter in storage class'')
      | Some urls \<Rightarrow>
          tryR (JbofStageIscsiTargets sys (srv_vgname srv) urls nodeID) (\<lambda>_. ErrVolumeNotFound) (\<lambda>targetlist.
          bind (lift_outcome (set_entries [(''blockid'', ''unknown at CtrlPub phase''), (''targetlist'', targetlist)] pubcontext)) ok))"

definition ControllerPublishVolume ::
  "'w sys \<Rightarrow> Server \<Rightarrow> ControllerPublishVolumeRequest \<Rightarrow> ('w, gomap option) rpc" where
  "ControllerPublishVolume sys srv req =
     (let pubcontext = dupParams (cp_volume_context req);
          datapath = ToLower (nval pubcontext ''datapath'')
      in if cp_volume_id req = '''' then fail (Status InvalidArgument ''no volume ID provided'')
         else if cp_node_id req = '''' then fail (Status InvalidArgument ''no node ID provided'')
         else if cp_volume_capability req = None then fail (Status InvalidArgument ''no volume capabilities provided'')
         else if datapath = ''iscsi'' then publish_iscsi sys srv (cp_volume_id req) (cp_node_id req) pubcontext
         else if datapath = ''jbofis'' then publish_jbof sys srv (cp_node_id req) pubcontext
         else if datapath = ''nvme'' then fail ErrUnsupportDatapath
         else if datapath = ''qemu'' then fail ErrUnsupportDatapath
         else bind (lift_outcome (set_entries [(''blockid'', ''notneeded'')] pubcontext)) ok)"

definition ControllerUnpublishVolume ::
  "'w sys \<Rightarrow> Server \<Rightarrow> ControllerUnpublishVolumeRequest \<Rightarrow> ('w, unit) rpc" where
  "ControllerUnpublishVolume sys srv request =
     (if cu_node_id request = '''' then fail (Status InvalidArgument ''no node ID provided'')
      else bind (LookupLogicalVolume sys (srv_volumeGroup srv) (cu_volume_id request)) (\<lambda>found.
        case found of
          Inl _ \<Rightarrow> ok ()
        | Inr lv \<Rightarrow>
            bind (Uuid_lv sys lv) (\<lambda>r.
            let lvuuid = (case r of Inl _ \<Rightarrow> '''' | Inr u \<Rightarrow> u) in
            bind (UnStageIscsiTarget sys lvuuid (cu_node_id request)) (\<lambda>_.
            bind (Deactivate_lv sys lv) (\<lambda>_. ok ())))))"

section \<open>Queries\<close>

text \<open>The \<open>TYPE\<close> line of the output of \<open>blkid\<close>; a line before it that is not \<open>key=value\<close> is an error.\<close>

fun blkid_type :: "string list \<Rightarrow> goerr + string" where
  "blkid_type [] = Inl (TextError ''Cannot parse output of blkid.'')"
| "blkid_type (line # rest) =
     (case Split (TrimSpace line) CHR ''='' of
        [k, v] \<Rightarrow> if k = ''TYPE'' then Inr v else blkid_type rest
      | _ \<Rightarrow> Inl (TextError ''Cannot parse output of blkid.''))"

definition determineLocalFilesystemType :: "'w sys \<Rightarrow> string \<Rightarrow> ('w gs, goerr + string) io" where
  "determineLocalFilesystemType sys devicePath =
     bind (extcall (Exec ''file'' [''-bsL'', devicePath]) (sys_combined sys ''file'' [''-bsL'', devicePath]))
       (\<lambda>(out, err). case err of
          Some e \<Rightarrow> fail (TextError e)
        | None \<Rightarrow>
            if TrimSpace out = ''data'' then ok ''''
            else bind (extcall (Exec ''blkid'' [''-c'', ''/dev/null'', ''-o'', ''export'', devicePath])
                    (sys_combined sys ''blkid'' [''-c'', ''/dev/null'', ''-o'', ''export'', devicePath]))
              (\<lambda>(out, err). case err of
                 Some e \<Rightarrow> fail (TextError e)
               | None \<Rightarrow> ret (blkid_type (Split out CHR 0x0A))))"

definition determineFilesystemType :: "'w sys \<Rightarrow> string \<Rightarrow> ('w gs, goerr + string) io" where
  "determineFilesystemType sys devicePath =
     bind ProxyMode (\<lambda>proxy.
       if proxy then FstypeProxy sys devicePath else determineLocalFilesystemType sys devicePath)"

definition fs_mismatch :: "string \<Rightarrow> VolumeCapability \<Rightarrow> bool" where
  "fs_mismatch existing c =
     (case GetMount c of
        None \<Rightarrow> False
      | Some mnt \<Rightarrow> existing \<noteq> '''' \<and> fs_type mnt \<noteq> '''' \<and> existing \<noteq> fs_type mnt)"

definition ValidateVolumeCapabilities ::
  "'w sys \<Rightarrow> Server \<Rightarrow> ValidateVolumeCapabilitiesRequest \<Rightarrow> ('w, string) rpc" where
  "ValidateVolumeCapabilities sys srv request =
     tryR (LookupLogicalVolume sys (srv_volumeGroup srv) (vc_volume_id request)) (\<lambda>_. ErrVolumeNotFound) (\<lambda>lv.
     tryR (Path_lv sys lv) (wrap Internal ''Error in Path(): err='') (\<lambda>sourcePath.
     tryR (determineFilesystemType sys sourcePath) (wrap Internal ''Cannot determine filesystem type: err='') (\<lambda>existing.
     if list_ex (fs_mismatch existing) (vc_volume_capabilities request) then fail ErrMismatchedFilesystemType
     else ok '''')))"

fun list_entries :: "'w sys \<Rightarrow> Server \<Rightarrow> string list \<Rightarrow> Volume list \<Rightarrow> ('w, Volume list) rpc" where
  "list_entries sys srv [] entries = and_report sys srv (ok entries)"
| "list_entries sys srv (volname # rest) entries =
     tryR (LookupLogicalVolume sys (srv_volumeGroup srv) volname) (\<lambda>_. ErrVolumeNotFound) (\<lambda>lv.
     tryR (volumeAttributes sys lv) attributes_error (\<lambda>attr.
     list_entries sys srv rest (entries @
       [\<lparr>vol_capacity_bytes = lvol_sizeInBytes lv, vol_volume_id = lvol_name lv, vol_volume_context = attr\<rparr>])))"

definition ListVolumes :: "'w sys \<Rightarrow> Server \<Rightarrow> ListVolumesRequest \<Rightarrow> ('w, Volume list) rpc" where
  "ListVolumes sys srv request =
     (if srv_removingVolumeGroup srv then ok []
      else if ls_starting_token request \<noteq> '''' then fail (Status Aborted ''Starting_Token field not implemented.'')
      else tryR (ListLogicalVolumeNames sys (srv_volumeGroup srv)) (wrap Internal ''Cannot list volume names: err='')
        (\<lambda>volnames. list_entries sys srv volnames []))"

definition unsupported_fs :: "Server \<Rightarrow> VolumeCapability \<Rightarrow> bool" where
  "unsupported_fs srv c =
     (case GetMount c of None \<Rightarrow> False
      | Some mnt \<Rightarrow> map_get (srv_supportedFilesystems srv) (fs_type mnt) = None)"

definition GetCapacity :: "'w sys \<Rightarrow> Server \<Rightarrow> GetCapacityRequest \<Rightarrow> ('w, int64) rpc" where
  "GetCapacity sys srv request =
     (if srv_removingVolumeGroup srv then ok 0
      else if list_ex (unsupported_fs srv) (gc_volume_capabilities request) then ok 0
      else (case takeVolumeLayoutFromParameters (dupParams (gc_parameters request)) of
          (Some e, _, _) \<Rightarrow> fail (wrap Internal ''Invalid volume layout: err='' e)
        | (None, layout, _) \<Rightarrow>
            tryR (BytesFree sys (srv_volumeGroup srv) layout) (wrap Internal ''Error in BytesFree: err='') (\<lambda>bytesFree.
              and_report sys srv (ok bytesFree))))"

definition ControllerGetCapabilities :: "('w, ControllerCapability list) rpc" where
  "ControllerGetCapabilities = ok [CREATE_DELETE_VOLUME, PUBLISH_UNPUBLISH_VOLUME, LIST_VOLUMES, GET_CAPACITY]"

definition CreateSnapshot :: "('w, unit) rpc" where "CreateSnapshot = fail ErrCallNotImplemented"
definition DeleteSnapshot :: "('w, unit) rpc" where "DeleteSnapshot = fail ErrCallNotImplemented"
definition ListSnapshots :: "('w, unit) rpc" where "ListSnapshots = fail ErrCallNotImplemented"
definition ControllerExpandVolume :: "('w, unit) rpc" where "ControllerExpandVolume = fail ErrCallNotImplemented"
definition ControllerGetVolume :: "('w, unit) rpc" where "ControllerGetVolume = fail ErrCallNotImplemented"

definition controller_server :: "'w sys \<Rightarrow> Server \<Rightarrow> 'w ControllerServer" where
  "controller_server sys srv = \<lparr>
     cs_CreateVolume = CreateVolume sys srv,
     cs_DeleteVolume = DeleteVolume sys srv,
     cs_ControllerPublishVolume = ControllerPublishVolume sys srv,
     cs_ControllerUnpublishVolume = ControllerUnpublishVolume sys srv,
     cs_ValidateVolumeCapabilities = ValidateVolumeCapabilities sys srv,
     cs_ListVolumes = ListVolumes sys srv,
     cs_GetCapacity = GetCapacity sys srv,
     cs_ControllerGetCapabilities = ControllerGetCapabilities,
     cs_CreateSnapshot = CreateSnapshot,
     cs_DeleteSnapshot = DeleteSnapshot,
     cs_ListSnapshots = ListSnapshots,
     cs_ControllerExpandVolume = ControllerExpandVolume,
     cs_ControllerGetVolume = ControllerGetVolume\<rparr>"


section \<open>The size of a new volume\<close>

lemma unat_of_sint:
  fixes w :: int64
  assumes "0 \<le> sint w"
  shows "unat w < 2 ^ 63"
proof -
  have l: "sint w < 2 ^ 63" using sint_less [of w] by simp
  have "uint w = take_bit 64 (sint w)" using uint_sint [of w] by simp
  also have "\<dots> = sint w" using assms l by (simp add: take_bit_int_eq_self)
  finally have "uint w < 2 ^ 63" using l by simp
  then have "int (unat w) < 2 ^ 63" by (simp only: uint_nat)
  then show ?thesis by (simp only: of_nat_less_numeral_power_cancel_iff)
qed

lemma round_up_unat:
  assumes "es \<noteq> 0" and "unat req + unat es < 2 ^ 64"
  shows "unat (round_up req es) =
    (if unat req mod unat es = 0 then unat req else (unat req div unat es + 1) * unat es)"
proof -
  have es: "0 < unat es" using assms(1) by (simp add: unat_gt_0)
  have m0: "req mod es = 0 \<longleftrightarrow> unat req mod unat es = 0"
    by (metis unat_eq_zero unat_mod_distrib)
  show ?thesis
  proof (cases "unat req mod unat es = 0")
    case True
    then show ?thesis by (simp add: round_up_def m0)
  next
    case False
    have s: "unat (req + es) = unat req + unat es" using assms(2) unat_add_lem [of req es] by simp
    have q: "(unat req + unat es) div unat es = unat req div unat es + 1"
      by (rule div_add_self2) (use es in simp)
    have le: "unat req div unat es * unat es \<le> unat req" by (rule div_times_less_eq_dividend)
    have "(unat req div unat es + 1) * unat es = unat req div unat es * unat es + unat es"
      by (simp only: add_mult_distrib mult_1)
    then have b: "(unat req div unat es + 1) * unat es < 2 ^ 64"
      using le assms(2) by linarith
    have d: "unat ((req + es) div es) = unat req div unat es + 1"
      using s q by (simp add: unat_div)
    have "unat (((req + es) div es) * es) = (unat req div unat es + 1) * unat es"
      using b by (subst unat_word_ariths) (simp add: d)
    with False show ?thesis by (simp add: round_up_def m0)
  qed
qed

lemma round_up_bounds:
  assumes "es \<noteq> 0" and "unat req + unat es < 2 ^ 64"
  shows "unat req \<le> unat (round_up req es)" and "unat (round_up req es) < unat req + unat es"
    and "unat es dvd unat (round_up req es)"
proof -
  have es: "0 < unat es" using assms(1) by (simp add: unat_gt_0)
  define q r where "q = unat req div unat es" and "r = unat req mod unat es"
  have d: "unat req = q * unat es + r" and r: "r < unat es"
    using es by (simp_all add: q_def r_def)
  note u = round_up_unat [OF assms, folded q_def r_def]
  show "unat req \<le> unat (round_up req es)" "unat (round_up req es) < unat req + unat es"
    using u d r es by (auto simp: add_mult_distrib)
  show "unat es dvd unat (round_up req es)"
    using u d by (auto split: if_splits)
qed

lemma check_size_Inr:
  "check_size sz es free r = Inr x \<longleftrightarrow> x = sz \<and> sz \<le> free \<and> (limit_bytes r = 0 \<or> sz \<le> limit_bytes r)"
  by (auto simp: check_size_def not_less)

lemma requested_size_Some:
  assumes "cv_capacity_range request = Some r"
    and "requested_size sys srv request layout s = (Ret (Inr sz), s')"
  obtains es s1 free where "ExtentSize sys (srv_volumeGroup srv) s = (Ret (Inr es), s1)" and "es \<noteq> 0"
    and "BytesFree sys (srv_volumeGroup srv) layout s1 = (Ret (Inr free), s')"
    and "sz = round_up (required_bytes r) es" and "sz \<le> free"
    and "limit_bytes r = 0 \<or> sz \<le> limit_bytes r"
  using assms unfolding requested_size_def
  by (auto elim!: tryR_cases simp: panic_def ret_def check_size_Inr Let_def split: if_splits)

text \<open>C17: the size of a new volume with a capacity range is the smallest multiple of the extent
  size that is at least the required bytes; it does not exceed the limit, and the free space
  reported just before covers it. (For required bytes that are not negative.)\<close>

theorem new_volume_size:
  assumes "cv_capacity_range request = Some r"
    and "requested_size sys srv request layout s = (Ret (Inr sz), s')"
    and "ExtentSize sys (srv_volumeGroup srv) s = (Ret (Inr es), s1)"
    and "0 \<le> sint (required_bytes r)" and "unat es < 2 ^ 63"
  shows "unat (required_bytes r) \<le> unat sz \<and> unat sz < unat (required_bytes r) + unat es \<and>
    unat es dvd unat sz \<and> (limit_bytes r = 0 \<or> sz \<le> limit_bytes r) \<and>
    (\<exists>free. BytesFree sys (srv_volumeGroup srv) layout s1 = (Ret (Inr free), s') \<and> sz \<le> free)"
proof -
  obtain es' s1' free where h: "ExtentSize sys (srv_volumeGroup srv) s = (Ret (Inr es'), s1')" "es' \<noteq> 0"
      "BytesFree sys (srv_volumeGroup srv) layout s1' = (Ret (Inr free), s')"
      "sz = round_up (required_bytes r) es'" "sz \<le> free" "limit_bytes r = 0 \<or> sz \<le> limit_bytes r"
    using requested_size_Some [OF assms(1,2)] .
  have same: "es' = es" "s1' = s1" using h(1) assms(3) by simp_all
  have "unat (required_bytes r) < 2 ^ 63"
    by (rule unat_of_sint) (rule assms(4))
  then have "unat (required_bytes r) + unat es < 2 ^ 64" using assms(5) by simp
  then show ?thesis
    using round_up_bounds [of es "required_bytes r"] h same by auto
qed


definition lake :: VolumeGroup where
  "lake = \<lparr>vgroup_name = ''vg0''\<rparr>"

definition lake_server :: Server where
  "lake_server = sample_server\<lparr>srv_volumeGroup := Some lake\<rparr>"

definition sample_create :: CreateVolumeRequest where
  "sample_create = \<lparr>cv_name = ''data'', cv_capacity_range = Some \<lparr>required_bytes = 9, limit_bytes = 12\<rparr>,
     cv_volume_capabilities = [\<lparr>access_type = Some (AccessBlock True), access_mode = Some SINGLE_NODE_WRITER\<rparr>],
     cv_parameters = None\<rparr>"

lemma lake_ExtentSize:
  "StolakeURL s = '''' \<Longrightarrow> ExtentSize raid_vg (Some lake) s =
     (Ret (Inr 4), s\<lparr>trace := trace s @ [Exec ''vgs'' (report_args @ [''--options=vg_extent_size'', ''vg0''])]\<rparr>)"
  by (simp add: ExtentSize_def deref_Some query_def tryE_Inr raid_vg_vgs first_item_def raid_item_def lake_def io_simps)

lemma lake_BytesFree:
  assumes "StolakeURL s = ''''"
  shows "\<exists>s'. BytesFree raid_vg (Some lake) zero_layout s = (Ret (Inr 28), s')"
proof -
  have m: "MinNumberOfDevices zero_layout = Ret 1"
    by (simp add: MinNumberOfDevices_def VolumeType_defs zero_layout_def)
  have e: "extentsFree zero_layout n = Ret n" for n
    by (simp add: extentsFree_def VolumeType_defs zero_layout_def)
  show ?thesis
    using assms
    by (simp add: BytesFree_def ListPhysicalVolumeNames_def m e deref_Some tryE_Inr raid_vg_pvs raid_vg_vgs
        raid_pvs_def lake_def too_few_devices_def lift_outcome_def query_def first_item_def raid_item_def io_simps
        cong: if_cong)
qed

theorem new_volume_size_witness:
  "\<exists>s'. requested_size raid_vg lake_server sample_create zero_layout (quiet_state ()) = (Ret (Inr 12), s') \<and>
     unat (9 :: int64) \<le> unat (12 :: uint64)"
proof -
  define s1 where "s1 = (quiet_state ())\<lparr>trace := trace (quiet_state ()) @
      [Exec ''vgs'' (report_args @ [''--options=vg_extent_size'', ''vg0''])]\<rparr>"
  have 1: "ExtentSize raid_vg (srv_volumeGroup lake_server) (quiet_state ()) = (Ret (Inr 4), s1)"
    using lake_ExtentSize [of "quiet_state ()"] by (simp add: lake_server_def s1_def quiet_state_def)
  obtain s2 where 2: "BytesFree raid_vg (srv_volumeGroup lake_server) zero_layout s1 = (Ret (Inr 28), s2)"
    using lake_BytesFree [of s1] by (auto simp: lake_server_def s1_def quiet_state_def)
  have c: "cv_capacity_range sample_create = Some \<lparr>required_bytes = 9, limit_bytes = 12\<rparr>"
    by (simp add: sample_create_def)
  have "requested_size raid_vg lake_server sample_create zero_layout (quiet_state ()) = (Ret (Inr 12), s2)"
    using 1 2 c by (simp add: requested_size_def tryR_Inr round_up_def check_size_def Let_def io_simps)
  then show ?thesis
    using new_volume_size [OF c _ 1] by simp
qed


lemma uint_negative:
  fixes w :: int64
  assumes "sint w < 0"
  shows "uint w = 2 ^ 64 + sint w" and "- (2 ^ 63) \<le> sint w"
proof -
  show g: "- (2 ^ 63) \<le> sint w" using sint_greater_eq [of w] by simp
  have "uint w = sint w mod 2 ^ 64" using uint_sint [of w] by (simp add: take_bit_eq_mod)
  also have "\<dots> = (2 ^ 64 + sint w) mod 2 ^ 64" by simp
  also have "\<dots> = 2 ^ 64 + sint w" using assms g by (intro mod_pos_pos_trivial) auto
  finally show "uint w = 2 ^ 64 + sint w" .
qed

text \<open>The rounding of a negative number: up to zero, which wraps around, when its magnitude is at
  most the extent size; to a huge number otherwise.\<close>

lemma round_up_negative:
  assumes "sint w < 0" and "w mod es \<noteq> 0"
  shows "- sint w \<le> uint es \<Longrightarrow> round_up w es = 0"
    and "uint es < - sint w \<Longrightarrow> es \<noteq> 0 \<Longrightarrow> uint w \<le> uint (round_up w es)"
proof -
  note u = uint_negative [OF assms(1)]
  have sum: "uint (w + es) = (2 ^ 64 + (sint w + uint es)) mod 2 ^ 64"
    by (simp add: uint_word_ariths(1) u(1) add.assoc)
  have es: "0 < uint es" if "es \<noteq> 0" using that word_gt_0 [of es] by (simp add: word_less_def)
  have lt: "uint es < 2 ^ 64" using uint_lt2p [of es] by simp
  {
    assume le: "- sint w \<le> uint es"
    have "uint (w + es) = sint w + uint es"
      unfolding sum mod_add_self1 using le assms(1) lt by (intro mod_pos_pos_trivial) auto
    then have "uint (w + es) < uint es" using assms(1) by simp
    then have "(w + es) div es = 0" by (intro div_word_less) (simp add: word_less_def)
    then show "round_up w es = 0" using assms(2) by (simp add: round_up_def)
  }
  {
    assume gt: "uint es < - sint w" and nz: "es \<noteq> 0"
    have "(2 :: int) ^ 63 \<le> 2 ^ 64" by simp
    then have "0 \<le> 2 ^ 64 + (sint w + uint es) \<and> 2 ^ 64 + (sint w + uint es) < 2 ^ 64"
      using gt u(2) uint_ge_0 [of es] by linarith
    then have "(2 ^ 64 + (sint w + uint es)) mod 2 ^ 64 = 2 ^ 64 + (sint w + uint es)"
      by (intro mod_pos_pos_trivial) simp_all
    then have s: "uint (w + es) = uint w + uint es" using sum u(1) by linarith
    define q where "q = (w + es) div es"
    have q: "uint q = (uint w + uint es) div uint es" by (simp add: q_def uint_div s)
    have p: "uint q * uint es = uint w + uint es - (uint w + uint es) mod uint es"
      unfolding q by (simp add: minus_mod_eq_div_mult [symmetric])
    have m: "0 \<le> (uint w + uint es) mod uint es" "(uint w + uint es) mod uint es < uint es"
      using es nz by simp_all
    have "uint (q * es) = (uint q * uint es) mod 2 ^ 64" by (simp add: uint_word_ariths(3))
    also have "\<dots> = uint q * uint es"
      using p m u(1) gt uint_ge_0 [of w] by (intro mod_pos_pos_trivial) auto
    finally show "uint w \<le> uint (round_up w es)"
      using p m assms(2) by (simp add: round_up_def q_def [symmetric])
  }
qed

text \<open>C40: what becomes of negative required bytes, which the validation accepts with or without a
  limit: when their magnitude is at most the extent size and they are, read as unsigned, no
  multiple of it, the rounding wraps around and the creation goes on with a size of zero. Other
  negative numbers are taken for huge ones and refused for want of space, if less than
  \<open>2 ^ 63\<close> bytes are free.\<close>

theorem negative_capacity_becomes_zero:
  assumes "cv_capacity_range request = Some r" and "sint (required_bytes r) < 0"
    and "limit_bytes r = 0 \<or> sint (required_bytes r) \<le> sint (limit_bytes r)"
    and "ExtentSize sys (srv_volumeGroup srv) s = (Ret (Inr es), s1)" and "es \<noteq> 0"
    and "BytesFree sys (srv_volumeGroup srv) layout s1 = (Ret (Inr free), s2)" and "uint free < 2 ^ 63"
  shows "validateCapacityRange r = None \<and>
    requested_size sys srv request layout s =
      (Ret (if required_bytes r mod es \<noteq> 0 \<and> - sint (required_bytes r) \<le> uint es then Inr 0
            else Inl ErrInsufficientCapacity), s2)"
proof
  have "required_bytes r \<noteq> 0" using assms(2) by auto
  then show "validateCapacityRange r = None"
    using assms(3) by (auto simp: validateCapacityRange_def word_sless_alt)
  note u = uint_negative [OF assms(2)]
  have run: "requested_size sys srv request layout s =
      (Ret (check_size (round_up (required_bytes r) es) es free r), s2)"
    using assms(1,4-6) by (simp add: requested_size_def tryR_Inr Let_def ret_def)
  show "requested_size sys srv request layout s =
      (Ret (if required_bytes r mod es \<noteq> 0 \<and> - sint (required_bytes r) \<le> uint es then Inr 0
            else Inl ErrInsufficientCapacity), s2)"
  proof (cases "required_bytes r mod es \<noteq> 0 \<and> - sint (required_bytes r) \<le> uint es")
    case True
    then show ?thesis using run round_up_negative(1) [OF assms(2)] by (simp add: check_size_def)
  next
    case False
    then have "uint (required_bytes r) \<le> uint (round_up (required_bytes r) es)"
      using round_up_negative(2) [OF assms(2) _ _ assms(5)] by (cases "required_bytes r mod es = 0") (auto simp: round_up_def)
    then have "free < round_up (required_bytes r) es"
      using u assms(7) by (simp add: word_less_def)
    then show ?thesis using run False by (auto simp: check_size_def)
  qed
qed

definition negative_create :: CreateVolumeRequest where
  "negative_create = sample_create\<lparr>cv_capacity_range := Some \<lparr>required_bytes = - 3, limit_bytes = 12\<rparr>\<rparr>"

theorem negative_capacity_becomes_zero_witness:
  "\<exists>s'. requested_size raid_vg lake_server negative_create zero_layout (quiet_state ()) = (Ret (Inr 0), s')"
proof -
  define s1 where "s1 = (quiet_state ())\<lparr>trace := trace (quiet_state ()) @
      [Exec ''vgs'' (report_args @ [''--options=vg_extent_size'', ''vg0''])]\<rparr>"
  have 1: "ExtentSize raid_vg (srv_volumeGroup lake_server) (quiet_state ()) = (Ret (Inr 4), s1)"
    using lake_ExtentSize [of "quiet_state ()"] by (simp add: lake_server_def s1_def quiet_state_def)
  obtain s2 where 2: "BytesFree raid_vg (srv_volumeGroup lake_server) zero_layout s1 = (Ret (Inr 28), s2)"
    using lake_BytesFree [of s1] by (auto simp: lake_server_def s1_def quiet_state_def)
  have c: "cv_capacity_range negative_create = Some \<lparr>required_bytes = - 3, limit_bytes = 12\<rparr>"
    by (simp add: negative_create_def)
  show ?thesis
    using negative_capacity_becomes_zero [OF c _ _ 1 _ 2] by simp
qed

section \<open>Creating a volume\<close>

lemma read_only_volumeAttributes [emits_intros]: "emits read_only (volumeAttributes sys lv)"
  unfolding volumeAttributes_def by (intro emits_intros)

lemma read_only_validateExisting [emits_intros]: "emits read_only (validateExistingVolume sys lv request)"
  unfolding validateExistingVolume_def by (intro emits_intros)

lemma read_only_existing [emits_intros]: "emits read_only (existing_volume sys request lv)"
  unfolding existing_volume_def by (intro emits_intros)

definition fits_range :: "uint64 \<Rightarrow> CapacityRange option \<Rightarrow> bool" where
  "fits_range sz cr =
     (case cr of None \<Rightarrow> True
      | Some r \<Rightarrow> (required_bytes r = 0 \<or> sint (required_bytes r) \<le> sint sz) \<and>
          (limit_bytes r = 0 \<or> sint sz \<le> sint (limit_bytes r)))"

lemma validateExistingVolume_None:
  "validateExistingVolume sys lv request s = (Ret None, s') \<Longrightarrow>
     fits_range (lvol_sizeInBytes lv) (cv_capacity_range request)"
  by (auto simp: validateExistingVolume_def fits_range_def word_sless_alt not_less Let_def ret_def
      split: option.splits if_splits)

text \<open>C19: a volume whose name tag is found is not created again: the rest of the call only reads,
  and if it succeeds it returns the found volume, whose size is within the requested range.\<close>

theorem existing_volume_reused:
  assumes "FindLogicalVolume sys (srv_volumeGroup srv) (LVMatchTag (volumeNameToTag (cv_name request))) s
      = (Ret (Inr lv), s1)"
    and "CreateVolume sys srv request s = (r, s')"
  shows "(\<exists>ts. trace s' = trace s1 @ ts \<and> list_all read_only ts) \<and>
    (\<forall>v. r = Ret (Inr v) \<longrightarrow> vol_volume_id v = lvol_name lv \<and> vol_capacity_bytes v = lvol_sizeInBytes lv \<and>
       fits_range (lvol_sizeInBytes lv) (cv_capacity_range request))"
proof -
  have e: "existing_volume sys request lv s1 = (r, s')"
    using assms by (simp add: CreateVolume_def bind_Ret Let_def)
  obtain ts where "trace s' = trace s1 @ ts" "list_all read_only ts"
    using emitsD [OF read_only_existing e] .
  moreover have "vol_volume_id v = lvol_name lv \<and> vol_capacity_bytes v = lvol_sizeInBytes lv \<and>
       fits_range (lvol_sizeInBytes lv) (cv_capacity_range request)" if "r = Ret (Inr v)" for v
    using e that unfolding existing_volume_def
    by (auto elim!: bind_cases tryR_cases simp: fail_def ok_def ret_def dest: validateExistingVolume_None
        split: option.splits)
  ultimately show ?thesis by blast
qed

definition one_lv :: "unit sys" where
  "one_lv = quiet\<lparr>sys_run := \<lambda>cmd args w.
     (\<lparr>er_stdout = ''{\"report\":[{\"lv\":[{\"lv_name\":\"csilv1\",\"vg_name\":\"vg0\",\"lv_tags\":\"VN.data\"}]}]}'',
       er_stderr = '''', er_error = None\<rparr>, w)\<rparr>"

definition plain_create :: CreateVolumeRequest where
  "plain_create = sample_create\<lparr>cv_capacity_range := None\<rparr>"

theorem existing_volume_reused_witness:
  "\<exists>v s'. CreateVolume one_lv lake_server plain_create (quiet_state ()) = (Ret (Inr v), s') \<and> vol_volume_id v = ''csilv1''"
proof -
  define res where "res = CreateVolume one_lv lake_server plain_create (quiet_state ())"
  have 1: "fst (FindLogicalVolume one_lv (srv_volumeGroup lake_server)
      (LVMatchTag (volumeNameToTag (cv_name plain_create))) (quiet_state ())) = Ret (Inr (lv_in ''csilv1'' 0 lake))"
    by code_simp
  have "(case fst res of Ret (Inr v) \<Rightarrow> True | _ \<Rightarrow> False)"
    unfolding res_def by code_simp
  then obtain v where v: "fst res = Ret (Inr v)" by (auto split: outcome.splits sum.splits)
  have "CreateVolume one_lv lake_server plain_create (quiet_state ()) = (fst res, snd res)"
    by (simp add: res_def)
  note existing_volume_reused [OF outcome_state [OF 1] this]
  then have "vol_volume_id v = ''csilv1''" using v by simp
  then show ?thesis using v by (metis prod.collapse res_def)
qed


lemma allocate_id_Some:
  assumes "allocate_id sys vg n s = (Ret (Some vid), s')"
  shows "HasPrefix vid lvPrefix \<and>
    (\<exists>e s0. extends s s0 \<and> LookupLogicalVolume sys vg vid s0 = (Ret (Inl e), s'))"
  using assms
proof (induction n arbitrary: s)
  case 0
  then show ?case by (simp add: ret_def)
next
  case (Suc n)
  obtain r s1 where r: "extcall (Os ''rand'' []) (sys_rand sys) s = (Ret r, s1)"
    using nopanic_extcall by (rule nopanicE)
  define tryID where "tryID = lvPrefix @ FormatUint r 36"
  obtain res s2 where res: "LookupLogicalVolume sys vg tryID s1 = (Ret res, s2)"
      and rest: "(case res of Inr _ \<Rightarrow> allocate_id sys vg n | Inl _ \<Rightarrow> ret (Some tryID)) s2 = (Ret (Some vid), s')"
    using Suc.prems [unfolded allocate_id.simps Let_def
        bind_Ret [where m = "extcall (Os ''rand'' []) (sys_rand sys)" and s = s, OF r], folded tryID_def]
    by (rule bind_cases) simp_all
  have 1: "extends s s1"
    by (rule emits_extends [where P = "\<lambda>_. True" and m = "extcall (Os ''rand'' []) (sys_rand sys)", OF _ r])
      (intro emits_intros TrueI)
  show ?case
  proof (cases res)
    case (Inl e)
    then show ?thesis
      using rest res 1 by (auto simp: ret_def tryID_def HasPrefix_append)
  next
    case (Inr lv)
    have "extends s1 s2" by (rule emits_extends [OF look_only_lookup res])
    with 1 have "extends s s2" by (rule extends_trans)
    with Suc.IH [of s2] rest Inr show ?thesis by (auto intro: extends_trans)
  qed
qed

lemma emits_any_handlers [emits_intros]:
  "emits (\<lambda>_. True) (volumeAttributes sys lv)"
  "emits (\<lambda>_. True) (reportStorageMetrics sys srv)"
  by (rule emits_mono [OF read_only_volumeAttributes] emits_mono [OF read_only_report]; simp)+

text \<open>C13: when no volume with the name tag is found and the call succeeds, the new volume has an
  id that a lookup made during the call did not find; after that lookup it was created by
  \<open>lvcreate\<close> under that id with the tags of the server and the tag of the requested name, and
  the capacity returned is the size passed to \<open>lvcreate\<close>.\<close>

theorem new_volume_created:
  assumes "srv_volumeGroup srv = Some g"
    and "FindLogicalVolume sys (Some g) (LVMatchTag (volumeNameToTag (cv_name request))) s = (Ret (Inl e), s1)"
    and "CreateVolume sys srv request s = (Ret (Inr v), s')"
  shows "HasPrefix (vol_volume_id v) lvPrefix \<and>
    (\<exists>e s2 s3. extends s1 s2 \<and> LookupLogicalVolume sys (Some g) (vol_volume_id v) s2 = (Ret (Inl e), s3) \<and>
    (\<exists>flags. \<exists>c\<in>new_calls s3 s'. starts ''lvcreate''
       (lvcreate_args (map (\<lambda>t. ''--add-tag='' @ t)
            (filter (\<lambda>t. t \<noteq> '''') (srv_tags srv @ [volumeNameToTag (cv_name request)])))
          (vol_capacity_bytes v) (vol_volume_id v) (vgroup_name g) flags) c))"
proof -
  define tags where "tags = srv_tags srv @ [volumeNameToTag (cv_name request)]"
  obtain vid s2 where vid: "allocate_id sys (Some g) 10 s1 = (Ret (Some vid), s2)"
      and new: "new_volume sys srv request tags vid s2 = (Ret (Inr v), s')"
    using assms by (auto simp: CreateVolume_def bind_Ret Let_def tags_def fail_def ret_def
        elim!: bind_cases split: option.splits)
  obtain sz lvopts lv layout s3 s4 params where rs: "requested_size sys srv request layout s2 = (Ret (Inr sz), s3)"
      and cr: "CreateLogicalVolume sys (Some g) vid sz tags lvopts s3 = (Ret (Inr lv), s4)"
      and r: "finish_volume sys srv params vid lv s4 = (Ret (Inr v), s')"
    using new assms(1) unfolding new_volume_def
    by (auto simp: fail_def ret_def elim!: tryE_cases tryR_cases split: prod.splits option.splits sum.splits)
  have v: "vol_volume_id v = vid \<and> vol_capacity_bytes v = lvol_sizeInBytes lv"
    using r unfolding finish_volume_def by (auto elim!: tryR_cases bind_cases dest!: and_report_result)
  note c = create_lv_success_aux [OF cr]
  have "emits (\<lambda>_. True) (finish_volume sys srv params vid lv)"
    unfolding finish_volume_def by (intro emits_intros)
  then have 2: "extends s4 s'"
    by (rule emits_extends [where m = "finish_volume sys srv params vid lv" and s = s4, OF _ r])
  have 1: "extends s2 s3"
    by (rule emits_extends [where P = read_only and m = "requested_size sys srv request layout", OF _ rs])
      (unfold requested_size_def, intro emits_intros)
  obtain flags ev where ev: "ev \<in> new_calls s3 s4" "starts ''lvcreate''
      (lvcreate_args (map (\<lambda>t. ''--add-tag='' @ t) (filter (\<lambda>t. t \<noteq> '''') tags)) sz vid (vgroup_name g) flags) ev"
    using c by blast
  have "ev \<in> new_calls s2 s'"
    by (rule new_calls_widen [OF ev(1) 1 2])
  moreover have "vol_capacity_bytes v = sz" using c v by (simp add: lv_in_def)
  ultimately show ?thesis
    using ev(2) v allocate_id_Some [OF vid] unfolding tags_def by blast
qed


definition lv_after_create :: "bool sys" where
  "lv_after_create = quiet\<lparr>sys_run := \<lambda>cmd args created.
     (\<lparr>er_stdout = (if created then ''{\"report\":[{\"lv\":[{\"lv_tags\":\"VN.data\"}]}]}'' else ''{\"report\":[{\"lv\":[]}]}''),
       er_stderr = '''', er_error = None\<rparr>, created \<or> cmd = ''lvcreate'')\<rparr>"

theorem new_volume_created_witness:
  "\<exists>v s'. CreateVolume lv_after_create (lake_server\<lparr>srv_defaultVolumeSize := 8\<rparr>) plain_create (quiet_state False)
      = (Ret (Inr v), s') \<and> HasPrefix (vol_volume_id v) lvPrefix"
proof -
  define srv where "srv = lake_server\<lparr>srv_defaultVolumeSize := 8\<rparr>"
  define res where "res = CreateVolume lv_after_create srv plain_create (quiet_state False)"
  have g: "srv_volumeGroup srv = Some lake" by (simp add: srv_def lake_server_def)
  have 1: "fst (FindLogicalVolume lv_after_create (Some lake)
      (LVMatchTag (volumeNameToTag (cv_name plain_create))) (quiet_state False)) = Ret (Inl ErrLogicalVolumeNotFound)"
    by code_simp
  have "(case fst res of Ret (Inr v) \<Rightarrow> True | _ \<Rightarrow> False)"
    unfolding res_def srv_def by code_simp
  then obtain v where "fst res = Ret (Inr v)" by (auto split: outcome.splits sum.splits)
  then have v: "CreateVolume lv_after_create srv plain_create (quiet_state False) = (Ret (Inr v), snd res)"
    by (metis prod.collapse res_def)
  have "HasPrefix (vol_volume_id v) lvPrefix"
    using new_volume_created [OF g outcome_state [OF 1] v] by blast
  with v show ?thesis unfolding srv_def by blast
qed

section \<open>Deleting a volume\<close>

text \<open>The calls of a deletion: those that only look, and the removal of one named volume.\<close>

definition removes_only :: "string \<Rightarrow> call \<Rightarrow> bool" where
  "removes_only target c \<longleftrightarrow> look_only c \<or> tool_event ''lvremove'' [''-f'', target] c"

lemma emits_look_removes: "emits look_only m \<Longrightarrow> emits (removes_only target) m"
  by (erule emits_mono) (simp add: removes_only_def)

lemma LookupLogicalVolume_Inr:
  assumes "LookupLogicalVolume sys (Some g) nm s = (Ret (Inr lv), s')"
  shows "\<exists>sz. lv = lv_in nm sz g"
  using assms unfolding LookupLogicalVolume_def find_logical_volume_aux
  by (auto dest!: find_lv_Some)

text \<open>C12: whatever the tools answer, deleting a volume removes no other: the only call that
  changes anything is \<open>lvremove\<close> of the volume of that id in the plugin's own group.\<close>

theorem delete_removes_only_named:
  assumes "srv_volumeGroup srv = Some g"
  shows "emits (removes_only (vgroup_name g @ ''/'' @ dv_volume_id request)) (DeleteVolume sys srv request)"
proof -
  define target where "target = vgroup_name g @ ''/'' @ dv_volume_id request"
  have rep: "emits (removes_only target) (and_report sys srv (ok ()))"
    by (intro emits_look_removes emits_intros)
  have rem: "emits (removes_only target) (Remove_lv sys lv)" if "lv = lv_in (dv_volume_id request) sz g" for lv sz
    unfolding Remove_lv_def with_lv_path_def that lv_in_sel deref_Some target_def
    by (rule emits_run_nil) (simp add: removes_only_def)
  have "emits (removes_only target) (DeleteVolume sys srv request)"
    unfolding DeleteVolume_def assms
  proof (rule emits_bind_result)
    show "emits (removes_only target) (LookupLogicalVolume sys (Some g) (dv_volume_id request))"
      by (rule emits_look_removes [OF look_only_lookup])
    show "emits (removes_only target) (case found of Inl _ \<Rightarrow> ok () | Inr lv \<Rightarrow>
        bind (Remove_lv sys lv) (\<lambda>err. case err of
          Some e \<Rightarrow> fail (wrap Internal ''Failed to remove volume: err='' e)
        | None \<Rightarrow> and_report sys srv (ok ())))"
      if lk: "LookupLogicalVolume sys (Some g) (dv_volume_id request) s = (Ret found, s')" for found s s'
    proof (cases found)
      case (Inl e)
      then show ?thesis by (simp add: emits_ok)
    next
      case (Inr lv)
      obtain sz where "lv = lv_in (dv_volume_id request) sz g"
        using LookupLogicalVolume_Inr lk [unfolded Inr] by blast
      from rem [OF this] Inr show ?thesis
        by (auto intro!: emits_intros rep)
    qed
  qed
  then show ?thesis by (simp add: target_def)
qed

theorem delete_removes_only_named_witness:
  "\<exists>ts. trace (snd (DeleteVolume one_lv lake_server \<lparr>dv_volume_id = ''csilv1''\<rparr> (quiet_state ()))) =
      trace (quiet_state ()) @ ts \<and> list_all (removes_only ''vg0/csilv1'') ts"
  using delete_removes_only_named [of lake_server lake "\<lparr>dv_volume_id = ''csilv1''\<rparr>" one_lv]
  by (simp add: lake_server_def lake_def emits_def)

text \<open>
  A deletion that finds the volume and succeeds has started \<open>lvremove\<close> on it, and one
  that does not find it succeeds without doing more.\<close>

theorem delete_volume_outcome:
  assumes "srv_volumeGroup srv = Some g"
    and "LookupLogicalVolume sys (Some g) (dv_volume_id request) s = (Ret found, s1)"
    and "DeleteVolume sys srv request s = (Ret (Inr ()), s')"
  shows "case found of Inl e \<Rightarrow> s' = s1
    | Inr lv \<Rightarrow> (\<exists>c\<in>new_calls s s'. starts ''lvremove'' [''-f'', vgroup_name g @ ''/'' @ dv_volume_id request] c)"
proof (cases found)
  case (Inl e)
  with assms show ?thesis by (simp add: DeleteVolume_def bind_Ret io_simps)
next
  case (Inr lv)
  obtain sz where lv: "lv = lv_in (dv_volume_id request) sz g"
    using LookupLogicalVolume_Inr assms(2) Inr by blast
  have "bind (Remove_lv sys lv) (\<lambda>err. case err of
          Some e \<Rightarrow> fail (wrap Internal ''Failed to remove volume: err='' e)
        | None \<Rightarrow> and_report sys srv (ok ())) s1 = (Ret (Inr ()), s')"
    using assms Inr by (simp add: DeleteVolume_def bind_Ret)
  then obtain s2 where rm: "Remove_lv sys lv s1 = (Ret None, s2)"
      and rep: "and_report sys srv (ok ()) s2 = (Ret (Inr ()), s')"
    by (auto elim!: bind_cases simp: fail_def ret_def split: option.splits)
  obtain c where c: "c \<in> new_calls s1 s2" "starts ''lvremove'' [''-f'', vgroup_name g @ ''/'' @ dv_volume_id request] c"
    using run_nil_starts [of sys "''lvremove''" "[''-f'', vgroup_name g @ ''/'' @ dv_volume_id request]" s1 s2] rm lv
    by (auto simp: Remove_lv_def with_lv_path_def deref_Some)
  have "emits (\<lambda>_. True) (and_report sys srv (ok () :: ('a, unit) rpc))" by (intro emits_intros)
  then have "extends s2 s'"
    by (rule emits_extends [where m = "and_report sys srv (ok ())" and s = s2, OF _ rep])
  moreover have "extends s s1"
    by (rule emits_extends [OF look_only_lookup assms(2)])
  ultimately have "c \<in> new_calls s s'" by (metis c(1) new_calls_widen)
  then show ?thesis using c(2) Inr by auto
qed

theorem delete_volume_outcome_witness:
  "\<exists>s'. DeleteVolume one_lv lake_server \<lparr>dv_volume_id = ''csilv1''\<rparr> (quiet_state ()) = (Ret (Inr ()), s') \<and>
     (\<exists>c\<in>new_calls (quiet_state ()) s'. starts ''lvremove'' [''-f'', ''vg0/csilv1''] c)"
proof -
  have g: "srv_volumeGroup lake_server = Some lake" by (simp add: lake_server_def)
  have 1: "fst (LookupLogicalVolume one_lv (Some lake) (dv_volume_id \<lparr>dv_volume_id = ''csilv1''\<rparr>) (quiet_state ())) =
      Ret (Inr (lv_in ''csilv1'' 0 lake))" by code_simp
  have 2: "fst (DeleteVolume one_lv lake_server \<lparr>dv_volume_id = ''csilv1''\<rparr> (quiet_state ())) = Ret (Inr ())"
    by code_simp
  note d = outcome_state [OF 2]
  show ?thesis
    using delete_volume_outcome [OF g outcome_state [OF 1] d] d by (auto simp: lake_def)
qed


section \<open>Queries\<close>

fun fs_probe :: "call \<Rightarrow> bool" where
  "fs_probe (Exec c a) \<longleftrightarrow> c = ''file'' \<or> c = ''blkid''"
| "fs_probe (Rpc m url a) \<longleftrightarrow> m = ''dial'' \<or> m = ''close'' \<or> m = ''FileSystemType''"
| "fs_probe (Os op a) \<longleftrightarrow> False"
| "fs_probe (Http url) \<longleftrightarrow> False"

definition inspect_only :: "call \<Rightarrow> bool" where
  "inspect_only c \<longleftrightarrow> look_only c \<or> fs_probe c"

lemma emits_fs_probe: "emits fs_probe (determineFilesystemType sys p)"
  unfolding determineFilesystemType_def determineLocalFilesystemType_def FstypeProxy_def
  by (intro emits_intros) simp_all

lemma inspect_only_fs [emits_intros]: "emits inspect_only (determineFilesystemType sys p)"
  by (rule emits_mono [OF emits_fs_probe]) (simp add: inspect_only_def)

lemma inspect_only_look: "emits look_only m \<Longrightarrow> emits inspect_only m"
  by (erule emits_mono) (simp add: inspect_only_def)

lemma look_only_list_entries: "emits look_only (list_entries sys srv names entries)"
proof (induction names arbitrary: entries)
  case Nil
  show ?case unfolding list_entries.simps by (intro emits_intros)
next
  case (Cons n names)
  show ?case unfolding list_entries.simps
    by (intro emits_intros Cons.IH look_only_read_only [OF read_only_volumeAttributes])
qed

text \<open>
  the queries of the Controller service change nothing: \<open>ListVolumes\<close> and \<open>GetCapacity\<close>
  start query tools only, and \<open>ValidateVolumeCapabilities\<close> also looks at the device.\<close>

theorem controller_queries_change_nothing:
  "emits look_only (ListVolumes sys srv r1) \<and> emits read_only (GetCapacity sys srv r2) \<and>
   emits inspect_only (ValidateVolumeCapabilities sys srv r3)"
proof (intro conjI)
  show "emits look_only (ListVolumes sys srv r1)"
    unfolding ListVolumes_def
    by (intro emits_intros look_only_list_entries look_only_read_only [OF read_only_queries(6)])
  show "emits read_only (GetCapacity sys srv r2)"
    unfolding GetCapacity_def by (intro emits_intros)
  show "emits inspect_only (ValidateVolumeCapabilities sys srv r3)"
    unfolding ValidateVolumeCapabilities_def
    by (intro emits_intros inspect_only_look [OF look_only_lookup]
        inspect_only_look [OF look_only_read_only [OF read_only_queries(12)]])
qed

section \<open>Publishing\<close>

lemma set_entries_get:
  assumes "set_entries kvs m = Ret m'"
  shows "nget m' k = (case map_of (rev kvs) k of Some v \<Rightarrow> Some v | None \<Rightarrow> nget m k)"
  using assms
proof (induction kvs arbitrary: m)
  case Nil
  then show ?case by simp
next
  case (Cons p kvs)
  obtain a b where p: "p = (a, b)" by (cases p)
  obtain m1 where m1: "nset a b m = Ret m1" "set_entries kvs m1 = Ret m'"
    using Cons.prems p by (auto split: outcome.splits)
  then show ?case
    using Cons.IH [OF m1(2)] nset_Ret [OF m1(1)] p
    by (auto simp: map_add_def split: option.splits)
qed

lemma set_entries_nil_panics: "set_entries (kv # kvs) None = Panic ''assignment to entry in nil map''"
  by (cases kv) simp

definition publish_keys :: "string set" where
  "publish_keys = {''blockid'', ''lun'', ''portal'', ''targetlist''}"

definition published :: "gomap option \<Rightarrow> gomap option \<Rightarrow> bool" where
  "published pc ctx \<longleftrightarrow>
     (\<exists>kvs. set_entries kvs pc = Ret ctx \<and> fst ` set kvs \<subseteq> publish_keys \<and> ''blockid'' \<in> fst ` set kvs)"

lemma published_entries:
  assumes "set_entries ((''blockid'', v) # kvs) pc = Ret ctx"
    and "list_all (\<lambda>(k, _). k = ''lun'' \<or> k = ''portal'' \<or> k = ''targetlist'') kvs"
  shows "published pc ctx"
  unfolding published_def using assms
  by (intro exI [of _ "(''blockid'', v) # kvs"]) (auto simp: publish_keys_def list_all_iff simp del: set_entries.simps)

text \<open>
  publishing a volume passes its volume context on: the publish context has every entry of
  the volume context, except that the four keys of the publication may be set.\<close>

theorem publish_context_extends_volume_context:
  assumes "ControllerPublishVolume sys srv req s = (Ret (Inr ctx), s')"
    and "case cp_volume_context req of None \<Rightarrow> True | Some m \<Rightarrow> map_ok m"
    and "k \<notin> publish_keys"
  shows "nget ctx k = nget (cp_volume_context req) k \<and> nget ctx ''blockid'' \<noteq> None"
proof -
  define pc where "pc = dupParams (cp_volume_context req)"
  have "published pc ctx"
    using assms(1) unfolding ControllerPublishVolume_def publish_iscsi_def publish_jbof_def Let_def
    by (fold pc_def)
       (auto elim!: tryR_cases bind_cases simp: fail_def ok_def ret_def lift_outcome_def panic_def
          simp del: set_entries.simps dest!: published_entries
          split: if_splits option.splits outcome.splits prod.splits)
  then obtain kvs where k: "set_entries kvs pc = Ret ctx" and keys: "fst ` set kvs \<subseteq> publish_keys"
      and b: "''blockid'' \<in> fst ` set kvs" unfolding published_def by blast
  have none: "map_of (rev kvs) k = None"
    using keys assms(3) by (auto simp: map_of_eq_None_iff)
  have "map_of (rev kvs) ''blockid'' \<noteq> None"
    using b by (auto simp: map_of_eq_None_iff)
  with none show ?thesis
    using set_entries_get [OF k] nget_dupParams [OF assms(2)] by (auto simp: pc_def split: option.splits)
qed

definition sample_ctrl_publish :: ControllerPublishVolumeRequest where
  "sample_ctrl_publish = \<lparr>cp_volume_id = ''csilv1'', cp_node_id = ''node1'',
     cp_volume_capability = Some \<lparr>access_type = Some (AccessBlock True), access_mode = Some SINGLE_NODE_WRITER\<rparr>,
     cp_volume_context = Some [(''datapath'', ''direct''), (''tags'', ''eA'')]\<rparr>"

theorem publish_context_extends_volume_context_witness:
  "\<exists>ctx s'. ControllerPublishVolume (quiet :: unit sys) lake_server sample_ctrl_publish (quiet_state ()) = (Ret (Inr ctx), s') \<and>
     nget ctx ''tags'' = Some ''eA''"
proof -
  have "fst (ControllerPublishVolume (quiet :: unit sys) lake_server sample_ctrl_publish (quiet_state ())) =
      Ret (Inr (Some [(''datapath'', ''direct''), (''tags'', ''eA''), (''blockid'', ''notneeded'')]))"
    by code_simp
  note r = outcome_state [OF this]
  have "case cp_volume_context sample_ctrl_publish of None \<Rightarrow> True | Some m \<Rightarrow> map_ok m" by code_simp
  from publish_context_extends_volume_context [OF r this, of "''tags''"] r show ?thesis
    by (auto simp: publish_keys_def sample_ctrl_publish_def map_get_def)
qed

text \<open>
  A valid request to publish without a volume context makes the code write to a nil map.\<close>

theorem publish_without_context_panics:
  assumes "cp_volume_context req = None" and "cp_volume_id req \<noteq> ''''" and "cp_node_id req \<noteq> ''''"
    and "cp_volume_capability req \<noteq> None"
  shows "ControllerPublishVolume sys srv req s = (Panic ''assignment to entry in nil map'', s)"
  using assms by (auto simp: ControllerPublishVolume_def dupParams_def nval_def ToLower_def Let_def lift_outcome_def
      bind_panic panic_def)

theorem publish_without_context_panics_witness:
  "ControllerPublishVolume (quiet :: unit sys) lake_server (sample_ctrl_publish\<lparr>cp_volume_context := None\<rparr>) (quiet_state ())
     = (Panic ''assignment to entry in nil map'', quiet_state ())"
  by (rule publish_without_context_panics) (simp_all add: sample_ctrl_publish_def)


end
