(* ===== verification/Node.thy ===== *)
theory Node
  imports Controller
begin

text \<open>
  The Node service of \<open>pkg/csilvm/server.go\<close>: publishing a volume at a target path (the block
  and the mount variant, with the detection and creation of a file system), unpublishing it,
  and the identity of the node. The lemmas cover idempotence, that a device with a file
  system is never formatted, the target list that the Controller service hands over, and the
  nil dereferences that remain.
\<close>

section \<open>Constants\<close>

definition ErrTargetPathNotEmpty :: rpc_err where
  "ErrTargetPathNotEmpty = Status InvalidArgument ''Unexpected device already mounted at targetPath.''"
definition ErrTargetPathRO :: rpc_err where
  "ErrTargetPathRO = Status InvalidArgument ''The targetPath is already mounted readonly.''"
definition ErrTargetPathRW :: rpc_err where
  "ErrTargetPathRW = Status InvalidArgument ''The targetPath is already mounted read-write.''"

definition MS_BIND :: nat where "MS_BIND = 4096"
definition MS_RDONLY :: nat where "MS_RDONLY = 1"

definition topologyKey :: string where
  "topologyKey = ''.speedboat.seagate.com/nodeId''"

text \<open>A failed \<open>mount\<close> or \<open>umount\<close>: \<open>syscall.Errno\<close> becomes \<open>FailedPrecondition\<close>.\<close>

definition syscall_error :: "string \<Rightarrow> string \<Rightarrow> goerr \<Rightarrow> rpc_err" where
  "syscall_error what_errno what_other e =
     (case e of Errno _ \<Rightarrow> wrap FailedPrecondition what_errno e | _ \<Rightarrow> wrap Internal what_other e)"

definition exec_combined :: "'w sys \<Rightarrow> string \<Rightarrow> string list \<Rightarrow> ('w gs, string \<times> string option) io" where
  "exec_combined sys cmd args = extcall (Exec cmd args) (sys_combined sys cmd args)"

section \<open>Formatting\<close>

definition dd_args :: "string \<Rightarrow> string list" where
  "dd_args devicePath = [''if=/dev/zero'', ''of='' @ devicePath, ''bs=512'', ''count=512'', ''conv=notrunc'']"

definition formatDevice :: "'w sys \<Rightarrow> string \<Rightarrow> string \<Rightarrow> ('w gs, goerr option) io" where
  "formatDevice sys devicePath fstype =
     bind (exec_combined sys ''dd'' (dd_args devicePath)) (\<lambda>(out, err).
     case err of
       Some e \<Rightarrow> ret (Some (TextError (''csilvm: formatDevice: dd failed: err='' @ e @ '': '' @ out)))
     | None \<Rightarrow>
     bind (exec_combined sys ''mkfs'' [''-t'', fstype, devicePath]) (\<lambda>(out, err).
     case err of
       Some e \<Rightarrow> ret (Some (TextError (''csilvm: formatDevice: mkfs failed: err='' @ e @ '': '' @ out)))
     | None \<Rightarrow> ret None))"

text \<open>\<open>strconv.Atoi\<close>.\<close>

definition Atoi :: "string \<Rightarrow> int option" where
  "Atoi s =
     (let neg = (s \<noteq> '''' \<and> hd s = CHR ''-'');
          ds = (if s \<noteq> '''' \<and> (hd s = CHR ''-'' \<or> hd s = CHR ''+'') then tl s else s)
      in case ParseUint ds of
           Inl _ \<Rightarrow> None
         | Inr w \<Rightarrow> if neg then (if uint w \<le> 2 ^ 63 then Some (- uint w) else None)
                    else (if uint w < 2 ^ 63 then Some (uint w) else None))"

section \<open>Publishing\<close>

definition nodePublishVolume_Block ::
  "'w sys \<Rightarrow> string \<Rightarrow> string \<Rightarrow> bool \<Rightarrow> ('w, unit) rpc" where
  "nodePublishVolume_Block sys sourcePath targetPath readonly =
     tryR (getMountAt sys targetPath) (wrap Internal (''Cannot get mount info at '' @ targetPath @ '': err='')) (\<lambda>mp.
     case mp of
       Some mp \<Rightarrow>
         tryR (extcall (Os ''evalsymlinks'' [sourcePath]) (sys_evalsymlinks sys sourcePath))
           (wrap Internal (''Failed to follow symlinks at '' @ sourcePath @ '': err='')) (\<lambda>sourceDevicePath.
           if ''/dev'' @ mp_root mp \<noteq> sourceDevicePath then fail ErrTargetPathNotEmpty else ok ())
     | None \<Rightarrow>
         bind (extcall (Os ''create'' [targetPath]) (sys_create sys targetPath)) (\<lambda>err.
         case err of
           Some e \<Rightarrow> fail (wrap Internal (''Cannot create mount target '' @ targetPath @ '': err='') e)
         | None \<Rightarrow>
         bind (extcall (Os ''mount'' [sourcePath, targetPath, ''''])
                 (sys_mount sys sourcePath targetPath '''' MS_BIND '''')) (\<lambda>err.
         case err of
           Some e \<Rightarrow> fail (syscall_error ''Failed to perform bind mount: err='' ''Failed to perform bind mount: err='' e)
         | None \<Rightarrow> ok ())))"

text \<open>What is found at the target path when a mount is requested.\<close>

definition check_existing_mount :: "mountpoint \<Rightarrow> string \<Rightarrow> string \<Rightarrow> bool \<Rightarrow> rpc_err option" where
  "check_existing_mount mp sourcePath fstype readonly =
     (if mp_mountsource mp \<noteq> sourcePath then Some ErrTargetPathNotEmpty
      else if mp_fstype mp \<noteq> fstype then Some ErrMismatchedFilesystemType
      else if isReadonly mp \<noteq> readonly then (if isReadonly mp then Some ErrTargetPathRO else Some ErrTargetPathRW)
      else None)"

definition ensure_target_dir :: "'w sys \<Rightarrow> string \<Rightarrow> ('w, unit) rpc" where
  "ensure_target_dir sys targetPath =
     bind (extcall (Os ''stat'' [targetPath]) (sys_stat sys targetPath)) (\<lambda>err.
     case err of
       None \<Rightarrow> ok ()
     | Some _ \<Rightarrow>
         bind (extcall (Os ''mkdir'' [targetPath]) (sys_mkdir sys targetPath)) (\<lambda>err.
         case err of
           Some e \<Rightarrow> fail (wrap Internal (''Cannot create mount target '' @ targetPath @ '': err='') e)
         | None \<Rightarrow> ok ()))"

text \<open>The file system of the device, which is formatted when it has none.\<close>

definition ensure_filesystem :: "'w sys \<Rightarrow> string \<Rightarrow> string \<Rightarrow> ('w, string) rpc" where
  "ensure_filesystem sys sourcePath fstype =
     tryR (determineLocalFilesystemType sys sourcePath) (wrap Internal ''Cannot determine filesystem type: err='') (\<lambda>existing.
     if existing = '''' then
       bind (formatDevice sys sourcePath fstype) (\<lambda>err.
       case err of Some e \<Rightarrow> fail (wrap Internal ''formatDevice failed: err='' e) | None \<Rightarrow> ok fstype)
     else ok existing)"

definition set_mount_group :: "'w sys \<Rightarrow> string \<Rightarrow> string \<Rightarrow> ('w gs, unit) io" where
  "set_mount_group sys targetPath mountGroup =
     (if mountGroup = '''' then ret ()
      else case Atoi mountGroup of
        None \<Rightarrow> ret ()
      | Some gid \<Rightarrow>
          bind (extcall (Os ''chown'' [targetPath, mountGroup]) (sys_chown sys targetPath gid)) (\<lambda>_.
          ignore (exec_combined sys ''chmod'' [''g+rwx'', targetPath])))"

definition open_to_all :: "'w sys \<Rightarrow> string \<Rightarrow> bool \<Rightarrow> ('w gs, unit) io" where
  "open_to_all sys targetPath allusers =
     (if allusers then ignore (exec_combined sys ''chmod'' [''ugo+rwx'', targetPath]) else ret ())"

definition proxy_mount ::
  "'w sys \<Rightarrow> string \<Rightarrow> string \<Rightarrow> string \<Rightarrow> string \<Rightarrow> string \<Rightarrow> bool \<Rightarrow> bool \<Rightarrow> ('w, unit) rpc" where
  "proxy_mount sys sourcePath targetPath fstype mountGroup options readonly allusers =
     bind (MountVolume sys sourcePath targetPath fstype mountGroup options readonly allusers) (\<lambda>err.
       case err of Some e \<Rightarrow> fail (Raw e) | None \<Rightarrow> ok ())"

definition mount_device ::
  "'w sys \<Rightarrow> string \<Rightarrow> string \<Rightarrow> bool \<Rightarrow> string \<Rightarrow> string \<Rightarrow> string \<Rightarrow> bool \<Rightarrow> ('w, unit) rpc" where
  "mount_device sys sourcePath targetPath readonly fstype options mountGroup allusers =
     (let flags = (if readonly then MS_RDONLY else 0) in
      tryE (ensure_target_dir sys targetPath) fail (\<lambda>_.
      tryE (ensure_filesystem sys sourcePath fstype) fail (\<lambda>existing.
      if fstype \<noteq> existing then fail ErrMismatchedFilesystemType
      else
      bind (extcall (Os ''mount'' [sourcePath, targetPath, fstype])
              (sys_mount sys sourcePath targetPath fstype flags options)) (\<lambda>err.
      case err of
        Some e \<Rightarrow> fail (syscall_error ''Failed to perform mount: err='' ''Failed to perform mount: err='' e)
      | None \<Rightarrow>
      bind (set_mount_group sys targetPath mountGroup) (\<lambda>_.
      bind (open_to_all sys targetPath allusers) (\<lambda>_. ok ()))))))"

definition nodePublishVolume_Mount ::
  "'w sys \<Rightarrow> Server \<Rightarrow> string \<Rightarrow> string \<Rightarrow> bool \<Rightarrow> string \<Rightarrow> string list \<Rightarrow> string \<Rightarrow> bool \<Rightarrow> ('w, unit) rpc" where
  "nodePublishVolume_Mount sys srv sourcePath targetPath readonly fstype0 mountOptions mountGroup allusers =
     (let options = Join mountOptions '','' in
      bind ProxyMode (\<lambda>proxy.
      if proxy then proxy_mount sys sourcePath targetPath fstype0 mountGroup options readonly allusers
      else
      let fstype = (if fstype0 = '''' then nval (Some (srv_supportedFilesystems srv)) '''' else fstype0) in
      tryR (getMountAt sys targetPath) (wrap Internal (''Cannot get mount info at '' @ targetPath @ '': err='')) (\<lambda>mp.
      case mp of
        Some mp \<Rightarrow>
          (case check_existing_mount mp sourcePath fstype readonly of Some e \<Rightarrow> fail e | None \<Rightarrow> ok ())
      | None \<Rightarrow> mount_device sys sourcePath targetPath readonly fstype options mountGroup allusers)))"

text \<open>The targets of the \<open>jbofis\<close> data path: each entry with three parts is logged in to.\<close>

fun login_targets :: "'w sys \<Rightarrow> string list \<Rightarrow> ('w, unit) rpc" where
  "login_targets sys [] = ok ()"
| "login_targets sys (target # rest) =
     (case Split target CHR ''#'' of
        [iqn, lun, portal] \<Rightarrow>
          tryR (LoginIscsiTarget sys iqn portal)
            (\<lambda>e. Status Internal (''ISCSI Login Failes '' @ fmt_strings [iqn, lun, portal] @ '' :: '' @ Error_text e))
            (\<lambda>_. login_targets sys rest)
      | _ \<Rightarrow> login_targets sys rest)"

definition missing_key :: "string \<Rightarrow> gomap option \<Rightarrow> rpc_err" where
  "missing_key key pubcontext = Status Internal (''Missing '' @ key @ '' in PubContxt: '' @ fmt_map pubcontext)"

definition connect_jbof :: "'w sys \<Rightarrow> Server \<Rightarrow> gomap option \<Rightarrow> ('w, unit) rpc" where
  "connect_jbof sys srv pubcontext =
     (case nget pubcontext ''targetlist'' of
        None \<Rightarrow> fail (missing_key ''targetlist'' pubcontext)
      | Some targetlist \<Rightarrow>
          tryE (login_targets sys (Split targetlist CHR '','')) fail (\<lambda>_.
          bind (VgActivate sys (srv_vgname srv)) (\<lambda>err. case err of
            Some e \<Rightarrow> fail (Status Internal (''FAILED to Find VG '' @ srv_vgname srv @ '' after ISCSI Login :: '' @ Error_text e))
          | None \<Rightarrow> ok ())))"

definition local_source :: "'w sys \<Rightarrow> Server \<Rightarrow> string \<Rightarrow> ('w, string) rpc" where
  "local_source sys srv vid =
     tryR (LookupLogicalVolume sys (srv_volumeGroup srv) vid) (\<lambda>_. ErrVolumeNotFound) (\<lambda>lv.
     tryR (Path_lv sys lv) (wrap Internal ''Error in Path(): err='') (\<lambda>path.
     bind (Activate_lv sys lv) (\<lambda>err. case err of
       Some e \<Rightarrow> fail (wrap Internal ''Failed to activate volume: err='' e)
     | None \<Rightarrow> ok path)))"

definition iscsi_source :: "'w sys \<Rightarrow> gomap option \<Rightarrow> ('w, string) rpc" where
  "iscsi_source sys pubcontext =
     (case nget pubcontext ''blockid'' of
        None \<Rightarrow> fail (missing_key (sq @ ''blockid'' @ sq) pubcontext)
      | Some targetiqn \<Rightarrow>
     (case nget pubcontext ''portal'' of
        None \<Rightarrow> fail (missing_key (sq @ ''portal'' @ sq) pubcontext)
      | Some portal \<Rightarrow>
          tryR (LoginIscsiTarget sys targetiqn portal)
            (\<lambda>e. Status Internal (''ISCSI Login Failes '' @ fmt_map pubcontext @ '' :: '' @ Error_text e)) ok))"

text \<open>The source path for each data path; any other data path leaves it empty.\<close>

definition publish_source :: "'w sys \<Rightarrow> Server \<Rightarrow> NodePublishVolumeRequest \<Rightarrow> ('w, string) rpc" where
  "publish_source sys srv request =
     (let pubcontext = np_publish_context request; datapath = nval pubcontext ''datapath'' in
      if nget pubcontext ''datapath'' = None then fail (missing_key (sq @ ''datapath'' @ sq) pubcontext)
      else if datapath = ''jbofis'' then
        tryE (connect_jbof sys srv pubcontext) fail (\<lambda>_. local_source sys srv (np_volume_id request))
      else if datapath = ''direct'' then local_source sys srv (np_volume_id request)
      else if datapath = ''iscsi'' then iscsi_source sys pubcontext
      else ok '''')"

text \<open>The QoS tag, set when both limits are in the context; \<open>lv\<close> is used although the lookup may
  have failed.\<close>

definition set_qos_tag :: "'w sys \<Rightarrow> Server \<Rightarrow> string \<Rightarrow> gomap option \<Rightarrow> ('w, unit) rpc" where
  "set_qos_tag sys srv vid pubcontext =
     (case (nget pubcontext ''iopspergb'', nget pubcontext ''mbpspergb'') of
        (Some iops, Some mbps) \<Rightarrow>
          bind (LookupLogicalVolume sys (srv_volumeGroup srv) vid) (\<lambda>found. case found of
            Inl _ \<Rightarrow> panic nil_deref
          | Inr lv \<Rightarrow> bind (AddTag sys lv (''qos-'' @ iops @ ''-'' @ mbps)) (\<lambda>_. ok ()))
      | _ \<Rightarrow> ok ())"

definition publish_at ::
  "'w sys \<Rightarrow> Server \<Rightarrow> NodePublishVolumeRequest \<Rightarrow> string \<Rightarrow> ('w, unit) rpc" where
  "publish_at sys srv request sourcePath =
     (let pubcontext = np_publish_context request;
          targetPath = np_target_path request;
          readonly = ((case np_volume_capability request of None \<Rightarrow> False
             | Some c \<Rightarrow> GetMode c = SINGLE_NODE_READER_ONLY) \<or> np_readonly request);
          mnt = (case np_volume_capability request of None \<Rightarrow> None | Some c \<Rightarrow> GetMount c);
          mountGroup = (case mnt of None \<Rightarrow> '''' | Some m \<Rightarrow> volume_mount_group m);
          fstype = (case mnt of None \<Rightarrow> '''' | Some m \<Rightarrow> fs_type m);
          mountOptions = (case mnt of None \<Rightarrow> [] | Some m \<Rightarrow> mount_flags m);
          allusers = (case nget pubcontext ''allusers'' of None \<Rightarrow> False | Some v \<Rightarrow> ToLower v = ''true'')
      in bind ProxyMode (\<lambda>proxy.
         case (case np_volume_capability request of None \<Rightarrow> None | Some c \<Rightarrow> access_type c) of
           None \<Rightarrow> panic ''lvm: unknown access_type: <nil>''
         | Some (AccessBlock _) \<Rightarrow>
             if proxy then proxy_mount sys sourcePath targetPath ''block'' mountGroup '''' readonly allusers
             else tryE (nodePublishVolume_Block sys sourcePath targetPath readonly) fail (\<lambda>_.
               set_qos_tag sys srv (np_volume_id request) pubcontext)
         | Some (AccessMount _) \<Rightarrow>
             if proxy then proxy_mount sys sourcePath targetPath fstype mountGroup (Join mountOptions '','') readonly allusers
             else tryE (nodePublishVolume_Mount sys srv sourcePath targetPath readonly fstype mountOptions mountGroup allusers)
               fail (\<lambda>_. set_qos_tag sys srv (np_volume_id request) pubcontext)))"

definition NodePublishVolume :: "'w sys \<Rightarrow> Server \<Rightarrow> NodePublishVolumeRequest \<Rightarrow> ('w, unit) rpc" where
  "NodePublishVolume sys srv request =
     tryE (publish_source sys srv request) fail (publish_at sys srv request)"

section \<open>Unpublishing\<close>

definition agent_unmount :: "'w sys \<Rightarrow> string \<Rightarrow> string \<Rightarrow> ('w, unit) rpc" where
  "agent_unmount sys targetPath vid =
     bind (UnMountVolume sys targetPath vid) (\<lambda>err. case err of Some e \<Rightarrow> fail (Raw e) | None \<Rightarrow> ok ())"

text \<open>The log-out after an iSCSI unmount: the by-path name has at least four parts, and the last
  six bytes of the fourth are cut off.\<close>

definition iscsi_logout :: "'w sys \<Rightarrow> string \<Rightarrow> ('w gs, unit) io" where
  "iscsi_logout sys blockpath =
     (case SplitN 4 blockpath CHR ''-'' of
        [c0, c1, c2, c3] \<Rightarrow>
          if length c3 < 6 then panic ''slice bounds out of range''
          else ignore (LogoutIscsiTarget sys (take (length c3 - 6) c3) c1)
      | _ \<Rightarrow> ret ())"

definition unpublish_iscsi :: "'w sys \<Rightarrow> mountpoint \<Rightarrow> string \<Rightarrow> string \<Rightarrow> ('w, unit) rpc" where
  "unpublish_iscsi sys mp targetPath vid =
     bind (UnMountVolume sys targetPath vid) (\<lambda>err.
     bind (iscsi_logout sys (mp_blockpath mp)) (\<lambda>_.
     case err of Some e \<Rightarrow> fail (Raw e) | None \<Rightarrow> ok ()))"

definition local_unmount :: "'w sys \<Rightarrow> string \<Rightarrow> string \<Rightarrow> ('w, unit) rpc" where
  "local_unmount sys targetPath other =
     bind (extcall (Os ''umount'' [targetPath]) (sys_unmount sys targetPath 0)) (\<lambda>err. case err of
       Some e \<Rightarrow> fail (syscall_error ''Failed to perform unmount: err='' other e)
     | None \<Rightarrow> ok ())"

definition unpublish_sas :: "'w sys \<Rightarrow> Server \<Rightarrow> string \<Rightarrow> string \<Rightarrow> ('w, unit) rpc" where
  "unpublish_sas sys srv targetPath vid =
     bind (LookupLogicalVolume sys (srv_volumeGroup srv) vid) (\<lambda>found. case found of
       Inl _ \<Rightarrow> panic nil_deref
     | Inr lv \<Rightarrow>
         deref (lvol_vg lv) (\<lambda>g.
         bind (SetQos sys (vgroup_name g) (lvol_name lv) ''0'' ''0'') (\<lambda>_.
         bind ProxyMode (\<lambda>proxy.
         if proxy then agent_unmount sys targetPath vid
         else tryE (local_unmount sys targetPath ''Failed to perform unmount: err='') fail (\<lambda>_.
           bind (Deactivate_lv sys lv) (\<lambda>_. ok ()))))))"

definition unpublish_other :: "'w sys \<Rightarrow> string \<Rightarrow> ('w, unit) rpc" where
  "unpublish_other sys targetPath =
     tryE (local_unmount sys targetPath ''Failed to calling unmount: err='') fail (\<lambda>_.
     bind (extcall (Os ''removeall'' [targetPath]) (\<lambda>w. ((), sys_removeall sys targetPath w))) (\<lambda>_. ok ()))"

definition NodeUnpublishVolume :: "'w sys \<Rightarrow> Server \<Rightarrow> NodeUnpublishVolumeRequest \<Rightarrow> ('w, unit) rpc" where
  "NodeUnpublishVolume sys srv request =
     (let vid = nu_volume_id request; targetPath = nu_target_path request in
      tryR (getMountAt sys targetPath) (wrap Internal (''Cannot get mount info at '' @ targetPath @ '': err='')) (\<lambda>mp.
      case mp of
        None \<Rightarrow> ok ()
      | Some mp \<Rightarrow>
          (let datapath = ToLower (mp_datapath mp) in
           if datapath = ''iscsi'' then unpublish_iscsi sys mp targetPath vid
           else if datapath = ''nvme'' then agent_unmount sys targetPath vid
           else if datapath = ''qemu'' then agent_unmount sys targetPath vid
           else if datapath = ''sas'' then unpublish_sas sys srv targetPath vid
           else unpublish_other sys targetPath)))"

section \<open>Node identity\<close>

fun initiator_of_lines :: "string list \<Rightarrow> string option" where
  "initiator_of_lines [] = None"
| "initiator_of_lines (line # rest) =
     (case index_byte CHR ''='' line of
        None \<Rightarrow> initiator_of_lines rest
      | Some i \<Rightarrow>
          if TrimSpace (take i line) = ''InitiatorName'' then Some (TrimSpace (drop (i + 1) line))
          else initiator_of_lines rest)"

definition initiatorNameFilePath :: string where
  "initiatorNameFilePath = ''/etc/iscsi/initiatorname.iscsi''"

definition readInitiatorName :: "'w sys \<Rightarrow> ('w gs, goerr + string) io" where
  "readInitiatorName sys =
     tryE (extcall (Os ''readfile'' [initiatorNameFilePath]) (sys_readfile sys initiatorNameFilePath)) fail (\<lambda>buf.
       let (ls, err) = scan_lines buf in
       case initiator_of_lines ls of
         Some nam \<Rightarrow> ok nam
       | None \<Rightarrow>
           if err then fail (TextError ''bufio.Scanner: token too long'')
           else fail (TextError (''InitiatorName key is missing from '' @ initiatorNameFilePath)))"

definition NodeGetInfo :: "'w sys \<Rightarrow> Server \<Rightarrow> ('w, NodeGetInfoResponse) rpc" where
  "NodeGetInfo sys srv =
     bind (lift_outcome (tenant srv)) (\<lambda>t.
     let segments = map_set (t @ topologyKey) (srv_nodeID srv) [] in
     tryE (readInitiatorName sys)
       (\<lambda>_. ok \<lparr>ni_node_id = srv_nodeID srv, ni_segments = segments\<rparr>)
       (\<lambda>nam. ok \<lparr>ni_node_id = nam, ni_segments = segments\<rparr>))"

definition NodeGetCapabilities :: "('w, NodeCapability list) rpc" where
  "NodeGetCapabilities = ok [VOLUME_MOUNT_GROUP]"

definition NodeStageVolume :: "('w, unit) rpc" where "NodeStageVolume = fail ErrCallNotImplemented"
definition NodeUnstageVolume :: "('w, unit) rpc" where "NodeUnstageVolume = fail ErrCallNotImplemented"
definition NodeExpandVolume :: "('w, unit) rpc" where "NodeExpandVolume = fail ErrCallNotImplemented"
definition NodeGetVolumeStats :: "('w, unit) rpc" where "NodeGetVolumeStats = fail ErrCallNotImplemented"

definition node_server :: "'w sys \<Rightarrow> Server \<Rightarrow> 'w NodeServer" where
  "node_server sys srv = \<lparr>
     ns_NodePublishVolume = NodePublishVolume sys srv,
     ns_NodeUnpublishVolume = NodeUnpublishVolume sys srv,
     ns_NodeGetCapabilities = NodeGetCapabilities,
     ns_NodeGetInfo = NodeGetInfo sys srv,
     ns_NodeStageVolume = NodeStageVolume,
     ns_NodeUnstageVolume = NodeUnstageVolume,
     ns_NodeExpandVolume = NodeExpandVolume,
     ns_NodeGetVolumeStats = NodeGetVolumeStats\<rparr>"

section \<open>Mounting\<close>

fun formats :: "call \<Rightarrow> bool" where
  "formats (Exec c a) \<longleftrightarrow> c = ''dd'' \<or> c = ''mkfs''"
| "formats _ \<longleftrightarrow> False"

abbreviation keeps_data :: "call \<Rightarrow> bool" where
  "keeps_data c \<equiv> \<not> formats c"

lemma keeps_mount_look: "emits mount_look m \<Longrightarrow> emits keeps_data m"
proof (erule emits_mono)
  show "mount_look c \<Longrightarrow> keeps_data c" for c by (cases c) auto
qed

lemma keeps_fs_probe: "fs_probe c \<Longrightarrow> keeps_data c"
  by (cases c) auto

lemma keeps_local_fs: "emits keeps_data (determineLocalFilesystemType sys p)"
  unfolding determineLocalFilesystemType_def by (intro emits_intros) simp_all

definition detects_fs :: "'w sys \<Rightarrow> string \<Rightarrow> bool" where
  "detects_fs sys p \<longleftrightarrow> (\<forall>s. case determineLocalFilesystemType sys p s of
     (Ret (Inr existing), _) \<Rightarrow> existing \<noteq> '''' | _ \<Rightarrow> True)"

lemma keeps_ensure_filesystem:
  assumes "detects_fs sys p"
  shows "emits keeps_data (ensure_filesystem sys p fstype)"
  unfolding ensure_filesystem_def tryR_def tryE_def
proof (rule emits_bind_result)
  show "emits keeps_data (determineLocalFilesystemType sys p)" by (rule keeps_local_fs)
  show "emits keeps_data (case x of Inl e \<Rightarrow> fail (wrap Internal ''Cannot determine filesystem type: err='' e)
      | Inr existing \<Rightarrow> if existing = '''' then
          bind (formatDevice sys p fstype) (\<lambda>err.
          case err of Some e \<Rightarrow> fail (wrap Internal ''formatDevice failed: err='' e) | None \<Rightarrow> ok fstype)
        else ok existing)"
    if d: "determineLocalFilesystemType sys p s = (Ret x, s')" for x s s'
  proof (cases x)
    case (Inr existing)
    have "existing \<noteq> ''''"
      using spec [OF assms [unfolded detects_fs_def], of s] d Inr by simp
    with Inr show ?thesis by (simp add: emits_ok)
  qed (simp add: emits_fail)
qed

text \<open>C14: a device on which a file system is detected is never formatted, whatever file system the
  request asks for and whatever else happens during the mount.\<close>

theorem formatted_device_not_overwritten:
  assumes "detects_fs sys sourcePath"
  shows "emits keeps_data (nodePublishVolume_Mount sys srv sourcePath targetPath readonly fstype options grp allusers)"
proof -
  have 1: "emits keeps_data (getMountAt sys targetPath)"
    by (rule keeps_mount_look) (rule mount_look_getMountAt)
  show ?thesis
    unfolding nodePublishVolume_Mount_def mount_device_def ensure_target_dir_def set_mount_group_def
      open_to_all_def exec_combined_def proxy_mount_def MountVolume_def
    by (intro emits_intros 1 keeps_ensure_filesystem [OF assms]) simp_all
qed

definition xfs_device :: "unit sys" where
  "xfs_device = quiet\<lparr>sys_combined := \<lambda>cmd args w.
     ((if cmd = ''blkid'' then ''TYPE=xfs'' else ''SGI XFS filesystem data'', None), w)\<rparr>"

lemma xfs_device_detected: "detects_fs xfs_device p"
proof -
  have "TrimSpace ''SGI XFS filesystem data'' \<noteq> ''data''" by code_simp
  moreover have "blkid_type (Split ''TYPE=xfs'' CHR 0x0A) = Inr ''xfs''" by code_simp
  ultimately show ?thesis
    by (simp add: detects_fs_def determineLocalFilesystemType_def xfs_device_def bind_def extcall_def ret_def)
qed

theorem formatted_device_not_overwritten_witness:
  "emits keeps_data (nodePublishVolume_Mount xfs_device lake_server ''/dev/vg0/csilv1'' ''/data'' False ''ext4'' [] '''' False)"
  by (rule formatted_device_not_overwritten) (rule xfs_device_detected)

text \<open>
  publishing again is idempotent: with something mounted at the target path, the call
  changes nothing, and succeeds exactly when the mount has the requested source, file system
  (the default one if none is named) and read-only flag.\<close>

theorem mount_again_iff_matching:
  assumes "\<not> proxied s" and "getMountAt sys targetPath s = (Ret (Inr (Some mp)), s1)"
  shows "nodePublishVolume_Mount sys srv sourcePath targetPath readonly fstype options grp allusers s = (Ret (Inr ()), s')
    \<longleftrightarrow> s' = s1 \<and> mp_mountsource mp = sourcePath \<and>
        mp_fstype mp = (if fstype = '''' then nval (Some (srv_supportedFilesystems srv)) '''' else fstype) \<and>
        isReadonly mp = readonly"
  using assms
  by (auto simp: nodePublishVolume_Mount_def bind_Ret [OF ProxyMode_proxied] tryR_Inr check_existing_mount_def
      Let_def io_simps)

definition mounted_world :: "unit sys" where
  "mounted_world = quiet\<lparr>sys_readfile := \<lambda>p w.
     (Inr ''36 35 98:0 / /data rw,noatime shared:1 - xfs /dev/sbvg_vg0/csilv1 rw'', w)\<rparr>"

definition sample_mount :: mountpoint where
  "sample_mount = \<lparr>mp_root = ''/'', mp_path = ''/data'', mp_fstype = ''xfs'', mp_mountopts = [''rw'', ''noatime''],
     mp_mountsource = ''/dev/sbvg_vg0/csilv1'', mp_blockpath = ''/dev/sbvg_vg0/csilv1'', mp_datapath = ''sas''\<rparr>"

theorem mount_again_iff_matching_witness:
  "\<exists>s'. nodePublishVolume_Mount mounted_world lake_server ''/dev/sbvg_vg0/csilv1'' ''/data'' False ''xfs'' [] '''' False
      (quiet_state ()) = (Ret (Inr ()), s')"
proof -
  have p: "\<not> proxied (quiet_state ())" by (simp add: proxied_def quiet_state_def)
  have "fst (getMountAt mounted_world ''/data'' (quiet_state ())) = Ret (Inr (Some sample_mount))"
    by code_simp
  from mount_again_iff_matching [OF p outcome_state [OF this]] show ?thesis
    by (auto simp: sample_mount_def isReadonly_def)
qed

section \<open>The target list\<close>

text \<open>The Controller service passes the iSCSI targets to the node in one string,
  \<open>iqn#lun#portal,\<close> for each.\<close>

type_synonym target = "string \<times> string \<times> string"

definition clean_target :: "target \<Rightarrow> bool" where
  "clean_target t \<longleftrightarrow> (case t of (iqn, lun, portal) \<Rightarrow>
     \<forall>w\<in>set [iqn, lun, portal]. CHR '','' \<notin> set w \<and> CHR ''#'' \<notin> set w)"

definition entry_text :: "target \<Rightarrow> string" where
  "entry_text t = (case t of (iqn, lun, portal) \<Rightarrow> iqn @ ''#'' @ lun @ ''#'' @ portal)"

definition target_list_text :: "target list \<Rightarrow> string" where
  "target_list_text ts = concat (map (\<lambda>t. entry_text t @ '','') ts)"

fun target_of_entry :: "string list \<Rightarrow> target option" where
  "target_of_entry [iqn, lun, portal] = Some (iqn, lun, portal)"
| "target_of_entry _ = None"

definition parse_targets :: "string \<Rightarrow> target list" where
  "parse_targets txt = List.map_filter (\<lambda>e. target_of_entry (Split e CHR ''#'')) (Split txt CHR '','')"

lemma Split_entry_text: "clean_target t \<Longrightarrow> Split (entry_text t) CHR ''#'' = [fst t, fst (snd t), snd (snd t)]"
  by (cases t) (simp add: clean_target_def entry_text_def Split_append Split_single)

lemma parse_target_list_text:
  "list_all clean_target ts \<Longrightarrow> parse_targets (target_list_text ts) = ts"
proof (induction ts)
  case Nil
  show ?case by (simp add: parse_targets_def target_list_text_def map_filter_simps)
next
  case (Cons t ts)
  have "CHR '','' \<notin> set (entry_text t)"
    using Cons.prems by (cases t) (auto simp: clean_target_def entry_text_def)
  then have "Split (target_list_text (t # ts)) CHR '','' = entry_text t # Split (target_list_text ts) CHR '',''"
    using Split_append [of "CHR '',''" "entry_text t" "target_list_text ts"] by (simp add: target_list_text_def)
  with Cons show ?case
    by (simp add: parse_targets_def map_filter_simps Split_entry_text)
qed

interpretation target_list: codec "list_all clean_target" target_list_text "\<lambda>txt. Some (parse_targets txt)"
  by unfold_locales (simp add: parse_target_list_text)

text \<open>What the agent returned for one drive, with the wildcard address replaced by the host of the
  JBOF server.\<close>

definition target_of_res :: "string \<Rightarrow> StageIscsiRes \<Rightarrow> target" where
  "target_of_res jbofurl r =
     (si_TargetIqn r, si_Lun r,
      if take 7 (si_TargetPortal r) = ''0.0.0.0'' then hd (Split jbofurl CHR '':'') @ drop 7 (si_TargetPortal r)
      else si_TargetPortal r)"

lemma target_entries_eq:
  "list_all (\<lambda>r. length (si_TargetPortal r) \<ge> 7) rs \<Longrightarrow>
     target_entries jbofurl rs acc = Ret (acc @ target_list_text (map (target_of_res jbofurl) rs))"
  by (induction rs arbitrary: acc)
     (auto simp: target_entry_def portal_is_any_def target_of_res_def target_list_text_def entry_text_def Let_def)

text \<open>The log-ins of the node are those of the parsed list.\<close>

fun login_each :: "'w sys \<Rightarrow> target list \<Rightarrow> ('w, unit) rpc" where
  "login_each sys [] = ok ()"
| "login_each sys ((iqn, lun, portal) # ts) =
     tryR (LoginIscsiTarget sys iqn portal)
       (\<lambda>e. Status Internal (''ISCSI Login Failes '' @ fmt_strings [iqn, lun, portal] @ '' :: '' @ Error_text e))
       (\<lambda>_. login_each sys ts)"

lemma login_targets_parsed:
  "login_targets sys es = login_each sys (List.map_filter (\<lambda>e. target_of_entry (Split e CHR ''#'')) es)"
proof (induction es)
  case (Cons e es)
  then show ?case
    by (cases "Split e CHR ''#''" rule: target_of_entry.cases) (simp_all add: map_filter_simps)
qed (simp add: map_filter_simps)

text \<open>The targets a list of servers has set up, for what each of them answered: a failed call counts
  as an empty answer. \<open>staging_cached\<close> is the condition under which no server is asked.\<close>

definition answered_by :: "'w sys \<Rightarrow> string \<times> string \<Rightarrow> string \<Rightarrow> StageIscsiRes list \<Rightarrow> bool" where
  "answered_by sys q jbofurl rs \<longleftrightarrow>
     (\<exists>w. rs = (case fst (sys_CtrlPubIscsiDrives sys jbofurl q w) of Inl _ \<Rightarrow> [] | Inr ts \<Rightarrow> ts))"

definition staged_targets :: "string list \<Rightarrow> StageIscsiRes list list \<Rightarrow> target list" where
  "staged_targets urls answers = concat (map2 (\<lambda>u rs. map (target_of_res u) rs) urls answers)"

definition staging_cached :: "'w sys \<Rightarrow> string \<Rightarrow> string \<Rightarrow> 'w gs \<Rightarrow> bool" where
  "staging_cached sys vg iqn s \<longleftrightarrow>
     fst (sys_now sys (ext s)) - lastTargetSetup s < 120 * 10 ^ 9 \<and> vg = lastVgName s \<and>
     iqn = lastInitIqn s \<and> lastTargetList s \<noteq> ''''"

text \<open>Answers that the encoding can carry: portals long enough for the comparison with the wildcard
  address, and no separator in what is written.\<close>

definition clean_answer :: "string \<Rightarrow> StageIscsiRes list \<Rightarrow> bool" where
  "clean_answer jbofurl rs \<longleftrightarrow>
     list_all (\<lambda>r. length (si_TargetPortal r) \<ge> 7 \<and> clean_target (target_of_res jbofurl r)) rs"

lemma target_list_text_append: "target_list_text (ts @ us) = target_list_text ts @ target_list_text us"
  by (simp add: target_list_text_def)

lemma defer_disconnect: "defer_do (disconnect c) m s = (r, s') \<Longrightarrow> \<exists>s1. m s = (r, s1)"
  by (cases "m s") (auto simp: defer_do_def disconnect_def extcall_def)

lemma jbof_loop_targets:
  assumes "jbof_loop sys vg iqn urls acc s = (Ret (Inr targets), s')"
    and "\<And>u rs. u \<in> set urls \<Longrightarrow> answered_by sys (vg, iqn) u rs \<Longrightarrow> clean_answer u rs"
  shows "\<exists>answers. list_all2 (answered_by sys (vg, iqn)) (filter (\<lambda>u. u \<noteq> '''') urls) answers \<and>
    targets = acc @ target_list_text (staged_targets (filter (\<lambda>u. u \<noteq> '''') urls) answers)"
  using assms
proof (induction urls arbitrary: acc s s')
  case Nil
  then show ?case
    by (auto simp: staged_targets_def target_list_text_def ok_def ret_def put_state_def bind_def extcall_def
        split: prod.splits)
next
  case (Cons u urls)
  show ?case
  proof (cases "u = ''''")
    case True
    with Cons show ?thesis by simp
  next
    case False
    with Cons.prems(1) have "tryE (stolakeConnect sys u) fail (\<lambda>c.
        bind (extcall (Rpc ''CtrlPubIscsiDrives'' c [vg, iqn]) (sys_CtrlPubIscsiDrives sys c (vg, iqn))) (\<lambda>r.
        defer_do (disconnect c)
          (bind (lift_outcome (target_entries u (case r of Inl _ \<Rightarrow> [] | Inr ts \<Rightarrow> ts) acc))
             (jbof_loop sys vg iqn urls)))) s = (Ret (Inr targets), s')" by simp
    then obtain c s1 where c: "stolakeConnect sys u s = (Ret (Inr c), s1)"
        and "bind (extcall (Rpc ''CtrlPubIscsiDrives'' c [vg, iqn]) (sys_CtrlPubIscsiDrives sys c (vg, iqn))) (\<lambda>r.
          defer_do (disconnect c) (bind (lift_outcome (target_entries u (case r of Inl _ \<Rightarrow> [] | Inr ts \<Rightarrow> ts) acc))
             (jbof_loop sys vg iqn urls))) s1 = (Ret (Inr targets), s')"
      by (auto simp: fail_def ret_def elim: tryE_cases)
    then obtain r s2 where r: "extcall (Rpc ''CtrlPubIscsiDrives'' c [vg, iqn]) (sys_CtrlPubIscsiDrives sys c (vg, iqn)) s1
          = (Ret r, s2)"
        and "defer_do (disconnect c) (bind (lift_outcome (target_entries u (case r of Inl _ \<Rightarrow> [] | Inr ts \<Rightarrow> ts) acc))
          (jbof_loop sys vg iqn urls)) s2 = (Ret (Inr targets), s')"
      by (auto elim: bind_cases)
    then obtain s3 where loop: "bind (lift_outcome (target_entries u (case r of Inl _ \<Rightarrow> [] | Inr ts \<Rightarrow> ts) acc))
          (jbof_loop sys vg iqn urls) s2 = (Ret (Inr targets), s3)"
      using defer_disconnect by metis
    define rs where "rs = (case r of Inl _ \<Rightarrow> [] | Inr ts \<Rightarrow> ts)"
    have "c = u" using c by (auto simp: stolakeConnect_def fail_def ok_def ret_def elim!: bind_cases split: option.splits)
    then have a: "answered_by sys (vg, iqn) u rs"
      using r unfolding answered_by_def rs_def extcall_def
      by (intro exI [of _ "ext s1"]) (auto split: prod.splits)
    then have clean: "clean_answer u rs" using Cons.prems(2) by simp
    then have "target_entries u rs acc = Ret (acc @ target_list_text (map (target_of_res u) rs))"
      by (intro target_entries_eq) (auto simp: clean_answer_def list_all_iff)
    with loop have "jbof_loop sys vg iqn urls (acc @ target_list_text (map (target_of_res u) rs)) s2 = (Ret (Inr targets), s3)"
      by (simp add: rs_def [symmetric] lift_outcome_def bind_ret)
    from Cons.IH [OF this] Cons.prems(2) obtain answers where
      "list_all2 (answered_by sys (vg, iqn)) (filter (\<lambda>u. u \<noteq> '''') urls) answers"
      "targets = (acc @ target_list_text (map (target_of_res u) rs)) @
         target_list_text (staged_targets (filter (\<lambda>u. u \<noteq> '''') urls) answers)"
      by auto
    with a False show ?thesis
      by (intro exI [of _ "rs # answers"]) (simp add: staged_targets_def target_list_text_append)
  qed
qed

lemma JbofStage_targets:
  assumes "JbofStageIscsiTargets sys vg urls iqn s = (Ret (Inr targets), s')" and "\<not> staging_cached sys vg iqn s"
    and "\<And>u rs. u \<in> set (Split urls CHR '','') \<Longrightarrow> answered_by sys (vg, iqn) u rs \<Longrightarrow> clean_answer u rs"
  shows "\<exists>answers. list_all2 (answered_by sys (vg, iqn)) (filter (\<lambda>u. u \<noteq> '''') (Split urls CHR '','')) answers \<and>
    targets = target_list_text (staged_targets (filter (\<lambda>u. u \<noteq> '''') (Split urls CHR '','')) answers)"
proof -
  obtain s1 where "jbof_loop sys vg iqn (Split urls CHR '','') '''' s1 = (Ret (Inr targets), s')"
    using assms(1,2)
    by (auto simp: JbofStageIscsiTargets_def staging_cached_def bind_def extcall_def get_state_def
        split: prod.splits if_splits)
  from jbof_loop_targets [OF this assms(3)] show ?thesis by simp
qed

lemma staged_targets_clean:
  assumes "list_all2 P urls answers" and "\<And>u rs. u \<in> set urls \<Longrightarrow> P u rs \<Longrightarrow> clean_answer u rs"
  shows "list_all clean_target (staged_targets urls answers)"
  using assms
proof (induction urls answers rule: list_all2_induct)
  case Nil
  show ?case by (simp add: staged_targets_def)
next
  case (Cons u urls rs answers)
  then have "clean_answer u rs" and rest: "list_all clean_target (staged_targets urls answers)" by simp_all
  from this(1) have "list_all clean_target (map (target_of_res u) rs)"
    unfolding clean_answer_def list_all_iff by auto
  with rest show ?case by (simp add: staged_targets_def)
qed

lemma publish_jbof_targets:
  assumes "publish_jbof sys srv node pc s = (Ret (Inr ctx), s')" and "nget pc ''stolakejobfurls'' = Some urls"
  obtains targets s1 where "JbofStageIscsiTargets sys (srv_vgname srv) urls node s = (Ret (Inr targets), s1)"
    and "nget ctx ''targetlist'' = Some targets"
proof -
  obtain targets s1 where t: "JbofStageIscsiTargets sys (srv_vgname srv) urls node s = (Ret (Inr targets), s1)"
      and "bind (lift_outcome (set_entries [(''blockid'', ''unknown at CtrlPub phase''), (''targetlist'', targets)] pc)) ok s1
        = (Ret (Inr ctx :: rpc_err + gomap option), s')"
    using assms by (auto simp: publish_jbof_def fail_def ret_def simp del: set_entries.simps elim!: tryR_cases)
  then have "set_entries [(''blockid'', ''unknown at CtrlPub phase''), (''targetlist'', targets)] pc = Ret ctx"
    by (cases "set_entries [(''blockid'', ''unknown at CtrlPub phase''), (''targetlist'', targets)] pc")
      (auto simp: lift_outcome_def bind_ret bind_panic panic_def ok_def ret_def simp del: set_entries.simps)
  from set_entries_get [OF this, of "''targetlist''"] t that show thesis by simp
qed

text \<open>C26: the node logs in to exactly the targets that the JBOF servers returned to the controller,
  with the wildcard address replaced, in the order of the list of servers and of their answers; a
  server whose call failed counts as one without targets. This holds when the publication asked the
  servers (the answer of the last two minutes is not used again), no portal is shorter than the
  seven characters that are compared, and no name, LUN or portal contains one of the separators
  \<open>,\<close> and \<open>#\<close>, which the code does not escape.\<close>

theorem node_logs_in_to_staged_targets:
  assumes "ControllerPublishVolume sys srv p s = (Ret (Inr ctx), s')"
    and "ToLower (nval (cp_volume_context p) ''datapath'') = ''jbofis''"
    and "nget (cp_volume_context p) ''stolakejobfurls'' = Some urls"
    and "case cp_volume_context p of None \<Rightarrow> True | Some m \<Rightarrow> map_ok m"
    and "\<not> staging_cached sys (srv_vgname srv) (cp_node_id p) s"
    and "\<And>u rs. u \<in> set (Split urls CHR '','') \<Longrightarrow>
      answered_by sys (srv_vgname srv, cp_node_id p) u rs \<Longrightarrow> clean_answer u rs"
  shows "\<exists>answers targetlist.
    list_all2 (answered_by sys (srv_vgname srv, cp_node_id p)) (filter (\<lambda>u. u \<noteq> '''') (Split urls CHR '','')) answers \<and>
    nget ctx ''targetlist'' = Some targetlist \<and>
    login_targets sys2 (Split targetlist CHR '','') =
      login_each sys2 (staged_targets (filter (\<lambda>u. u \<noteq> '''') (Split urls CHR '','')) answers)"
proof -
  note d = nget_dupParams [OF assms(4)]
  have "nval (dupParams (cp_volume_context p)) ''datapath'' = nval (cp_volume_context p) ''datapath''"
    by (simp add: nval_def d)
  then have "publish_jbof sys srv (cp_node_id p) (dupParams (cp_volume_context p)) s = (Ret (Inr ctx), s')"
    using assms(1,2) by (auto simp: ControllerPublishVolume_def Let_def fail_def ret_def split: if_splits)
  then obtain targets s1 where
      t: "JbofStageIscsiTargets sys (srv_vgname srv) urls (cp_node_id p) s = (Ret (Inr targets), s1)"
      and n: "nget ctx ''targetlist'' = Some targets"
    using publish_jbof_targets assms(3) d by metis
  obtain answers where a:
      "list_all2 (answered_by sys (srv_vgname srv, cp_node_id p)) (filter (\<lambda>u. u \<noteq> '''') (Split urls CHR '','')) answers"
      "targets = target_list_text (staged_targets (filter (\<lambda>u. u \<noteq> '''') (Split urls CHR '','')) answers)"
    using JbofStage_targets [OF t assms(5,6)] by blast
  have "list_all clean_target (staged_targets (filter (\<lambda>u. u \<noteq> '''') (Split urls CHR '','')) answers)"
    by (rule staged_targets_clean [OF a(1)]) (use assms(6) in auto)
  then have "login_targets sys2 (Split targets CHR '','') =
      login_each sys2 (staged_targets (filter (\<lambda>u. u \<noteq> '''') (Split urls CHR '','')) answers)"
    using parse_target_list_text a(2) by (simp add: login_targets_parsed parse_targets_def [symmetric])
  with a(1) n show ?thesis by blast
qed

text \<open>Two servers with a drive each; the second answers with an address of its own.\<close>

definition two_jbofs :: "unit sys" where
  "two_jbofs = quiet\<lparr>sys_CtrlPubIscsiDrives := \<lambda>c q w.
     (Inr [\<lparr>si_TargetIqn = (if c = ''jbof1:5050'' then ''iqn.a'' else ''iqn.b''), si_Lun = ''0'',
        si_TargetPortal = (if c = ''jbof1:5050'' then ''0.0.0.0:3260'' else ''10.0.0.7:3260'')\<rparr>], w)\<rparr>"

definition jbof_publish :: ControllerPublishVolumeRequest where
  "jbof_publish = sample_ctrl_publish\<lparr>cp_volume_context :=
     Some [(''datapath'', ''jbofis''), (''stolakejobfurls'', ''jbof1:5050,jbof2:5050'')]\<rparr>"

theorem node_logs_in_to_staged_targets_witness:
  "\<exists>ctx s' targetlist. ControllerPublishVolume two_jbofs lake_server jbof_publish (quiet_state ()) = (Ret (Inr ctx), s') \<and>
     nget ctx ''targetlist'' = Some targetlist \<and>
     login_targets (quiet :: unit sys) (Split targetlist CHR '','') =
       login_each quiet [(''iqn.a'', ''0'', ''jbof1:3260''), (''iqn.b'', ''0'', ''10.0.0.7:3260'')]"
proof -
  define q where "q = (srv_vgname lake_server, cp_node_id jbof_publish)"
  have "(case fst (ControllerPublishVolume two_jbofs lake_server jbof_publish (quiet_state ())) of
      Ret (Inr ctx) \<Rightarrow> True | _ \<Rightarrow> False)" by code_simp
  then obtain ctx where "fst (ControllerPublishVolume two_jbofs lake_server jbof_publish (quiet_state ())) = Ret (Inr ctx)"
    by (auto split: outcome.splits sum.splits)
  note r = outcome_state [OF this]
  have p: "cp_volume_context jbof_publish = Some [(''datapath'', ''jbofis''), (''stolakejobfurls'', ''jbof1:5050,jbof2:5050'')]"
    by (simp add: jbof_publish_def)
  have low: "ToLower ''jbofis'' = ''jbofis''" by code_simp
  have sp: "Split ''jbof1:5050,jbof2:5050'' CHR '','' = [''jbof1:5050'', ''jbof2:5050'']" by code_simp
  define r1 where "r1 = \<lparr>si_TargetIqn = ''iqn.a'', si_Lun = ''0'', si_TargetPortal = ''0.0.0.0:3260''\<rparr>"
  define r2 where "r2 = \<lparr>si_TargetIqn = ''iqn.b'', si_Lun = ''0'', si_TargetPortal = ''10.0.0.7:3260''\<rparr>"
  have a: "answered_by two_jbofs q ''jbof1:5050'' rs \<longleftrightarrow> rs = [r1]" "answered_by two_jbofs q ''jbof2:5050'' rs \<longleftrightarrow> rs = [r2]" for rs
    by (simp_all add: answered_by_def two_jbofs_def r1_def r2_def)
  have t: "target_of_res ''jbof1:5050'' r1 = (''iqn.a'', ''0'', ''jbof1:3260'')"
      "target_of_res ''jbof2:5050'' r2 = (''iqn.b'', ''0'', ''10.0.0.7:3260'')"
    unfolding r1_def r2_def by code_simp+
  have c: "clean_answer ''jbof1:5050'' [r1]" "clean_answer ''jbof2:5050'' [r2]"
    unfolding clean_answer_def list.pred_inject t by (simp_all add: clean_target_def r1_def r2_def)
  have nc: "\<not> staging_cached two_jbofs (srv_vgname lake_server) (cp_node_id jbof_publish) (quiet_state ())" by code_simp
  have d: "ToLower (nval (cp_volume_context jbof_publish) ''datapath'') = ''jbofis''"
      "nget (cp_volume_context jbof_publish) ''stolakejobfurls'' = Some ''jbof1:5050,jbof2:5050''"
      "case cp_volume_context jbof_publish of None \<Rightarrow> True | Some m \<Rightarrow> map_ok m"
    by (simp_all add: p low nval_def map_get_def map_ok_def)
  have "\<exists>answers targetlist.
      list_all2 (answered_by two_jbofs q) (filter (\<lambda>u. u \<noteq> '''') (Split ''jbof1:5050,jbof2:5050'' CHR '','')) answers \<and>
      nget ctx ''targetlist'' = Some targetlist \<and>
      login_targets (quiet :: unit sys) (Split targetlist CHR '','') =
        login_each quiet (staged_targets (filter (\<lambda>u. u \<noteq> '''') (Split ''jbof1:5050,jbof2:5050'' CHR '','')) answers)"
    unfolding q_def
  proof (rule node_logs_in_to_staged_targets [OF r d nc])
    show "clean_answer u rs" if "u \<in> set (Split ''jbof1:5050,jbof2:5050'' CHR '','')"
        "answered_by two_jbofs (srv_vgname lake_server, cp_node_id jbof_publish) u rs" for u rs
      using that a [unfolded q_def] c by (auto simp: sp)
  qed
  then obtain targetlist where "nget ctx ''targetlist'' = Some targetlist"
      "login_targets (quiet :: unit sys) (Split targetlist CHR '','') =
        login_each quiet [(''iqn.a'', ''0'', ''jbof1:3260''), (''iqn.b'', ''0'', ''10.0.0.7:3260'')]"
    by (auto simp: sp list_all2_Cons1 a staged_targets_def t)
  with r show ?thesis by blast
qed

section \<open>Remaining nil dereferences\<close>

text \<open>
  Unpublishing a volume of the plugin's own group whose logical volume is not found
  dereferences a nil pointer instead of returning an error.\<close>

theorem unpublish_missing_volume_panics:
  assumes "getMountAt sys (nu_target_path request) s = (Ret (Inr (Some mp)), s1)"
    and "ToLower (mp_datapath mp) = ''sas''"
    and "LookupLogicalVolume sys (srv_volumeGroup srv) (nu_volume_id request) s1 = (Ret (Inl e), s2)"
  shows "NodeUnpublishVolume sys srv request s = (Panic nil_deref, s2)"
  using assms by (simp add: NodeUnpublishVolume_def tryR_Inr unpublish_sas_def bind_Ret Let_def io_simps)

theorem unpublish_missing_volume_panics_witness:
  "\<exists>s'. NodeUnpublishVolume mounted_world lake_server \<lparr>nu_volume_id = ''csilv1'', nu_target_path = ''/data''\<rparr>
      (quiet_state ()) = (Panic nil_deref, s')"
proof -
  have "fst (getMountAt mounted_world ''/data'' (quiet_state ())) = Ret (Inr (Some sample_mount))"
    by code_simp
  note 1 = outcome_state [OF this]
  define s1 where "s1 = snd (getMountAt mounted_world ''/data'' (quiet_state ()))"
  have "fst (LookupLogicalVolume mounted_world (srv_volumeGroup lake_server) ''csilv1'' s1) =
      Ret (Inl (TextError (json_error @ '': []'')))"
    unfolding s1_def by code_simp
  note 2 = outcome_state [OF this]
  have 3: "ToLower (mp_datapath sample_mount) = ''sas''" by code_simp
  show ?thesis
    using unpublish_missing_volume_panics [of mounted_world "\<lparr>nu_volume_id = ''csilv1'', nu_target_path = ''/data''\<rparr>"] 1 2 3
    unfolding s1_def by simp
qed


section \<open>The data path of the example storage classes\<close>

lemma publish_source_other:
  assumes "nget (np_publish_context request) ''datapath'' = Some d"
    and "d \<noteq> ''jbofis''" "d \<noteq> ''direct''" "d \<noteq> ''iscsi''"
  shows "publish_source sys srv request = ok ''''"
  using assms by (simp add: publish_source_def nval_def)

text \<open>
  a volume created with the data path \<open>SAS\<close> of the example storage classes has the data
  path \<open>sas\<close> in its context, and publishing it on the node looks for no volume at all: the code
  goes on with an empty source path.\<close>

theorem sas_volume_published_without_source:
  assumes "nget params ''datapath'' = Some ''SAS''"
    and "set_entries (context_entries params) (Some attr) = Ret ctx"
    and "nget (np_publish_context request) ''datapath'' = nget ctx ''datapath''"
  shows "nget ctx ''datapath'' = Some ''sas'' \<and> NodePublishVolume sys srv request = publish_at sys srv request ''''"
proof -
  have low: "ToLower ''SAS'' = ''sas''" by code_simp
  have "nget ctx ''datapath'' = Some ''sas''"
    using assms(1,2) low
    by (auto simp: context_entries_def gomap.get_set split: option.splits)
  then show ?thesis
    using publish_source_other [of request "''sas''" sys srv] assms(3)
    by (simp add: NodePublishVolume_def tryE_def bind_ret ok_def)
qed


theorem sas_volume_published_without_source_witness:
  "NodePublishVolume (quiet :: unit sys) lake_server
     \<lparr>np_volume_id = ''csilv1'', np_publish_context = Some [(''tags'', ''x''), (''datapath'', ''sas'')], np_target_path = ''/data'',
      np_volume_capability = None, np_readonly = False\<rparr> =
   publish_at quiet lake_server
     \<lparr>np_volume_id = ''csilv1'', np_publish_context = Some [(''tags'', ''x''), (''datapath'', ''sas'')], np_target_path = ''/data'',
      np_volume_capability = None, np_readonly = False\<rparr> ''''"
proof -
  have 1: "nget (Some [(''datapath'', ''SAS'')]) ''datapath'' = Some ''SAS''" by code_simp
  have 2: "set_entries (context_entries (Some [(''datapath'', ''SAS'')])) (Some [(''tags'', ''x'')]) =
      Ret (Some [(''tags'', ''x''), (''datapath'', ''sas'')])" by code_simp
  show ?thesis
    by (rule conjunct2 [OF sas_volume_published_without_source [OF 1 2]]) simp
qed


end
