(* ===== verification/Startup.thy ===== *)
theory Startup
  imports Controller Node
begin

text \<open>
  \<open>cmd/csilvm/csilvm.go\<close>: the start of the plugin, from the parsed flags to the three services
  that gRPC serves, and \<open>pkg/lvm/lock.go\<close>. \<open>log.Fatalf\<close> ends the process: it is the error
  outcome of a computation, and deferred calls do not run. What \<open>main\<close> asks of the system
  beyond \<open>sys\<close> is the record \<open>boot\<close> of parameters. Log lines are not modelled. The lemmas say
  which flags lead to a serving plugin and which services it serves.
\<close>

section \<open>Flags\<close>

type_synonym stringsFlag = "string list"

definition Set_strings :: "stringsFlag \<Rightarrow> string \<Rightarrow> stringsFlag" where
  "Set_strings f tag = f @ [tag]"

definition String_strings :: "stringsFlag \<Rightarrow> string" where
  "String_strings f = fmt_strings f"

record FlagValues =
  request_limit :: int
  volume_group :: string
  devices :: string
  default_fs :: string
  default_volume_size :: uint64
  unix_addr :: string
  unix_addr_env :: string
  remove_volume_group :: bool
  controller :: bool
  tags_flag :: stringsFlag
  probe_module :: stringsFlag
  node_id :: string
  lockfile :: string
  stolake_socket :: string
  statsd_udp_host_env_var :: string
  statsd_udp_port_env_var :: string
  statsd_format :: string
  statsd_max_udp_size :: int

text \<open>The defaults, given the name of the host and the path of the lock file.\<close>

definition default_flags :: "string \<Rightarrow> string \<Rightarrow> FlagValues" where
  "default_flags thishost lockpath = \<lparr>request_limit = 10, volume_group = '''', devices = '''',
     default_fs = ''xfs'', default_volume_size = push_bit 30 10, unix_addr = '''', unix_addr_env = '''',
     remove_volume_group = False, controller = False, tags_flag = [], probe_module = [],
     node_id = thishost, lockfile = lockpath, stolake_socket = '''', statsd_udp_host_env_var = '''',
     statsd_udp_port_env_var = '''', statsd_format = ''datadog'', statsd_max_udp_size = 1432\<rparr>"

definition defaultLockfilePathOrEnv :: "'w sys \<Rightarrow> ('w gs, string) io" where
  "defaultLockfilePathOrEnv sys =
     bind (get_state (\<lambda>s. sys_getenv sys ''CSILVM_LOCKFILE_PATH'' (ext s))) (\<lambda>p.
       if p = '''' then ret ''/run/csilvm.lock'' else ret p)"

section \<open>The system at start-up\<close>

datatype statsd_client = Datadog | Classic

record 'w boot =
  bt_parses_url :: "string \<Rightarrow> bool"
  bt_Lock :: "string \<Rightarrow> 'w \<Rightarrow> goerr option \<times> 'w"
  bt_Unlock :: "string \<Rightarrow> 'w \<Rightarrow> goerr option \<times> 'w"
  bt_Unlink :: "string \<Rightarrow> 'w \<Rightarrow> goerr option \<times> 'w"
  bt_IsNotExist :: "goerr \<Rightarrow> bool"
  bt_Mkdir :: "string \<Rightarrow> 'w \<Rightarrow> goerr option \<times> 'w"
  bt_Listen :: "string \<Rightarrow> 'w \<Rightarrow> goerr option \<times> 'w"
  bt_NewClient :: "statsd_client \<Rightarrow> string \<Rightarrow> int \<Rightarrow> 'w \<Rightarrow> goerr option \<times> 'w"
  bt_Serve :: "'w \<Rightarrow> goerr option \<times> 'w"

text \<open>\<open>SetLockFilePath\<close> takes the lock and releases it.\<close>

definition SetLockFilePath :: "'w boot \<Rightarrow> string \<Rightarrow> ('w gs, unit) io" where
  "SetLockFilePath bt filepath =
     bind (extcall (Os ''lock'' [filepath]) (bt_Lock bt filepath)) (\<lambda>err. case err of
       Some e \<Rightarrow> panic (''cannot acquire lock: '' @ Error_text e)
     | None \<Rightarrow>
     bind (extcall (Os ''unlock'' [filepath]) (bt_Unlock bt filepath)) (\<lambda>err. case err of
       Some e \<Rightarrow> panic (''cannot release lock: '' @ Error_text e)
     | None \<Rightarrow> ret ()))"

section \<open>Paths\<close>

text \<open>\<open>path.Clean\<close>: the components that remain, the last one first; \<open>..\<close> takes one away.\<close>

fun clean_components :: "bool \<Rightarrow> string list \<Rightarrow> string list \<Rightarrow> string list" where
  "clean_components rooted [] out = out"
| "clean_components rooted (c # cs) out =
     (if c = '''' \<or> c = ''.'' then clean_components rooted cs out
      else if c = ''..'' then
        (case out of
           [] \<Rightarrow> clean_components rooted cs (if rooted then [] else [''..''])
         | p # ps \<Rightarrow> clean_components rooted cs (if p = ''..'' then ''..'' # out else ps))
      else clean_components rooted cs (c # out))"

definition Clean :: "string \<Rightarrow> string" where
  "Clean p =
     (let rooted = HasPrefix p ''/'';
          res = (if rooted then ''/'' else '''') @ Join (rev (clean_components rooted (Split p CHR ''/'') [])) ''/''
      in if res = '''' then ''.'' else res)"

text \<open>\<open>path.Dir\<close>: everything up to the last slash, cleaned.\<close>

definition Dir :: "string \<Rightarrow> string" where
  "Dir p = Clean (rev (dropWhile (\<lambda>c. c \<noteq> CHR ''/'') (rev p)))"

text \<open>\<open>net.JoinHostPort\<close>.\<close>

definition JoinHostPort :: "string \<Rightarrow> string \<Rightarrow> string" where
  "JoinHostPort host port =
     (if CHR '':'' \<in> set host \<or> CHR ''%'' \<in> set host then ''['' @ host @ '']:'' @ port else host @ '':'' @ port)"

section \<open>main\<close>

definition Fatalf :: "string \<Rightarrow> ('w gs, goerr + 'a) io" where
  "Fatalf msg = fail (TextError msg)"

definition listen_address :: "'w sys \<Rightarrow> FlagValues \<Rightarrow> ('w gs, string) io" where
  "listen_address sys f =
     bind (if unix_addr_env f \<noteq> '''' then get_state (\<lambda>s. sys_getenv sys (unix_addr_env f) (ext s))
           else ret (unix_addr f)) (\<lambda>sock. ret (TrimPrefix sock ''unix://''))"

definition make_socket_dir :: "'w sys \<Rightarrow> 'w boot \<Rightarrow> string \<Rightarrow> ('w gs, goerr + unit) io" where
  "make_socket_dir sys bt sock =
     bind (extcall (Os ''stat'' [Dir sock]) (sys_stat sys (Dir sock))) (\<lambda>err.
       if (case err of None \<Rightarrow> False | Some e \<Rightarrow> bt_IsNotExist bt e) then
         bind (extcall (Os ''mkdir'' [Dir sock]) (bt_Mkdir bt (Dir sock))) (\<lambda>err. case err of
           Some e \<Rightarrow> Fatalf (''Failed to create socket directory: '' @ Dir sock @ '' ::'' @ Error_text e)
         | None \<Rightarrow> ok ())
       else ok ())"

text \<open>The metrics client that is set up, if any.\<close>

definition setup_metrics :: "'w sys \<Rightarrow> 'w boot \<Rightarrow> FlagValues \<Rightarrow> ('w gs, goerr + (statsd_client \<times> string) option) io" where
  "setup_metrics sys bt f =
     bind (if statsd_udp_host_env_var f \<noteq> '''' \<and> statsd_udp_port_env_var f \<noteq> '''' then
             get_state (\<lambda>s. (sys_getenv sys (statsd_udp_host_env_var f) (ext s),
               sys_getenv sys (statsd_udp_port_env_var f) (ext s)))
           else ret ('''', '''')) (\<lambda>(host, port).
     if (host = '''') \<noteq> (port = '''') then
       Fatalf (''misconfiguration, either both (host,port) values are required or neither should be specified'')
     else if host \<noteq> '''' \<and> port \<noteq> '''' then
       (let addr = JoinHostPort host port;
            client = (if statsd_format f = ''datadog'' then Some Datadog
              else if statsd_format f = ''classic'' then Some Classic else None)
        in case client of
             None \<Rightarrow> Fatalf (''unknown -statsd-format value: '' @ statsd_format f)
           | Some k \<Rightarrow>
               bind (extcall (Os ''statsd'' [addr]) (bt_NewClient bt k addr (statsd_max_udp_size f))) (\<lambda>err.
                 case err of Some e \<Rightarrow> fail e | None \<Rightarrow> ok (Some (k, addr))))
     else ok None)"

text \<open>The options of the server; the option \<open>Metrics\<close>, which comes between the two parts, is added in
  \<open>Metrics\<close>.\<close>

definition base_options :: "FlagValues \<Rightarrow> 'a ServerOpt option list" where
  "base_options f =
     [Some (NodeID (node_id f)), Some (DefaultVolumeSize (default_volume_size f)), ProbeModules (probe_module f)]"

definition mode_options :: "FlagValues \<Rightarrow> 'a ServerOpt option list" where
  "mode_options f =
     (if remove_volume_group f then [Some RemoveVolumeGroup] else [])
     @ (if controller f then [Some ControllerMode] else [])
     @ map (\<lambda>tag. Some (Tag tag)) (tags_flag f)"

definition server_options :: "FlagValues \<Rightarrow> 'a ServerOpt option list" where
  "server_options f = base_options f @ mode_options f"

record 'w Plugin =
  pl_socket :: string
  pl_limit :: int
  pl_metrics :: "(statsd_client \<times> string) option"
  pl_server :: Server
  pl_identity :: "'w IdentityServer"
  pl_controller :: "'w ControllerServer"
  pl_node :: "'w NodeServer"

definition served :: "'w sys \<Rightarrow> Version \<Rightarrow> string \<Rightarrow> int \<Rightarrow> (statsd_client \<times> string) option \<Rightarrow> Server \<Rightarrow> 'w Plugin" where
  "served sys v sock limit metrics srv = \<lparr>
     pl_socket = sock, pl_limit = limit, pl_metrics = metrics, pl_server = srv,
     pl_identity = IdentityServerValidator (identity_server sys v srv),
     pl_controller = ControllerServerValidator (controller_server sys srv)
       (srv_removingVolumeGroup srv) (SupportedFilesystems srv),
     pl_node = NodeServerValidator (node_server sys srv) (srv_removingVolumeGroup srv) (SupportedFilesystems srv)\<rparr>"

text \<open>\<open>main\<close> up to \<open>Setup\<close>: the address listened on, the metrics client and the server.\<close>

definition prepare ::
  "'w sys \<Rightarrow> 'w boot \<Rightarrow> FlagValues \<Rightarrow> ('w gs, goerr + string \<times> (statsd_client \<times> string) option \<times> Server) io" where
  "prepare sys bt f =
     (if volume_group f = '''' then
        Fatalf ''FAILED TO START: volume-group is not specified starting CSI Agent.''
      else
     bind (if lockfile f \<noteq> '''' then SetLockFilePath bt (lockfile f) else ret ()) (\<lambda>_.
     if unix_addr f \<noteq> '''' \<and> unix_addr_env f \<noteq> '''' then
       Fatalf ''cannot specify -unix-addr and -unix-addr-env''
     else
     bind (listen_address sys f) (\<lambda>sock.
     bind (extcall (Os ''unlink'' [sock]) (bt_Unlink bt sock)) (\<lambda>_.
     tryE (make_socket_dir sys bt sock) fail (\<lambda>_.
     bind (extcall (Os ''listen'' [sock]) (bt_Listen bt sock)) (\<lambda>err. case err of
       Some e \<Rightarrow> Fatalf (''Failed to listen: '' @ Error_text e)
     | None \<Rightarrow>
     if request_limit f < 1 then
       Fatalf ''request-limit requires a positive, integer value''
     else if 128 < length (node_id f) then
       Fatalf ''node-id cannot be longer than 128 bytes''
     else
     tryE (setup_metrics sys bt f) fail (\<lambda>metrics.
     bind (SetStolakeURL (bt_parses_url bt) sys (stolake_socket f)) (\<lambda>valid.
     if \<not> valid then Fatalf ''Invalid StoLake URL. ''
     else
     tryE (Setup sys (NewServer (volume_group f) (Split (devices f) CHR '','') (default_fs f) (server_options f)))
       (\<lambda>e. Fatalf (''error initializing csilvm plugin: err='' @ Error_text e))
       (\<lambda>srv. ok (sock, metrics, srv))))))))))"

text \<open>\<open>main\<close> up to the call of \<open>Serve\<close>: the services are registered on what was prepared.\<close>

definition start :: "'w sys \<Rightarrow> 'w boot \<Rightarrow> Version \<Rightarrow> FlagValues \<Rightarrow> ('w gs, goerr + 'w Plugin) io" where
  "start sys bt v f =
     tryE (prepare sys bt f) fail (\<lambda>(sock, metrics, srv).
       ok (served sys v sock (request_limit f) metrics srv))"

text \<open>When \<open>Serve\<close> returns without an error, the deferred calls run: the uptime reporter is
  stopped, then the metrics scope, if there is one, is closed.\<close>

definition main :: "'w sys \<Rightarrow> 'w boot \<Rightarrow> Version \<Rightarrow> FlagValues \<Rightarrow> ('w gs, goerr + unit) io" where
  "main sys bt v f =
     tryE (start sys bt v f) fail (\<lambda>p.
     bind (extcall (Os ''serve'' [pl_socket p]) (bt_Serve bt)) (\<lambda>err. case err of
       Some e \<Rightarrow> Fatalf (''Stopped serving, err='' @ Error_text e)
     | None \<Rightarrow>
     bind (extcall (Os ''stop uptime'' []) (\<lambda>w. ((), w))) (\<lambda>_.
     bind (if pl_metrics p = None then ret () else extcall (Os ''close metrics'' []) (\<lambda>w. ((), w))) (\<lambda>_.
     ok ()))))"

section \<open>What the plugin is started with\<close>

lemma apply_server_opts_append:
  "apply_server_opts (xs @ ys) s = apply_server_opts ys (apply_server_opts xs s)"
  by (induction xs s rule: apply_server_opts.induct) simp_all

lemma apply_tags: "apply_server_opts (map (\<lambda>tag. Some (Tag tag)) ts) s = s\<lparr>srv_tags := srv_tags s @ ts\<rparr>"
  by (induction ts arbitrary: s) (simp_all add: Tag_def)

lemma new_server_fields:
  defines "srv f \<equiv> NewServer (volume_group f) (Split (devices f) CHR '','') (default_fs f) (server_options f)"
  shows "srv_vgname (srv f) = volume_group f" "srv_tags (srv f) = tags_flag f"
    "srv_removingVolumeGroup (srv f) = remove_volume_group f" "srv_controllerMode (srv f) = controller f"
    "srv_nodeID (srv f) = node_id f" "srv_defaultVolumeSize (srv f) = default_volume_size f"
  by (simp_all add: srv_def NewServer_def server_options_def base_options_def mode_options_def apply_server_opts_append apply_tags NodeID_def
      DefaultVolumeSize_def ProbeModules_def RemoveVolumeGroup_def ControllerMode_def)

lemma Setup_Inr:
  assumes "Setup sys srv s = (Ret (Inr srv'), s')"
  shows "(\<forall>t\<in>set (srv_tags srv). ValidateTag t = None) \<and> srv' = srv\<lparr>srv_volumeGroup := srv_volumeGroup srv'\<rparr>"
  using assms unfolding first_invalid_tag_None_iff [symmetric]
  by (auto simp: Setup_def fail_def ok_def ret_def elim!: bind_cases split: option.splits prod.splits sum.splits)

lemma start_cases:
  assumes "start sys bt v f s = (Ret (Inr p), s')"
  obtains sock metrics srv s1 s2 where "volume_group f \<noteq> ''''" and "unix_addr f = '''' \<or> unix_addr_env f = ''''"
    and "1 \<le> request_limit f" and "length (node_id f) \<le> 128"
    and "SetStolakeURL (bt_parses_url bt) sys (stolake_socket f) s1 = (Ret True, s2)"
    and "Setup sys (NewServer (volume_group f) (Split (devices f) CHR '','') (default_fs f) (server_options f)) s2
      = (Ret (Inr srv), s')"
    and "p = served sys v sock (request_limit f) metrics srv"
  using assms unfolding start_def prepare_def Fatalf_def
  by (auto simp: fail_def ok_def ret_def elim!: bind_cases tryE_cases split: if_splits option.splits)

lemma SetStolakeURL_True:
  assumes "SetStolakeURL parses sys url s = (Ret True, s')"
  shows "parses url \<and> StolakeURL s' = url \<and> (\<exists>w. sys_stat sys url (ext s) = (None, w))"
  using assms unfolding SetStolakeURL_def
  by (auto simp: bind_def put_state_def extcall_def ret_def split: if_splits prod.splits option.splits)

lemma started_plugin:
  assumes "start sys bt v f s = (Ret (Inr p), s')"
  shows "volume_group f \<noteq> '''' \<and> (unix_addr f = '''' \<or> unix_addr_env f = '''') \<and> 1 \<le> request_limit f \<and>
    length (node_id f) \<le> 128 \<and> bt_parses_url bt (stolake_socket f) \<and>
    (\<forall>t\<in>set (tags_flag f). ValidateTag t = None) \<and> pl_limit p = request_limit f \<and>
    srv_vgname (pl_server p) = volume_group f \<and> srv_tags (pl_server p) = tags_flag f \<and>
    srv_nodeID (pl_server p) = node_id f \<and> srv_defaultVolumeSize (pl_server p) = default_volume_size f \<and>
    pl_controller p = ControllerServerValidator (controller_server sys (pl_server p))
      (remove_volume_group f) (SupportedFilesystems (pl_server p)) \<and>
    pl_node p = NodeServerValidator (node_server sys (pl_server p))
      (remove_volume_group f) (SupportedFilesystems (pl_server p))"
proof -
  from assms obtain sock metrics srv s1 s2 where h: "volume_group f \<noteq> ''''" "unix_addr f = '''' \<or> unix_addr_env f = ''''"
      "1 \<le> request_limit f" "length (node_id f) \<le> 128"
      "SetStolakeURL (bt_parses_url bt) sys (stolake_socket f) s1 = (Ret True, s2)"
      "Setup sys (NewServer (volume_group f) (Split (devices f) CHR '','') (default_fs f) (server_options f)) s2
        = (Ret (Inr srv), s')"
      "p = served sys v sock (request_limit f) metrics srv"
    by (rule start_cases)
  note st = Setup_Inr [OF h(6), unfolded new_server_fields]
  have "srv_vgname srv = volume_group f \<and> srv_tags srv = tags_flag f \<and> srv_removingVolumeGroup srv = remove_volume_group f \<and>
      srv_nodeID srv = node_id f \<and> srv_defaultVolumeSize srv = default_volume_size f"
    by (subst (1 2 3 4 5) conjunct2 [OF st]) (simp add: new_server_fields)
  then show ?thesis
    using h(1-4) st SetStolakeURL_True [OF h(5)] by (simp add: h(7) served_def)
qed

text \<open>C33: the plugin serves only under a complete configuration: a volume group is named, at most one
  address is given, the request limit is positive, the node id is short enough, the agent's
  socket exists and every tag is valid. The server it serves is the one of the flags, and its
  controller and node services are decorated with the checks of the mode it runs in.\<close>

theorem started_configuration:
  assumes "start sys bt v f s = (Ret (Inr p), s')"
  shows "volume_group f \<noteq> '''' \<and> (unix_addr f = '''' \<or> unix_addr_env f = '''') \<and> 1 \<le> request_limit f \<and>
    length (node_id f) \<le> 128 \<and> bt_parses_url bt (stolake_socket f) \<and>
    (\<forall>t\<in>set (tags_flag f). ValidateTag t = None) \<and> pl_limit p = request_limit f \<and>
    srv_vgname (pl_server p) = volume_group f \<and> srv_tags (pl_server p) = tags_flag f \<and>
    srv_nodeID (pl_server p) = node_id f \<and> srv_defaultVolumeSize (pl_server p) = default_volume_size f \<and>
    pl_controller p = ControllerServerValidator (controller_server sys (pl_server p))
      (remove_volume_group f) (SupportedFilesystems (pl_server p)) \<and>
    pl_node p = NodeServerValidator (node_server sys (pl_server p))
      (remove_volume_group f) (SupportedFilesystems (pl_server p))"
  using started_plugin [OF assms] .

text \<open>
  without the flag \<open>-stolake-socket\<close> the plugin never serves: the flag's default is the empty
  path, which does not exist, so the start ends with an error or a panic.\<close>

theorem default_stolake_socket_aborts:
  assumes "stolake_socket f = ''''" and "\<And>w. fst (sys_stat sys '''' w) \<noteq> None"
  shows "start sys bt v f s \<noteq> (Ret (Inr p), s')"
proof
  assume "start sys bt v f s = (Ret (Inr p), s')"
  then obtain s1 s2 where "SetStolakeURL (bt_parses_url bt) sys '''' s1 = (Ret True, s2)"
    using assms(1) by (metis start_cases)
  from SetStolakeURL_True [OF this] show False
    using assms(2) by (metis fst_conv)
qed

section \<open>An example start\<close>

text \<open>A system on which every call succeeds, except that the empty path does not exist.\<close>

definition calm_boot :: "'w boot" where
  "calm_boot = \<lparr>bt_parses_url = \<lambda>u. True, bt_Lock = \<lambda>p w. (None, w), bt_Unlock = \<lambda>p w. (None, w),
     bt_Unlink = \<lambda>p w. (None, w), bt_IsNotExist = \<lambda>e. True, bt_Mkdir = \<lambda>p w. (None, w),
     bt_Listen = \<lambda>p w. (None, w), bt_NewClient = \<lambda>k a n w. (None, w), bt_Serve = \<lambda>w. (None, w)\<rparr>"

definition calm :: "unit sys" where
  "calm = quiet\<lparr>sys_stat := \<lambda>p w. (if p = '''' then Some (TextError ''no such file or directory'') else None, w),
     sys_run := \<lambda>cmd args w. (\<lparr>er_stdout = ''{\"report\":[{\"vg\":[{\"vg_name\":\"vg0\"}]}]}'', er_stderr = '''', er_error = None\<rparr>, w),
     sys_MercuryProxy := \<lambda>c cmd args w. (Inr ''{\"report\":[{\"vg\":[{\"vg_name\":\"vg0\"}]}]}'', w)\<rparr>"

definition sample_flags :: FlagValues where
  "sample_flags = (default_flags ''host1'' ''/run/csilvm.lock'')
     \<lparr>volume_group := ''vg0'', unix_addr := ''unix:///run/csi/csi.sock'', stolake_socket := ''/run/agent.sock'',
      tags_flag := [''blue'']\<rparr>"

lemma start_prepared:
  "prepare sys bt f s = (Ret (Inr (sock, metrics, srv)), s') \<Longrightarrow>
     start sys bt v f s = (Ret (Inr (served sys v sock (request_limit f) metrics srv)), s')"
  by (simp add: start_def tryE_Inr ok_def ret_def)

theorem started_configuration_witness:
  "\<exists>p s'. start calm calm_boot default_version sample_flags (quiet_state ()) = (Ret (Inr p), s') \<and>
     pl_limit p = 10 \<and> srv_tags (pl_server p) = [''blue''] \<and> ValidateTag ''blue'' = None"
proof -
  define res where "res = prepare calm calm_boot sample_flags (quiet_state ())"
  have "(case fst res of Ret (Inr p) \<Rightarrow> True | _ \<Rightarrow> False)"
    unfolding res_def by code_simp
  then obtain sock metrics srv where "fst res = Ret (Inr (sock, metrics, srv))"
    by (auto split: outcome.splits sum.splits)
  note r = start_prepared [OF outcome_state [OF this, unfolded res_def]]
  have "request_limit sample_flags = 10" "tags_flag sample_flags = [''blue'']"
    by (simp_all add: sample_flags_def default_flags_def)
  with started_configuration [OF r] r show ?thesis by auto
qed

theorem default_stolake_socket_aborts_witness:
  "\<forall>p s'. start calm calm_boot default_version (sample_flags\<lparr>stolake_socket := ''''\<rparr>) (quiet_state ())
     \<noteq> (Ret (Inr p), s')"
  by (intro allI default_stolake_socket_aborts) (simp_all add: calm_def)

end
