(* ===== verification/Metering.thy ===== *)
theory Metering
  imports Sequential Startup
begin

text \<open>
  The metrics of the plugin from the scope that \<open>main\<close> makes to the counters of the requests: the
  server with its scope (the field \<open>metrics\<close> and the option \<open>Metrics\<close> of \<open>server.go\<close>), and what
  \<open>MetricsInterceptor\<close> counts under the documented behaviour of the library \<open>tally\<close>. The field
  extends the record \<open>Server\<close>, since the handlers never read it. The lemmas say that every answer
  is counted once under its method and result as long as requests do not overlap.
\<close>

section \<open>The server with its scope\<close>

record 'sc MeteredServer = Server +
  srv_metrics :: 'sc

type_synonym 'sc MeteredOpt = "'sc MeteredServer \<Rightarrow> 'sc MeteredServer"

definition Metrics :: "'sc \<Rightarrow> 'sc MeteredOpt" where
  "Metrics scope = (\<lambda>s. s\<lparr>srv_metrics := scope\<rparr>)"

definition NewMeteredServer ::
  "('sc, 't, 's) tally \<Rightarrow> string \<Rightarrow> string list \<Rightarrow> string \<Rightarrow> 'sc MeteredOpt option list \<Rightarrow> 'sc MeteredServer" where
  "NewMeteredServer ty vgname pvnames defaultFs opts =
     (let s = apply_server_opts opts
        \<lparr>srv_vgname = vgname, srv_pvnames = pvnames, srv_volumeGroup = None,
         srv_defaultVolumeSize = push_bit 30 10,
         srv_supportedFilesystems = map_set defaultFs defaultFs (map_set '''' defaultFs []),
         srv_removingVolumeGroup = False, srv_controllerMode = False, srv_tags = [],
         srv_probeModules = [], srv_nodeID = '''', srv_metrics = tl_Noop ty\<rparr>
      in s\<lparr>srv_metrics := tl_Tagged ty (srv_metrics s) [(''volume-group'', srv_vgname s)]\<rparr>)"

text \<open>The scope of \<open>main\<close>: that of the metrics client, if one is set up. It reports every second.\<close>

definition main_scope ::
  "('sc, 't, 's) tally \<Rightarrow> (string \<Rightarrow> gomap \<Rightarrow> statsd_client \<times> string \<Rightarrow> int64 \<Rightarrow> 'sc)
     \<Rightarrow> (statsd_client \<times> string) option \<Rightarrow> 'sc" where
  "main_scope ty NewRootScope client =
     (case client of None \<Rightarrow> tl_Noop ty | Some reporter \<Rightarrow> NewRootScope ''csilvm'' [] reporter 1000000000)"

definition metered_options :: "FlagValues \<Rightarrow> 'sc \<Rightarrow> 'sc MeteredOpt option list" where
  "metered_options f scope = base_options f @ [Some (Metrics scope)] @ mode_options f"

definition metered_server :: "('sc, 't, 's) tally \<Rightarrow> FlagValues \<Rightarrow> 'sc \<Rightarrow> 'sc MeteredServer" where
  "metered_server ty f scope =
     NewMeteredServer ty (volume_group f) (Split (devices f) CHR '','') (default_fs f) (metered_options f scope)"

lemma apply_metered_tags:
  "apply_server_opts (map (\<lambda>tag. Some (Tag tag)) ts) (s :: 'sc MeteredServer) = s\<lparr>srv_tags := srv_tags s @ ts\<rparr>"
  by (induction ts arbitrary: s) (simp_all add: Tag_def)

lemmas option_defs = apply_server_opts_append base_options_def mode_options_def NodeID_def DefaultVolumeSize_def
  ProbeModules_def RemoveVolumeGroup_def ControllerMode_def

text \<open>
  the server of \<open>main\<close> reports under the scope of \<open>main\<close>, tagged with the volume group; in all
  other fields it is the server whose handlers are modelled.\<close>

theorem metered_server_scope:
  "srv_metrics (metered_server ty f scope) = tl_Tagged ty scope [(''volume-group'', volume_group f)] \<and>
   Server.truncate (metered_server ty f scope) =
     NewServer (volume_group f) (Split (devices f) CHR '','') (default_fs f) (server_options f)"
  by (simp add: metered_server_def NewMeteredServer_def NewServer_def metered_options_def server_options_def
      option_defs apply_metered_tags apply_tags Metrics_def Let_def Server.defs)

section \<open>The library\<close>

text \<open>A view of \<open>tally\<close>: the scopes that report, the prefix and the tags of a scope, and the value of
  each counter, which has a prefix, tags and a name.\<close>

type_synonym counter_key = "string \<times> (string \<rightharpoonup> string) \<times> string"

record ('sc, 's) tally_view =
  vw_reports :: "'sc \<Rightarrow> bool"
  vw_prefix :: "'sc \<Rightarrow> string"
  vw_tags :: "'sc \<Rightarrow> string \<rightharpoonup> string"
  vw_count :: "'s \<Rightarrow> counter_key \<Rightarrow> int64"

text \<open>Its documented behaviour: tags are added to those of the scope, the later value of a tag wins, a
  counter is incremented by the given number, and a stopwatch touches no counter. The variable
  of the interceptor holds what was assigned to it last.\<close>

definition tally_law :: "('sc, 't, 's) tally \<Rightarrow> ('sc, 's) scope_var \<Rightarrow> ('sc, 's) tally_view \<Rightarrow> bool" where
  "tally_law ty var vw \<longleftrightarrow>
     (\<forall>sc m. vw_reports vw sc \<longrightarrow> vw_reports vw (tl_Tagged ty sc m) \<and>
        vw_prefix vw (tl_Tagged ty sc m) = vw_prefix vw sc \<and>
        vw_tags vw (tl_Tagged ty sc m) = vw_tags vw sc ++ map_of m) \<and>
     (\<forall>sc n k s. vw_reports vw sc \<longrightarrow>
        (let c = (vw_prefix vw sc, vw_tags vw sc, n)
         in vw_count vw (tl_Inc ty sc n k s) = (vw_count vw s)(c := vw_count vw s c + k)) \<and>
        sv_get var (tl_Inc ty sc n k s) = sv_get var s) \<and>
     (\<forall>sc n s. vw_count vw (snd (tl_Start ty sc n s)) = vw_count vw s \<and>
        sv_get var (snd (tl_Start ty sc n s)) = sv_get var s) \<and>
     (\<forall>t s. vw_count vw (tl_Stop ty t s) = vw_count vw s \<and> sv_get var (tl_Stop ty t s) = sv_get var s) \<and>
     (\<forall>sc s. vw_count vw (sv_set var sc s) = vw_count vw s \<and> sv_get var (sv_set var sc s) = sc)"

text \<open>A handler that does not use the metrics of requests.\<close>

definition unmetered :: "('sc, 's) scope_var \<Rightarrow> ('sc, 's) tally_view \<Rightarrow> ('s, 'q, 'r) handler \<Rightarrow> bool" where
  "unmetered var vw h \<longleftrightarrow> (\<forall>q s. vw_count vw (snd (h q s)) = vw_count vw s \<and> sv_get var (snd (h q s)) = sv_get var s)"

text \<open>The counter of a method and a result, and the result an outcome counts as.\<close>

definition request_key :: "('sc, 's) tally_view \<Rightarrow> 'sc \<Rightarrow> string \<Rightarrow> string \<Rightarrow> counter_key" where
  "request_key vw sc m res =
     (vw_prefix vw sc, (vw_tags vw sc)(''method'' \<mapsto> m, ''result_type'' \<mapsto> res), ''requests'')"

fun result_type :: "(rpc_err + 'r) outcome \<Rightarrow> string option" where
  "result_type (Panic msg) = None"
| "result_type (Ret (Inl e)) = Some ''error''"
| "result_type (Ret (Inr v)) = Some ''success''"

definition count_up :: "counter_key \<Rightarrow> (counter_key \<Rightarrow> int64) \<Rightarrow> counter_key \<Rightarrow> int64" where
  "count_up k c = c(k := c k + 1)"

lemma request_key_eq: "request_key vw sc m res = request_key vw sc m' res' \<longleftrightarrow> m = m' \<and> res = res'"
proof
  assume "request_key vw sc m res = request_key vw sc m' res'"
  then have f: "(vw_tags vw sc)(''method'' \<mapsto> m, ''result_type'' \<mapsto> res)
      = (vw_tags vw sc)(''method'' \<mapsto> m', ''result_type'' \<mapsto> res')" by (simp add: request_key_def)
  show "m = m' \<and> res = res'" using fun_cong [OF f, of "''method''"] fun_cong [OF f, of "''result_type''"] by simp
qed simp

section \<open>One request\<close>

lemma tagged_law:
  assumes "tally_law ty var vw" and "vw_reports vw sc"
  shows "vw_reports vw (tl_Tagged ty sc m)" "vw_prefix vw (tl_Tagged ty sc m) = vw_prefix vw sc"
    "vw_tags vw (tl_Tagged ty sc m) = vw_tags vw sc ++ map_of m"
  using assms by (simp_all add: tally_law_def)

text \<open>The tag of the method is overwritten by that of the next request.\<close>

lemma request_key_tagged:
  assumes "tally_law ty var vw" and "vw_reports vw sc"
  shows "request_key vw (tl_Tagged ty sc [(''method'', m0)]) m res = request_key vw sc m res"
  by (simp add: request_key_def tagged_law [OF assms])

lemma metered_law:
  assumes "tally_law ty var vw"
  shows "vw_count vw (snd (metered ty var m s)) = vw_count vw s"
    "sv_get var (snd (metered ty var m s)) = tl_Tagged ty (sv_get var s) [(''method'', m)]"
  using assms by (simp_all add: tally_law_def metered_def Let_def)

lemma count_result_law:
  assumes law: "tally_law ty var vw" and live: "vw_reports vw (sv_get var s)"
  shows "vw_count vw (count_result ty var res s) = count_up
      (vw_prefix vw (sv_get var s), (vw_tags vw (sv_get var s))(''result_type'' \<mapsto> res), ''requests'') (vw_count vw s)"
    "sv_get var (count_result ty var res s) = sv_get var s"
proof -
  note t = tagged_law [OF law live, of "[(''result_type'', res)]"]
  from law t show "vw_count vw (count_result ty var res s) = count_up
      (vw_prefix vw (sv_get var s), (vw_tags vw (sv_get var s))(''result_type'' \<mapsto> res), ''requests'') (vw_count vw s)"
    by (simp add: count_result_def tally_law_def Let_def count_up_def)
  from law t show "sv_get var (count_result ty var res s) = sv_get var s"
    by (simp add: count_result_def tally_law_def)
qed

lemma stopped_law:
  assumes "tally_law ty var vw"
  shows "vw_count vw (tl_Stop ty t s) = vw_count vw s" "sv_get var (tl_Stop ty t s) = sv_get var s"
  using assms by (simp_all add: tally_law_def)

text \<open>One request, whatever its handler does to the scope: the result is counted under the scope the
  variable has when the handler returns.\<close>

lemma metrics_counts:
  assumes law: "tally_law ty var vw" and ret: "h q (snd (metered ty var m s)) = (r, s1)"
    and live: "vw_reports vw (sv_get var s1)" and run: "MetricsInterceptor ty var m q h s = (out, s')"
  shows "out = r \<and> sv_get var s' = sv_get var s1 \<and>
    vw_count vw s' = (case result_type r of None \<Rightarrow> vw_count vw s1
      | Some res \<Rightarrow> count_up (vw_prefix vw (sv_get var s1), (vw_tags vw (sv_get var s1))(''result_type'' \<mapsto> res),
          ''requests'') (vw_count vw s1))"
proof -
  have "out = r" "s' = metrics_after ty var m s r s1"
    using metrics.observes [of ty var m q h s] unfolding ret run by simp_all
  then show ?thesis
    using stopped_law [OF law] count_result_law [OF law live]
    by (cases r rule: result_type.cases) (simp_all add: metrics_after_def)
qed

lemma metrics_step:
  assumes law: "tally_law ty var vw" and live: "vw_reports vw (sv_get var s)" and "unmetered var vw h"
    and run: "MetricsInterceptor ty var m q h s = (r, s')"
  shows "sv_get var s' = tl_Tagged ty (sv_get var s) [(''method'', m)] \<and>
    vw_count vw s' = (case result_type r of None \<Rightarrow> vw_count vw s
      | Some res \<Rightarrow> count_up (request_key vw (sv_get var s) m res) (vw_count vw s))"
proof -
  obtain r1 s1 where h: "h q (snd (metered ty var m s)) = (r1, s1)" by (cases "h q (snd (metered ty var m s))")
  then have s1: "vw_count vw s1 = vw_count vw s" "sv_get var s1 = tl_Tagged ty (sv_get var s) [(''method'', m)]"
    using assms(3) metered_law [OF law] unfolding unmetered_def by (metis snd_conv)+
  then have "vw_reports vw (sv_get var s1)" using tagged_law [OF law live] by simp
  from metrics_counts [OF law h this run] show ?thesis
    by (auto simp: s1 tagged_law [OF law live] request_key_def split: option.splits)
qed

section \<open>One request after the other\<close>

text \<open>Requests, each with its method, served one after the other: their outcomes and the state.\<close>

fun serve_metered ::
  "('sc, 't, 's) tally \<Rightarrow> ('sc, 's) scope_var \<Rightarrow> ('s, 'q, rpc_err + 'r) handler \<Rightarrow> (string \<times> 'q) list \<Rightarrow> 's
     \<Rightarrow> (rpc_err + 'r) outcome list \<times> 's" where
  "serve_metered ty var h [] s = ([], s)"
| "serve_metered ty var h ((m, q) # reqs) s =
     (let (r, s1) = MetricsInterceptor ty var m q h s;
          (rs, s2) = serve_metered ty var h reqs s1
      in (r # rs, s2))"

text \<open>The outcomes that count for a method and a result.\<close>

definition answered :: "string \<Rightarrow> string \<Rightarrow> (string \<times> 'q) list \<Rightarrow> (rpc_err + 'r) outcome list \<Rightarrow> nat" where
  "answered m res reqs outs =
     length (filter (\<lambda>((m', q), r). m' = m \<and> result_type r = Some res) (zip reqs outs))"

lemma requests_counted:
  assumes law: "tally_law ty var vw" and "vw_reports vw (sv_get var s)" and un: "unmetered var vw h"
    and "serve_metered ty var h reqs s = (outs, s')"
  shows "vw_count vw s' (request_key vw (sv_get var s) m res) =
    vw_count vw s (request_key vw (sv_get var s) m res) + of_nat (answered m res reqs outs)"
  using assms(2,4)
proof (induction reqs arbitrary: s outs)
  case Nil
  then show ?case by (simp add: answered_def)
next
  case (Cons x reqs)
  obtain m0 q where x: "x = (m0, q)" by (cases x)
  obtain r s1 where r: "MetricsInterceptor ty var m0 q h s = (r, s1)" by (cases "MetricsInterceptor ty var m0 q h s")
  obtain rs where rs: "serve_metered ty var h reqs s1 = (rs, s')" "outs = r # rs"
    using Cons.prems(2) by (auto simp: x r split: prod.splits)
  note st = metrics_step [OF law Cons.prems(1) un r]
  have live: "vw_reports vw (sv_get var s1)" using st tagged_law [OF law Cons.prems(1)] by simp
  have key: "request_key vw (sv_get var s1) m res = request_key vw (sv_get var s) m res"
    using st request_key_tagged [OF law Cons.prems(1)] by simp
  show ?case
    using Cons.IH [OF live rs(1), unfolded key] st
    by (auto simp: rs(2) x answered_def count_up_def request_key_eq split: option.splits)
qed

lemma in_sequence_metered:
  assumes "\<And>i s. perform (acts i) s = snd (MetricsInterceptor ty var (meth i) (req i) h s)"
  shows "in_sequence acts ids s = snd (serve_metered ty var h (map (\<lambda>i. (meth i, req i)) ids) s)"
  by (induction ids arbitrary: s) (simp_all add: in_sequence_def assms split: prod.splits)

text \<open>C24: behind the serialising interceptor every answer is counted once, under its own method and as
  a success or an error, and a panic is not counted: whenever no handler is running, a counter
  has grown by the number of finished requests of its method with its result, however requests
  arrived, were cancelled and had the actions of their handlers interleaved.\<close>

theorem finished_requests_counted:
  assumes law: "tally_law ty var vw" and live: "vw_reports vw (sv_get var s)" and un: "unmetered var vw h"
    and work: "(work_step lp sp acts)\<^sup>*\<^sup>* (initial l r s) c" and "pool_law lp lheld lw" and "pool_law sp sheld 1"
    and "lheld l = 0" and "sheld r = 0" and "0 \<le> lw" and idle: "running (sched c) = {}"
    and handlers: "\<And>i s. perform (acts i) s = snd (MetricsInterceptor ty var (meth i) (req i) h s)"
  shows "vw_count vw (world c) (request_key vw (sv_get var s) m res) =
    vw_count vw s (request_key vw (sv_get var s) m res) +
    of_nat (answered m res (map (\<lambda>i. (meth i, req i)) (finished c))
      (fst (serve_metered ty var h (map (\<lambda>i. (meth i, req i)) (finished c)) s)))"
proof -
  let ?reqs = "map (\<lambda>i. (meth i, req i)) (finished c)"
  have "world c = snd (serve_metered ty var h ?reqs s)"
    using handlers_sequence [OF work assms(5-9)] idle in_sequence_metered [of acts ty var meth req h, OF handlers]
    by simp
  then have "serve_metered ty var h ?reqs s = (fst (serve_metered ty var h ?reqs s), world c)" by simp
  from requests_counted [OF law live un this] show ?thesis .
qed

section \<open>Overlapping requests\<close>

text \<open>A request of method \<open>b\<close> served from beginning to end while one of method \<open>a\<close> is being handled:
  what the limit of requests alone would admit.\<close>

definition overlapping ::
  "('sc, 't, 's) tally \<Rightarrow> ('sc, 's) scope_var \<Rightarrow> string \<Rightarrow> string \<Rightarrow> ('s, 'q, rpc_err + 'r) handler
     \<Rightarrow> ('s, 'q, rpc_err + 'r) handler" where
  "overlapping ty var a b h = (\<lambda>q. MetricsInterceptor ty var a q (\<lambda>q. MetricsInterceptor ty var b q h))"

text \<open>
  without the serialisation the counters are wrong, since all requests share the variable of the
  scope: if a request of another method is served during a request and both succeed, both are
  counted for that method.\<close>

theorem overlapping_requests_miscounted:
  assumes law: "tally_law ty var vw" and live: "vw_reports vw (sv_get var s)" and un: "unmetered var vw h"
    and run: "overlapping ty var a b h q s = (Ret (Inr v), s')" and "a \<noteq> b"
  shows "vw_count vw s' (request_key vw (sv_get var s) a ''success'') =
      vw_count vw s (request_key vw (sv_get var s) a ''success'') \<and>
    vw_count vw s' (request_key vw (sv_get var s) b ''success'') =
      vw_count vw s (request_key vw (sv_get var s) b ''success'') + 2"
proof -
  define s1 where "s1 = snd (metered ty var a s)"
  have s1: "vw_count vw s1 = vw_count vw s" "sv_get var s1 = tl_Tagged ty (sv_get var s) [(''method'', a)]"
    unfolding s1_def by (rule metered_law [OF law])+
  have live1: "vw_reports vw (sv_get var s1)" unfolding s1(2) by (rule tagged_law(1) [OF law live])
  obtain r s2 where b: "MetricsInterceptor ty var b q h s1 = (r, s2)" by (cases "MetricsInterceptor ty var b q h s1")
  note st = metrics_step [OF law live1 un b]
  have live2: "vw_reports vw (sv_get var s2)" using st tagged_law(1) [OF law live1] by simp
  have r: "r = Ret (Inr v)" and c: "vw_count vw s' = count_up
      (vw_prefix vw (sv_get var s2), (vw_tags vw (sv_get var s2))(''result_type'' \<mapsto> ''success''), ''requests'')
      (vw_count vw s2)"
    using metrics_counts [OF law b [unfolded s1_def] live2 run [unfolded overlapping_def]] by auto
  have "(vw_prefix vw (sv_get var s2), (vw_tags vw (sv_get var s2))(''result_type'' \<mapsto> ''success''), ''requests'')
      = request_key vw (sv_get var s) b ''success''"
    using st by (simp add: request_key_def s1(2) tagged_law [OF law live] tagged_law [OF law live1 [unfolded s1(2)]])
  moreover have "request_key vw (sv_get var s1) b res = request_key vw (sv_get var s) b res" for res
    unfolding s1(2) by (rule request_key_tagged [OF law live])
  ultimately show ?thesis
    using st c r assms(5) by (simp add: s1(1) count_up_def request_key_eq)
qed


section \<open>Examples\<close>

text \<open>A small \<open>tally\<close>: a scope is a prefix with tags, or \<open>None\<close> for the scope that reports nothing; the
  state is the variable of the interceptor and the counters.\<close>

type_synonym small_scope = "(string \<times> (string \<rightharpoonup> string)) option"
type_synonym small_state = "small_scope \<times> (counter_key \<Rightarrow> int64)"

definition small_tally :: "(small_scope, unit, small_state) tally" where
  "small_tally = \<lparr>tl_Noop = None,
     tl_Tagged = \<lambda>sc m. map_option (\<lambda>(p, t). (p, t ++ map_of m)) sc,
     tl_SubScope = \<lambda>sc n. map_option (\<lambda>(p, t). (p @ ''.'' @ n, t)) sc,
     tl_Start = \<lambda>sc n s. ((), s), tl_Stop = \<lambda>t s. s,
     tl_Inc = \<lambda>sc n k (x, c). (x, case sc of None \<Rightarrow> c | Some (p, t) \<Rightarrow> c((p, t, n) := c (p, t, n) + k))\<rparr>"

definition small_var :: "(small_scope, small_state) scope_var" where
  "small_var = \<lparr>sv_get = fst, sv_set = \<lambda>x (_, c). (x, c)\<rparr>"

definition small_view :: "(small_scope, small_state) tally_view" where
  "small_view = \<lparr>vw_reports = \<lambda>sc. sc \<noteq> None, vw_prefix = \<lambda>sc. fst (the sc), vw_tags = \<lambda>sc. snd (the sc), vw_count = snd\<rparr>"

definition small_start :: small_state where
  "small_start = (Some (''csilvm'', Map.empty), \<lambda>_. 0)"

definition yes :: "(small_state, unit, rpc_err + unit) handler" where
  "yes = (\<lambda>q. ok ())"

lemma small_law: "tally_law small_tally small_var small_view"
  by (auto simp: tally_law_def small_tally_def small_var_def small_view_def Let_def)

lemma small_live: "vw_reports small_view (sv_get small_var small_start)"
  by (simp add: small_view_def small_var_def small_start_def)

lemma small_zero: "vw_count small_view small_start k = 0"
  by (simp add: small_view_def small_start_def)

lemma yes_unmetered: "unmetered small_var small_view yes"
  by (simp add: unmetered_def yes_def io_simps)

lemma yes_outcome: "fst (MetricsInterceptor ty var m q yes s) = Ret (Inr ())"
  by (simp add: metrics.outcome_unchanged yes_def io_simps)

theorem finished_requests_counted_witness:
  "vw_count small_view
      (world (handled_once (\<lambda>s. snd (MetricsInterceptor small_tally small_var ''Probe'' () yes s)) small_start))
      (request_key small_view (sv_get small_var small_start) ''Probe'' ''success'') = 1"
proof -
  let ?f = "\<lambda>s. snd (MetricsInterceptor small_tally small_var ''Probe'' () yes s)"
  have p: "perform [?f] s = ?f s" for s by (simp add: perform_def)
  have fin: "finished (handled_once ?f small_start) = [7]" by (simp add: handled_once_def)
  have outs: "fst (serve_metered small_tally small_var yes [(''Probe'', ())] small_start) = [Ret (Inr ())]"
    using yes_outcome [of small_tally small_var "''Probe''" "()" small_start] by (simp add: split_beta Let_def)
  show ?thesis
    using finished_requests_counted [OF small_law small_live yes_unmetered handled_once_reachable [of ?f small_start]
        counter_law counter_law, of "\<lambda>_. ''Probe''" "\<lambda>_. ()" "''Probe''" "''success''"] outs
    by (simp add: p fin small_zero answered_def handled_once_idle)
qed

theorem overlapping_requests_miscounted_witness:
  "vw_count small_view (snd (overlapping small_tally small_var ''Probe'' ''NodeGetInfo'' yes () small_start))
      (request_key small_view (sv_get small_var small_start) ''NodeGetInfo'' ''success'') = 2"
proof -
  let ?o = "overlapping small_tally small_var ''Probe'' ''NodeGetInfo'' yes () small_start"
  have "fst ?o = Ret (Inr ())" by (simp add: overlapping_def metrics.outcome_unchanged yes_def io_simps)
  then have "?o = (Ret (Inr ()), snd ?o)" by (metis prod.collapse)
  from overlapping_requests_miscounted [OF small_law small_live yes_unmetered this] show ?thesis
    by (simp add: small_zero)
qed


end
