(* ===== verification/Frames.thy ===== *)
theory Frames
  imports Controller
begin

text \<open>
  What the handlers leave alone. \<open>steady f m\<close> says that a computation does not change the part
  \<open>f\<close> of the state, however it ends, and \<open>keeps view m\<close> that it does not change the part \<open>view\<close>
  of the outside world. \<open>LVM\<close> itself is not part of the
  repository; \<open>lvm_world\<close> collects what its manual promises and what the plugin relies on:
  queries change no volume, \<open>lvs\<close> reports the volumes of the group, \<open>lvcreate\<close> and \<open>lvremove\<close>
  add and remove one volume, and a run that reports a failure has had its whole effect or
  none.
\<close>

named_theorems keeps_intros \<open>introduction rules for computations that leave a view of the world alone\<close>

section \<open>Computations that leave a view alone\<close>

text \<open>\<open>steady f m\<close>: the computation does not change the part \<open>f\<close> of the state. The part is one of
  the outside world for \<open>keeps view\<close>, and the address of the agent for \<open>keeps_agent\<close>.\<close>

definition steady :: "('s \<Rightarrow> 'v) \<Rightarrow> ('s, 'a) io \<Rightarrow> bool" where
  "steady f m \<longleftrightarrow> (\<forall>s. f (snd (m s)) = f s)"

abbreviation keeps :: "('w \<Rightarrow> 'v) \<Rightarrow> ('w gs, 'a) io \<Rightarrow> bool" where
  "keeps view \<equiv> steady (\<lambda>s. view (ext s))"

abbreviation keeps_agent :: "('w gs, 'a) io \<Rightarrow> bool" where
  "keeps_agent \<equiv> steady StolakeURL"

text \<open>The same for a call of the outside world.\<close>

definition still :: "('w \<Rightarrow> 'v) \<Rightarrow> ('w \<Rightarrow> 'a \<times> 'w) \<Rightarrow> bool" where
  "still view f \<longleftrightarrow> (\<forall>w. view (snd (f w)) = view w)"

lemma steadyD: "steady f m \<Longrightarrow> m s = (r, s') \<Longrightarrow> f s' = f s"
  by (metis steady_def snd_conv)

lemmas keepsD = steadyD [where f = "\<lambda>s. view (ext s)" for view]

lemma steady_ret [keeps_intros]: "steady f (ret x)" by (simp add: steady_def ret_def)
lemma steady_panic [keeps_intros]: "steady f (panic msg)" by (simp add: steady_def panic_def)
lemma steady_ok [keeps_intros]: "steady f (ok x)" by (simp add: ok_def steady_ret)
lemma steady_fail [keeps_intros]: "steady f (fail e)" by (simp add: fail_def steady_ret)
lemma steady_get_state [keeps_intros]: "steady f (get_state g)" by (simp add: steady_def get_state_def)

lemma steady_put_state [keeps_intros]: "(\<And>s. f (g s) = f s) \<Longrightarrow> steady f (put_state g)"
  by (simp add: steady_def put_state_def)

lemma keeps_extcall [keeps_intros]: "still view f \<Longrightarrow> keeps view (extcall c f)"
  by (auto simp: steady_def extcall_def still_def split: prod.splits) (metis snd_conv)

lemma keeps_agent_extcall [keeps_intros]: "keeps_agent (extcall c f)"
  by (simp add: steady_def extcall_def split: prod.splits)

lemma still_id [keeps_intros]: "still view (\<lambda>w. (x, w))"
  by (simp add: still_def)

lemma steady_bind [keeps_intros]:
  assumes "steady f m" and "\<And>x. steady f (k x)"
  shows "steady f (bind m k)"
  using assms unfolding steady_def bind_def by (auto split: prod.splits outcome.splits) (metis snd_conv)+

lemma steady_defer_do [keeps_intros]: "steady f fin \<Longrightarrow> steady f m \<Longrightarrow> steady f (defer_do fin m)"
  unfolding steady_def defer_do_def by (auto split: prod.splits outcome.splits) (metis snd_conv)+

lemma steady_tryE [keeps_intros]:
  "steady f m \<Longrightarrow> (\<And>e. steady f (h e)) \<Longrightarrow> (\<And>x. steady f (k x)) \<Longrightarrow> steady f (tryE m h k)"
  unfolding tryE_def by (rule steady_bind) (auto split: sum.split)

lemma steady_tryR [keeps_intros]: "steady f m \<Longrightarrow> (\<And>x. steady f (k x)) \<Longrightarrow> steady f (tryR m h k)"
  unfolding tryR_def by (intro keeps_intros)

lemma steady_ignore [keeps_intros]: "steady f m \<Longrightarrow> steady f (ignore m)"
  unfolding ignore_def by (intro keeps_intros)

lemma steady_if [keeps_intros]: "steady f m \<Longrightarrow> steady f n \<Longrightarrow> steady f (if b then m else n)"
  by simp

lemma steady_option [keeps_intros]:
  "steady f m \<Longrightarrow> (\<And>x. steady f (k x)) \<Longrightarrow> steady f (case v of None \<Rightarrow> m | Some x \<Rightarrow> k x)"
  by (cases v) auto

lemma steady_sum [keeps_intros]:
  "(\<And>e. steady f (h e)) \<Longrightarrow> (\<And>x. steady f (k x)) \<Longrightarrow> steady f (case r of Inl e \<Rightarrow> h e | Inr x \<Rightarrow> k x)"
  by (cases r) auto

lemma steady_list [keeps_intros]:
  "steady f m \<Longrightarrow> (\<And>x ys. steady f (k x ys)) \<Longrightarrow> steady f (case xs of [] \<Rightarrow> m | x # ys \<Rightarrow> k x ys)"
  by (cases xs) auto

lemma steady_prod [keeps_intros]: "(\<And>a b. steady f (k a b)) \<Longrightarrow> steady f (case p of (a, b) \<Rightarrow> k a b)"
  by (cases p) auto

lemma steady_prod_fun [keeps_intros]: "(\<And>a b. steady f (k a b c)) \<Longrightarrow> steady f ((case p of (a, b) \<Rightarrow> k a b) c)"
  by (cases p) auto

lemma steady_Let [keeps_intros]: "(\<And>x. steady f (k x)) \<Longrightarrow> steady f (let x = a in k x)"
  by simp

lemma steady_deref [keeps_intros]: "(\<And>x. steady f (k x)) \<Longrightarrow> steady f (deref p k)"
  unfolding deref_def by (intro keeps_intros)

lemma steady_lift_outcome [keeps_intros]: "steady f (lift_outcome r)"
  unfolding lift_outcome_def by (cases r) (simp_all add: steady_ret steady_panic)

lemma steady_ProxyMode [keeps_intros]: "steady f ProxyMode"
  unfolding ProxyMode_def by (intro keeps_intros)

lemma keeps_with_agent [keeps_intros]:
  "(\<And>url. still view (sys_dial sys url)) \<Longrightarrow> (\<And>c. keeps view (body c)) \<Longrightarrow> keeps view (with_agent sys on_err body)"
  unfolding with_agent_def connect_def stolakeConnect_def disconnect_def by (intro keeps_intros)

lemma keeps_agent_with_agent [keeps_intros]: "(\<And>c. keeps_agent (body c)) \<Longrightarrow> keeps_agent (with_agent sys on_err body)"
  unfolding with_agent_def connect_def stolakeConnect_def disconnect_def by (intro keeps_intros)

section \<open>What LVM promises\<close>

text \<open>One run of a tool, started here or by the agent: \<open>R\<close> relates whether it reports success, the
  view before and the view after.\<close>

definition tool_effect ::
  "'w sys \<Rightarrow> ('w \<Rightarrow> 'v) \<Rightarrow> string \<Rightarrow> string list \<Rightarrow> (bool \<Rightarrow> 'v \<Rightarrow> 'v \<Rightarrow> bool) \<Rightarrow> bool" where
  "tool_effect sys view cmd args R \<longleftrightarrow>
     (\<forall>w. case sys_run sys cmd args w of (r, w') \<Rightarrow> R (er_error r = None) (view w) (view w')) \<and>
     (\<forall>url w. case sys_MercuryProxy sys url cmd args w of (r, w') \<Rightarrow> R (\<not> isl r) (view w) (view w'))"

text \<open>The runs that change no volume: the queries and scans, the wiping of signatures, and the
  activation and deactivation of a volume.\<close>

definition harmless :: "string \<Rightarrow> string list \<Rightarrow> bool" where
  "harmless cmd args \<longleftrightarrow>
     cmd \<in> report_tools \<or> cmd \<in> scan_tools \<or> cmd = ''partprobe'' \<or> cmd = ''wipefs'' \<or>
     cmd = ''lvchange'' \<and> (\<exists>p. args = [''-ay'', p] \<or> args = [''-an'', p])"

definition others_still :: "'w sys \<Rightarrow> ('w \<Rightarrow> 'v) \<Rightarrow> bool" where
  "others_still sys view \<longleftrightarrow>
     (\<forall>url. still view (sys_dial sys url)) \<and> still view (sys_rand sys) \<and> still view (sys_now sys) \<and>
     (\<forall>p. still view (sys_combined sys ''file'' [''-bsL'', p])) \<and>
     (\<forall>p. still view (sys_combined sys ''blkid'' [''-c'', ''/dev/null'', ''-o'', ''export'', p])) \<and>
     (\<forall>c p. still view (sys_FileSystemType sys c p)) \<and> (\<forall>c q. still view (sys_StageIscsi sys c q)) \<and>
     (\<forall>c q. still view (sys_UnStageIscsi sys c q)) \<and> (\<forall>c q. still view (sys_CtrlPubIscsiDrives sys c q)) \<and>
     (\<forall>cmd args. harmless cmd args \<longrightarrow> tool_effect sys view cmd args (\<lambda>_ v v'. v' = v))"

text \<open>\<open>lvs\<close> on the group answers, and reports exactly the volumes of the group.\<close>

definition reports :: "string \<Rightarrow> lvsItem list \<Rightarrow> bool" where
  "reports out v \<longleftrightarrow> (case Unmarshal lvsOutput out [] of Inl _ \<Rightarrow> False | Inr rep \<Rightarrow> concat rep = v)"

definition lvs_faithful :: "'w sys \<Rightarrow> VolumeGroup \<Rightarrow> ('w \<Rightarrow> lvsItem list) \<Rightarrow> bool" where
  "lvs_faithful sys g view \<longleftrightarrow>
     (\<forall>url w. fst (sys_dial sys url w) = None) \<and>
     (\<forall>w. case fst (sys_run sys ''lvs'' (report_args @ find_lv_args g) w) of
        r \<Rightarrow> er_error r = None \<and> reports (er_stdout r) (view w)) \<and>
     (\<forall>url w. case fst (sys_MercuryProxy sys url ''lvs'' (report_args @ find_lv_args g) w) of
        Inl _ \<Rightarrow> False | Inr out \<Rightarrow> reports out (view w)) \<and>
     (\<forall>w. \<forall>it\<in>set (view w). lv_VgName it = vgroup_name g)"

definition inserted :: "'a \<Rightarrow> 'a list \<Rightarrow> 'a list \<Rightarrow> bool" where
  "inserted x v v' \<longleftrightarrow> (\<exists>xs ys. v = xs @ ys \<and> v' = xs @ x # ys)"

definition creates :: "string \<Rightarrow> string set \<Rightarrow> lvsItem list \<Rightarrow> lvsItem list \<Rightarrow> bool" where
  "creates nm tags v v' \<longleftrightarrow>
     nm \<notin> lv_Name ` set v \<and> (\<exists>it. lv_Name it = nm \<and> tagSet it = tags \<and> inserted it v v')"

definition without :: "string \<Rightarrow> lvsItem list \<Rightarrow> lvsItem list" where
  "without nm v = filter (\<lambda>it. lv_Name it \<noteq> nm) v"

text \<open>The flags that a layout adds to \<open>lvcreate\<close>: \<open>Flags\<close> of some \<open>VolumeLayout\<close>. These are all the
  plugin ever passes.\<close>

definition layout_flags :: "string list \<Rightarrow> bool" where
  "layout_flags flags \<longleftrightarrow> (\<exists>layout. Flags layout = Ret flags)"

lemma LVOpts_layout_flags: "LVOpts_Flags opts = Ret flags \<Longrightarrow> layout_flags flags"
  by (auto simp: LVOpts_Flags_def layout_flags_def)

definition lvm_changes :: "'w sys \<Rightarrow> VolumeGroup \<Rightarrow> ('w \<Rightarrow> lvsItem list) \<Rightarrow> bool" where
  "lvm_changes sys g view \<longleftrightarrow>
     (\<forall>tags sz nm flags. (\<forall>t\<in>set tags. t \<noteq> '''' \<and> ValidateTag t = None) \<and> layout_flags flags \<longrightarrow>
        tool_effect sys view ''lvcreate''
          (lvcreate_args (map (\<lambda>t. ''--add-tag='' @ t) tags) sz nm (vgroup_name g) flags)
          (\<lambda>success v v'. creates nm (set tags) v v' \<or> \<not> success \<and> v' = v)) \<and>
     (\<forall>nm. tool_effect sys view ''lvremove'' [''-f'', vgroup_name g @ ''/'' @ nm]
        (\<lambda>success v v'. v' = without nm v \<or> \<not> success \<and> v' = v))"

definition lvm_world :: "'w sys \<Rightarrow> VolumeGroup \<Rightarrow> ('w \<Rightarrow> lvsItem list) \<Rightarrow> bool" where
  "lvm_world sys g view \<longleftrightarrow> others_still sys view \<and> lvs_faithful sys g view \<and> lvm_changes sys g view"

section \<open>The effect of a run\<close>

lemma tool_effect_local:
  "tool_effect sys view cmd args R \<Longrightarrow> sys_run sys cmd args w = (r, w') \<Longrightarrow>
     R (er_error r = None) (view w) (view w')"
  unfolding tool_effect_def by (metis case_prod_conv)

lemma tool_effect_agent:
  "tool_effect sys view cmd args R \<Longrightarrow> sys_MercuryProxy sys url cmd args w = (r, w') \<Longrightarrow>
     R (\<not> isl r) (view w) (view w')"
  unfolding tool_effect_def by (metis case_prod_conv)

lemma run_raw_effect:
  assumes "\<And>url. still view (sys_dial sys url)" and "tool_effect sys view cmd args R"
    and "\<And>v. R False v v" and "run_raw sys cmd args s = (Ret r, s')"
  shows "R (\<not> isl r) (view (ext s)) (view (ext s'))"
proof (cases "StolakeURL s \<noteq> ''none'' \<and> StolakeURL s \<noteq> ''''")
  case True
  define url where "url = ''unix://'' @ StolakeURL s"
  obtain derr w1 where d: "sys_dial sys url (ext s) = (derr, w1)" by (cases "sys_dial sys url (ext s)")
  have w1: "view w1 = view (ext s)"
    using assms(1) [of url] d unfolding still_def by (metis snd_conv)
  obtain a w2 where m: "sys_MercuryProxy sys url cmd args w1 = (a, w2)"
    by (cases "sys_MercuryProxy sys url cmd args w1")
  have "R (\<not> isl a) (view w1) (view w2)"
    using tool_effect_agent [OF assms(2)] m by fastforce
  then show ?thesis
    using assms(3,4) True d [unfolded url_def] m [unfolded url_def] w1
    by (auto simp: run_raw_def bind_Ret [OF ProxyMode_apply] bind_def ProxyStoLakeRun_eq Let_def fail_def ok_def
        ret_def split: option.splits sum.splits)
next
  case False
  obtain a w where m: "sys_run sys cmd args (ext s) = (a, w)" by (cases "sys_run sys cmd args (ext s)")
  have "R (er_error a = None) (view (ext s)) (view w)"
    using tool_effect_local [OF assms(2)] m by fastforce
  then show ?thesis
    using assms(4) False m
    by (auto simp: run_raw_def bind_Ret [OF ProxyMode_apply] bind_def extcall_def fail_def ok_def ret_def
        split: option.splits)
qed

lemma run_nil_effect:
  assumes "\<And>url. still view (sys_dial sys url)" and "tool_effect sys view cmd args R"
    and "\<And>v. R False v v" and "run_nil sys cmd args s = (Ret r, s')"
  shows "R (r = None) (view (ext s)) (view (ext s'))"
  using assms(4) unfolding run_nil_def
  by (auto elim!: tryE_cases simp: ret_def dest!: run_raw_effect [OF assms(1-3)])

lemma keeps_run_raw_tool:
  assumes "\<And>url. still view (sys_dial sys url)" and "tool_effect sys view cmd args (\<lambda>_ v v'. v' = v)"
  shows "keeps view (run_raw sys cmd args)"
  unfolding steady_def
proof
  fix s
  obtain r s' where r: "run_raw sys cmd args s = (Ret r, s')" using nopanic_run_raw by (rule nopanicE)
  from run_raw_effect [OF assms _ r] r show "view (ext (snd (run_raw sys cmd args s))) = view (ext s)"
    by simp
qed

lemma keeps_run_raw:
  assumes "others_still sys view" and "harmless cmd args"
  shows "keeps view (run_raw sys cmd args)"
  by (rule keeps_run_raw_tool) (use assms in \<open>simp_all add: others_still_def\<close>)

lemma keeps_run [keeps_intros]:
  "others_still sys view \<Longrightarrow> harmless cmd (report_args @ args) \<Longrightarrow> keeps view (run sys cmd um v args)"
  unfolding run_def by (intro keeps_intros keeps_run_raw)

lemma keeps_run_nil [keeps_intros]:
  "others_still sys view \<Longrightarrow> harmless cmd args \<Longrightarrow> keeps view (run_nil sys cmd args)"
  unfolding run_nil_def by (intro keeps_intros keeps_run_raw)

lemma keeps_query [keeps_intros]:
  "others_still sys view \<Longrightarrow> harmless cmd (report_args @ args) \<Longrightarrow> (\<And>x. keeps view (f x)) \<Longrightarrow>
     keeps view (query sys cmd um isnf nf args f)"
  unfolding query_def by (intro keeps_intros)

lemma harmless_simps [simp]:
  "cmd \<in> report_tools \<Longrightarrow> harmless cmd args" "cmd \<in> scan_tools \<Longrightarrow> harmless cmd args"
  "harmless ''partprobe'' args" "harmless ''wipefs'' args"
  "harmless ''lvchange'' [''-ay'', p]" "harmless ''lvchange'' [''-an'', p]"
  by (simp_all add: harmless_def)

end
