(* ===== verification/VolumeStore.thy ===== *)
theory VolumeStore
  imports Frames
begin

text \<open>
  The Controller service as a store of named volumes. The abstract store is the list of the
  volumes of the group, as \<open>lvs\<close> reports it; \<open>allowed\<close> says what one request may do to it, with
  any answer and also when the handler panics: nothing; for a creation, to add one volume that
  carries the tag of the requested name when no volume does; for a deletion, to remove the
  volume of that id. The properties: the decorated service refines this specification, no
  name ever has two volumes, and a creation that is repeated gives the same volume, whatever
  requests came in between.
\<close>

section \<open>Handlers that leave the store alone\<close>

lemma keeps_queries [keeps_intros]:
  assumes "others_still sys view"
  shows "keeps view (BytesTotal sys vg)" "keeps view (ExtentSize sys vg)"
    "keeps view (ListPhysicalVolumeNames sys vg)" "keeps view (ListLogicalVolumeNames sys vg)"
    "keeps view (Path_lv sys lv)" "keeps view (Tags_lv sys lv)" "keeps view (Uuid_lv sys lv)"
  unfolding BytesTotal_def ExtentSize_def ListPhysicalVolumeNames_def ListLogicalVolumeNames_def
    Path_lv_def Tags_lv_def Uuid_lv_def with_lv_path_def
  by (intro keeps_intros assms; simp)+

lemma keeps_BytesFree [keeps_intros]: "others_still sys view \<Longrightarrow> keeps view (BytesFree sys vg raid)"
  unfolding BytesFree_def by (intro keeps_intros; simp)

lemma keeps_RefreshMetaData [keeps_intros]:
  assumes "others_still sys view"
  shows "keeps view (RefreshMetaData sys)"
proof -
  have "tool_effect sys view ''partprobe'' [] (\<lambda>_ v v'. v' = v)"
    using assms by (simp add: others_still_def)
  then have p: "still view (sys_run sys ''partprobe'' [])"
    unfolding still_def tool_effect_def by (auto split: prod.splits) (metis prod.collapse)
  show ?thesis
    unfolding RefreshMetaData_def PVScan_def VGScan_def by (intro keeps_intros assms p; simp)
qed

lemma keeps_find [keeps_intros]:
  "others_still sys view \<Longrightarrow> keeps view (FindLogicalVolume sys vg m)"
  unfolding FindLogicalVolume_def by (intro keeps_intros; simp)

lemma keeps_lookup [keeps_intros]:
  "others_still sys view \<Longrightarrow> keeps view (LookupLogicalVolume sys vg nm)"
  unfolding LookupLogicalVolume_def by (rule keeps_find)

lemma keeps_activation [keeps_intros]:
  assumes "others_still sys view"
  shows "keeps view (Activate_lv sys lv)" "keeps view (Deactivate_lv sys lv)"
  unfolding Activate_lv_def Deactivate_lv_def with_lv_path_def
  by (intro keeps_intros assms; simp)+

lemma keeps_report [keeps_intros]:
  "others_still sys view \<Longrightarrow> keeps view (reportStorageMetrics sys srv)"
  unfolding reportStorageMetrics_def by (intro keeps_intros)

lemma keeps_and_report [keeps_intros]:
  "others_still sys view \<Longrightarrow> keeps view m \<Longrightarrow> keeps view (and_report sys srv m)"
  unfolding and_report_def by (intro keeps_intros)

lemma keeps_volumeAttributes [keeps_intros]:
  "others_still sys view \<Longrightarrow> keeps view (volumeAttributes sys lv)"
  unfolding volumeAttributes_def by (intro keeps_intros)

lemma keeps_create_parts [keeps_intros]:
  assumes "others_still sys view"
  shows "keeps view (existing_volume sys request lv)" "keeps view (requested_size sys srv request layout)"
    "keeps view (finish_volume sys srv params vid lv)"
  unfolding existing_volume_def validateExistingVolume_def requested_size_def finish_volume_def
  by (intro keeps_intros assms; simp)+

lemma keeps_allocate_id [keeps_intros]:
  assumes "others_still sys view"
  shows "keeps view (allocate_id sys vg n)"
proof (induction n)
  case 0
  show ?case unfolding allocate_id.simps by (intro keeps_intros)
next
  case (Suc n)
  have "still view (sys_rand sys)" using assms by (simp add: others_still_def)
  then show ?case unfolding allocate_id.simps by (intro keeps_intros assms Suc.IH)
qed

lemma keeps_list_entries [keeps_intros]:
  "others_still sys view \<Longrightarrow> keeps view (list_entries sys srv names entries)"
  by (induction names arbitrary: entries) (simp_all add: keeps_intros)

lemma still_agent_calls:
  assumes "others_still sys view"
  shows "still view (sys_dial sys url)" "still view (sys_FileSystemType sys c p)" "still view (sys_now sys)"
    "still view (sys_StageIscsi sys c q)" "still view (sys_UnStageIscsi sys c q)"
    "still view (sys_CtrlPubIscsiDrives sys c q)" "still view (sys_combined sys ''file'' [''-bsL'', p])"
    "still view (sys_combined sys ''blkid'' [''-c'', ''/dev/null'', ''-o'', ''export'', p])"
  using assms unfolding others_still_def by blast+

lemma keeps_jbof_loop:
  assumes "others_still sys view"
  shows "keeps view (jbof_loop sys vgname iqn urls acc)"
proof (induction urls arbitrary: acc)
  case Nil
  show ?case unfolding jbof_loop.simps by (intro keeps_intros still_agent_calls assms; simp)
next
  case (Cons u urls)
  show ?case
    unfolding jbof_loop.simps stolakeConnect_def disconnect_def
    by (intro keeps_intros still_agent_calls assms Cons.IH)
qed

text \<open>The RPCs other than creation and deletion change nothing of the store.\<close>

lemma keeps_other_rpcs [keeps_intros]:
  assumes "others_still sys view"
  shows "keeps view (ControllerPublishVolume sys srv r1)" "keeps view (ControllerUnpublishVolume sys srv r2)"
    "keeps view (ValidateVolumeCapabilities sys srv r3)" "keeps view (ListVolumes sys srv r4)"
    "keeps view (GetCapacity sys srv r5)"
proof -
  have "keeps view (publish_iscsi sys srv v n pc)" for v n pc
    unfolding publish_iscsi_def StageIscsiTarget_def Let_def
    by (intro keeps_intros assms still_agent_calls)
  moreover have "keeps view (publish_jbof sys srv n pc)" for n pc
    unfolding publish_jbof_def JbofStageIscsiTargets_def
    by (intro keeps_intros assms still_agent_calls keeps_jbof_loop)
  ultimately show "keeps view (ControllerPublishVolume sys srv r1)"
    unfolding ControllerPublishVolume_def Let_def by (intro keeps_intros)
  show "keeps view (ControllerUnpublishVolume sys srv r2)"
    unfolding ControllerUnpublishVolume_def UnStageIscsiTarget_def
    by (intro keeps_intros assms still_agent_calls)
  have "keeps view (determineFilesystemType sys p)" for p
    unfolding determineFilesystemType_def determineLocalFilesystemType_def FstypeProxy_def
    by (intro keeps_intros assms still_agent_calls)
  then show "keeps view (ValidateVolumeCapabilities sys srv r3)"
    unfolding ValidateVolumeCapabilities_def by (intro keeps_intros assms)
  show "keeps view (ListVolumes sys srv r4)"
    unfolding ListVolumes_def by (intro keeps_intros assms)
  show "keeps view (GetCapacity sys srv r5)"
    unfolding GetCapacity_def by (intro keeps_intros assms)
qed

section \<open>Creation and deletion\<close>

lemma lvs_report_view:
  assumes "lvm_world sys g view"
  shows "\<exists>rep s'. lvs_report sys (find_lv_args g) s = (Ret (Inr rep), s') \<and> concat rep = view (ext s)"
proof -
  have f: "lvs_faithful sys g view" and o: "others_still sys view" using assms by (simp_all add: lvm_world_def)
  have "\<exists>out shown s'. run_raw sys ''lvs'' (report_args @ find_lv_args g) s = (Ret (Inr (out, shown)), s') \<and>
      reports out (view (ext s))"
  proof (cases "StolakeURL s \<noteq> ''none'' \<and> StolakeURL s \<noteq> ''''")
    case True
    define url where "url = ''unix://'' @ StolakeURL s"
    obtain w1 where d: "sys_dial sys url (ext s) = (None, w1)"
      using f unfolding lvs_faithful_def by (metis prod.collapse)
    have w1: "view w1 = view (ext s)"
      using still_agent_calls(1) [OF o, of url] d unfolding still_def by (metis snd_conv)
    have "case fst (sys_MercuryProxy sys url ''lvs'' (report_args @ find_lv_args g) w1) of
        Inl _ \<Rightarrow> False | Inr out \<Rightarrow> reports out (view w1)"
      using f unfolding lvs_faithful_def by blast
    then obtain out w2 where m: "sys_MercuryProxy sys url ''lvs'' (report_args @ find_lv_args g) w1 = (Inr out, w2)"
        and rep: "reports out (view w1)"
      by (cases "sys_MercuryProxy sys url ''lvs'' (report_args @ find_lv_args g) w1") (auto split: sum.splits)
    show ?thesis
      using True d [unfolded url_def] m [unfolded url_def] rep w1
      by (simp add: run_raw_def bind_Ret [OF ProxyMode_apply] bind_def ProxyStoLakeRun_eq Let_def
          ok_def ret_def)
  next
    case False
    obtain a w where m: "sys_run sys ''lvs'' (report_args @ find_lv_args g) (ext s) = (a, w)"
      by (cases "sys_run sys ''lvs'' (report_args @ find_lv_args g) (ext s)")
    then have "er_error a = None" "reports (er_stdout a) (view (ext s))"
      using f unfolding lvs_faithful_def by (metis fst_conv)+
    then show ?thesis
      using False m by (auto simp: run_raw_def bind_Ret [OF ProxyMode_apply] bind_def extcall_def ok_def ret_def)
  qed
  then obtain out shown s' where r: "run_raw sys ''lvs'' (report_args @ find_lv_args g) s = (Ret (Inr (out, shown)), s')"
      and rep: "reports out (view (ext s))" by blast
  then show ?thesis
    by (auto simp: run_def tryE_Inr reports_def ok_def ret_def split: sum.splits)
qed

text \<open>The lookup answers with the first volume of the store that is accepted.\<close>

lemma FindLogicalVolume_view:
  assumes "lvm_world sys g view"
  shows "\<exists>s'. FindLogicalVolume sys (Some g) m s =
    (Ret (case find m (view (ext s)) of
       None \<Rightarrow> Inl ErrLogicalVolumeNotFound | Some i \<Rightarrow> Inr (lv_in (lv_Name i) (lv_LvSize i) g)), s')"
proof -
  obtain rep s' where r: "lvs_report sys (find_lv_args g) s = (Ret (Inr rep), s')" and c: "concat rep = view (ext s)"
    using lvs_report_view [OF assms] by blast
  have vg: "\<forall>it\<in>set (view (ext s)). lv_VgName it = vgroup_name g"
    using assms by (simp add: lvm_world_def lvs_faithful_def)
  then have "find (\<lambda>lv. lv_VgName lv = vgroup_name g \<and> m lv) (view (ext s)) = find m (view (ext s))"
    by (intro find_cong) simp_all
  then show ?thesis
    using r c by (auto simp: FindLogicalVolume_def deref_Some tryE_Inr find_lv_def lv_in_def ok_def fail_def ret_def
        split: option.splits)
qed

lemma lvm_world_still: "lvm_world sys g view \<Longrightarrow> others_still sys view"
  by (simp add: lvm_world_def)

lemma nopanic_Remove_lv: "nopanic (Remove_lv sys (lv_in nm sz g))"
  unfolding Remove_lv_def with_lv_path_def lv_in_sel deref_Some by (rule nopanic_run_nil)

lemma Remove_lv_effect:
  assumes "lvm_world sys g view" and "Remove_lv sys (lv_in nm sz g) s = (Ret r, s')"
  shows "view (ext s') = without nm (view (ext s)) \<or> r \<noteq> None \<and> view (ext s') = view (ext s)"
proof -
  have e: "tool_effect sys view ''lvremove'' [''-f'', vgroup_name g @ ''/'' @ nm]
      (\<lambda>success v v'. v' = without nm v \<or> \<not> success \<and> v' = v)"
    using assms(1) by (simp add: lvm_world_def lvm_changes_def)
  have "run_nil sys ''lvremove'' [''-f'', vgroup_name g @ ''/'' @ nm] s = (Ret r, s')"
    using assms(2) by (simp add: Remove_lv_def with_lv_path_def deref_Some)
  from run_nil_effect [OF still_agent_calls(1) [OF lvm_world_still [OF assms(1)]] e _ this] show ?thesis
    by auto
qed

text \<open>A creation through \<open>CreateLogicalVolume\<close>, successful or not.\<close>

lemma CreateLogicalVolume_effect:
  assumes o: "others_still sys view" and w: "lvm_changes sys g view"
    and c: "CreateLogicalVolume sys (Some g) nm sz tags optFns s = (r, s')"
  shows "creates nm (set (filter (\<lambda>t. t \<noteq> '''') tags)) (view (ext s)) (view (ext s')) \<or>
    (\<forall>lv. r \<noteq> Ret (Inr lv)) \<and> view (ext s') = view (ext s)"
proof (cases "ValidateLogicalVolumeName nm = None \<and> (\<exists>targs. add_tag_args tags = Inr targs) \<and>
    (\<exists>flags. LVOpts_Flags (apply_opts optFns zero_LVOpts) = Ret flags)")
  case False
  then show ?thesis
    using c by (auto simp: CreateLogicalVolume_def deref_Some fail_def ret_def lift_outcome_def bind_panic panic_def
        split: option.splits sum.splits outcome.splits)
next
  case True
  define ts where "ts = filter (\<lambda>t. t \<noteq> '''') tags"
  obtain targs flags where v: "ValidateLogicalVolumeName nm = None" and t: "add_tag_args tags = Inr targs"
      and f: "LVOpts_Flags (apply_opts optFns zero_LVOpts) = Ret flags" using True by blast
  have targs: "targs = map (\<lambda>t. ''--add-tag='' @ t) ts" and ok: "\<forall>t\<in>set ts. t \<noteq> '''' \<and> ValidateTag t = None"
    using t by (auto simp: add_tag_args_Inr_iff ts_def)
  define cargs where "cargs = lvcreate_args targs sz nm (vgroup_name g) flags"
  have e: "tool_effect sys view ''lvcreate'' cargs (\<lambda>success v v'. creates nm (set ts) v v' \<or> \<not> success \<and> v' = v)"
    using w ok LVOpts_layout_flags [OF f] by (simp add: lvm_changes_def cargs_def targs)
  obtain err s1 where l: "run_nil sys ''lvcreate'' cargs s = (Ret err, s1)"
    using nopanic_run_nil by (rule nopanicE)
  note eff = run_nil_effect [OF still_agent_calls(1) [OF o] e _ l]
  define rest where "rest = bind (run_nil sys ''wipefs'' [''--all'', ''/dev/'' @ vgroup_name g @ ''/'' @ nm]) (\<lambda>_.
      bind (Deactivate_lv sys (lv_in nm sz g)) (\<lambda>_. ok (lv_in nm sz g) :: ('a gs, goerr + LogicalVolume) io))"
  have k: "keeps view rest"
    unfolding rest_def by (intro keeps_intros o) simp
  have "(case err of
        Some err \<Rightarrow> if isInsufficientSpace err then fail ErrNoSpace
          else if isInsufficientDevices err then fail ErrTooFewDisks else fail err
      | None \<Rightarrow> rest) s1 = (r, s')"
    unfolding rest_def lv_in_def
    using c v t f l by (cases err) (simp_all add: CreateLogicalVolume_def deref_Some lift_outcome_def bind_ret
        bind_Ret cargs_def [symmetric] Let_def)
  then have "view (ext s') = view (ext s1) \<and> (err \<noteq> None \<longrightarrow> (\<forall>lv. r \<noteq> Ret (Inr lv)))"
    using keepsD [OF k] by (auto simp: fail_def ret_def split: option.splits if_splits)
  then show ?thesis using eff by (auto simp: ts_def)
qed

lemma new_volume_effect:
  assumes o: "others_still sys view" and w: "lvm_changes sys g view" and g: "srv_volumeGroup srv = Some g"
    and c: "new_volume sys srv request tags vid s = (r, s')"
  shows "creates vid (set (filter (\<lambda>t. t \<noteq> '''') tags)) (view (ext s)) (view (ext s')) \<and>
        (\<forall>v. r = Ret (Inr v) \<longrightarrow> vol_volume_id v = vid) \<or>
    (\<forall>v. r \<noteq> Ret (Inr v)) \<and> view (ext s') = view (ext s)"
proof -
  obtain lerr layout params where l: "takeVolumeLayoutFromParameters (dupParams (cv_parameters request)) = (lerr, layout, params)"
    by (cases "takeVolumeLayoutFromParameters (dupParams (cv_parameters request))")
  show ?thesis
  proof (cases lerr)
    case (Some e)
    with c l show ?thesis by (auto simp: new_volume_def fail_def ret_def)
  next
    case None
    note c1 = c [unfolded new_volume_def l prod.case None option.case]
    from c1 show ?thesis
    proof (cases rule: tryE_cases)
      case (Inl e s1)
      then show ?thesis using keepsD [OF keeps_create_parts(2) [OF o] Inl(1)] by (auto simp: fail_def ret_def)
    next
      case (Panic msg)
      then show ?thesis using keepsD [OF keeps_create_parts(2) [OF o] Panic(1)] by auto
    next
      case (Inr sz s1)
      have v1: "view (ext s1) = view (ext s)" by (rule keepsD [OF keeps_create_parts(2) [OF o] Inr(1)])
      show ?thesis
      proof (cases "volumeOptsFromParameters (cv_parameters request)")
        case (Inl e)
        with Inr(2) v1 show ?thesis by (auto simp: fail_def ret_def)
      next
        case opts: (Inr lvopts)
        have "tryR (CreateLogicalVolume sys (Some g) vid sz tags lvopts) create_error
            (\<lambda>lv. finish_volume sys srv params vid lv) s1 = (r, s')"
          using Inr(2) opts g by simp
        then show ?thesis
        proof (cases rule: tryR_cases)
          case (Inr lv s2)
          have "view (ext s') = view (ext s2)" by (rule keepsD [OF keeps_create_parts(3) [OF o] Inr(2)])
          moreover have "vol_volume_id v = vid" if "r = Ret (Inr v)" for v
            using Inr(2) that unfolding finish_volume_def by (auto elim!: tryR_cases bind_cases dest!: and_report_result)
          ultimately show ?thesis using CreateLogicalVolume_effect [OF o w Inr(1)] v1 by auto
        next
          case (Inl e)
          then show ?thesis using CreateLogicalVolume_effect [OF o w Inl(1)] v1 by auto
        next
          case (Panic msg)
          then show ?thesis using CreateLogicalVolume_effect [OF o w Panic(1)] v1 by auto
        qed
      qed
    qed
  qed
qed

section \<open>The specification\<close>

definition named :: "string \<Rightarrow> lvsItem \<Rightarrow> bool" where
  "named n it \<longleftrightarrow> volumeNameToTag n \<in> tagSet it"

datatype controller_request =
    Create CreateVolumeRequest
  | Delete DeleteVolumeRequest
  | Publish ControllerPublishVolumeRequest
  | Unpublish ControllerUnpublishVolumeRequest
  | ValidateCaps ValidateVolumeCapabilitiesRequest
  | ListVols ListVolumesRequest
  | Capacity GetCapacityRequest

text \<open>What one request may do to the store of the service with the given tags.\<close>

inductive allowed :: "string list \<Rightarrow> controller_request \<Rightarrow> lvsItem list \<Rightarrow> lvsItem list \<Rightarrow> bool"
  for server_tags where
  nothing: "allowed server_tags r v v"
| created: "(\<forall>it\<in>set v. \<not> named (cv_name r) it) \<Longrightarrow>
     creates vid (set (filter (\<lambda>t. t \<noteq> '''') (server_tags @ [volumeNameToTag (cv_name r)]))) v v' \<Longrightarrow>
     allowed server_tags (Create r) v v'"
| deleted: "allowed server_tags (Delete r) v (without (dv_volume_id r) v)"

inductive_cases allowed_createE: "allowed server_tags (Create r) v v'"
inductive_cases allowed_deleteE: "allowed server_tags (Delete r) v v'"

text \<open>One request to the decorated service, and what it leaves behind. The handlers run one at a
  time, so a sequence of requests is handled by a fold.\<close>

definition controller_service :: "'w sys \<Rightarrow> Server \<Rightarrow> bool \<Rightarrow> gomap option \<Rightarrow> 'w ControllerServer" where
  "controller_service sys srv removing filesystems =
     ControllerServerValidator (controller_server sys srv) removing filesystems"

fun serve :: "'w ControllerServer \<Rightarrow> controller_request \<Rightarrow> 'w gs \<Rightarrow> 'w gs" where
  "serve cs (Create r) s = snd (cs_CreateVolume cs r s)"
| "serve cs (Delete r) s = snd (cs_DeleteVolume cs r s)"
| "serve cs (Publish r) s = snd (cs_ControllerPublishVolume cs r s)"
| "serve cs (Unpublish r) s = snd (cs_ControllerUnpublishVolume cs r s)"
| "serve cs (ValidateCaps r) s = snd (cs_ValidateVolumeCapabilities cs r s)"
| "serve cs (ListVols r) s = snd (cs_ListVolumes cs r s)"
| "serve cs (Capacity r) s = snd (cs_GetCapacity cs r s)"

section \<open>Refinement\<close>

text \<open>The part of a creation that follows a failed lookup.\<close>

lemma create_absent_effect:
  assumes o: "others_still sys view" and w: "lvm_changes sys g view" and g: "srv_volumeGroup srv = Some g"
    and c: "bind (allocate_id sys (Some g) 10) (\<lambda>volumeID. case volumeID of
        None \<Rightarrow> fail (Status Internal ''Failed to allocate volume ID'')
      | Some vid \<Rightarrow> new_volume sys srv request (srv_tags srv @ [volumeNameToTag (cv_name request)]) vid) s = (r, s')"
  shows "(\<exists>vid. creates vid (set (filter (\<lambda>t. t \<noteq> '''') (srv_tags srv @ [volumeNameToTag (cv_name request)])))
        (view (ext s)) (view (ext s')) \<and> (\<forall>v. r = Ret (Inr v) \<longrightarrow> vol_volume_id v = vid)) \<or>
    (\<forall>v. r \<noteq> Ret (Inr v)) \<and> view (ext s') = view (ext s)"
  using c
proof (cases rule: bind_cases)
  case (Panic msg)
  then show ?thesis using keepsD [OF keeps_allocate_id [OF o] Panic(1)] by auto
next
  case (Ret vid s2)
  have v2: "view (ext s2) = view (ext s)" by (rule keepsD [OF keeps_allocate_id [OF o] Ret(1)])
  show ?thesis
  proof (cases vid)
    case None
    with Ret(2) v2 show ?thesis by (auto simp: fail_def ret_def)
  next
    case (Some i)
    have "new_volume sys srv request (srv_tags srv @ [volumeNameToTag (cv_name request)]) i s2 = (r, s')"
      using Ret(2) Some by simp
    from new_volume_effect [OF o w g this] v2 show ?thesis by (auto simp del: filter_append set_filter)
  qed
qed

lemma lvm_world_changes: "lvm_world sys g view \<Longrightarrow> lvm_changes sys g view"
  by (simp add: lvm_world_def)

lemma CreateVolume_effect:
  assumes w: "lvm_world sys g view" and g: "srv_volumeGroup srv = Some g"
    and c: "CreateVolume sys srv request s = (r, s')"
  shows "allowed (srv_tags srv) (Create request) (view (ext s)) (view (ext s')) \<and>
    (\<forall>v. r = Ret (Inr v) \<longrightarrow>
       (case find (named (cv_name request)) (view (ext s)) of
          Some it \<Rightarrow> view (ext s') = view (ext s) \<and> vol_volume_id v = lv_Name it
        | None \<Rightarrow> creates (vol_volume_id v)
            (set (filter (\<lambda>t. t \<noteq> '''') (srv_tags srv @ [volumeNameToTag (cv_name request)])))
            (view (ext s)) (view (ext s'))))"
proof -
  note o = lvm_world_still [OF w]
  have m: "LVMatchTag (volumeNameToTag (cv_name request)) = named (cv_name request)"
    by (rule ext) (simp add: LVMatchTag_def named_def)
  obtain s1 where f: "FindLogicalVolume sys (Some g) (named (cv_name request)) s =
      (Ret (case find (named (cv_name request)) (view (ext s)) of
         None \<Rightarrow> Inl ErrLogicalVolumeNotFound | Some i \<Rightarrow> Inr (lv_in (lv_Name i) (lv_LvSize i) g)), s1)"
    using FindLogicalVolume_view [OF w] by blast
  have v1: "view (ext s1) = view (ext s)" by (rule keepsD [OF keeps_find [OF o] f])
  show ?thesis
  proof (cases "find (named (cv_name request)) (view (ext s))")
    case (Some it)
    have e: "existing_volume sys request (lv_in (lv_Name it) (lv_LvSize it) g) s1 = (r, s')"
      using c f Some by (simp add: CreateVolume_def m g Let_def bind_Ret)
    have "view (ext s') = view (ext s)" using keepsD [OF keeps_create_parts(1) [OF o] e] v1 by simp
    moreover have "vol_volume_id v = lv_Name it" if "r = Ret (Inr v)" for v
      using e that unfolding existing_volume_def
      by (auto elim!: bind_cases tryR_cases simp: fail_def ok_def ret_def split: option.splits)
    ultimately show ?thesis using Some by (auto intro: allowed.nothing)
  next
    case None
    then have fresh: "\<forall>it\<in>set (view (ext s)). \<not> named (cv_name request) it"
      by (simp add: find_None_iff)
    have "bind (allocate_id sys (Some g) 10) (\<lambda>volumeID. case volumeID of
        None \<Rightarrow> fail (Status Internal ''Failed to allocate volume ID'')
      | Some vid \<Rightarrow> new_volume sys srv request (srv_tags srv @ [volumeNameToTag (cv_name request)]) vid) s1 = (r, s')"
      using c f None by (simp add: CreateVolume_def m g Let_def bind_Ret)
    from create_absent_effect [OF o lvm_world_changes [OF w] g this] show ?thesis
      using None fresh v1 by (auto intro: allowed.nothing allowed.created simp del: filter_append set_filter)
  qed
qed

lemma DeleteVolume_effect:
  assumes w: "lvm_world sys g view" and g: "srv_volumeGroup srv = Some g"
    and c: "DeleteVolume sys srv request s = (r, s')"
  shows "allowed tags (Delete request) (view (ext s)) (view (ext s')) \<and>
    (r = Ret (Inr ()) \<longrightarrow> view (ext s') = without (dv_volume_id request) (view (ext s)))"
proof -
  note o = lvm_world_still [OF w]
  define m :: "lvsItem \<Rightarrow> bool" where "m = (\<lambda>lv. lv_Name lv = dv_volume_id request)"
  obtain s1 where f: "LookupLogicalVolume sys (Some g) (dv_volume_id request) s =
      (Ret (case find m (view (ext s)) of
         None \<Rightarrow> Inl ErrLogicalVolumeNotFound | Some i \<Rightarrow> Inr (lv_in (lv_Name i) (lv_LvSize i) g)), s1)"
    using FindLogicalVolume_view [OF w] unfolding LookupLogicalVolume_def m_def by blast
  have v1: "view (ext s1) = view (ext s)" by (rule keepsD [OF keeps_lookup [OF o] f])
  show ?thesis
  proof (cases "find m (view (ext s))")
    case None
    then have "without (dv_volume_id request) (view (ext s)) = view (ext s)"
      by (auto simp: find_None_iff m_def without_def intro: filter_True)
    then show ?thesis
      using c f None v1 by (auto simp: DeleteVolume_def g bind_Ret ok_def ret_def intro: allowed.nothing)
  next
    case (Some it)
    then have nm: "lv_Name it = dv_volume_id request" by (auto simp: find_Some_iff m_def)
    obtain err s2 where rm: "Remove_lv sys (lv_in (lv_Name it) (lv_LvSize it) g) s1 = (Ret err, s2)"
      using nopanic_Remove_lv by (rule nopanicE)
    have rest: "(case err of Some e \<Rightarrow> fail (wrap Internal ''Failed to remove volume: err='' e)
        | None \<Rightarrow> and_report sys srv (ok ())) s2 = (r, s')"
      using c f Some rm by (simp add: DeleteVolume_def g bind_Ret)
    then have "view (ext s') = view (ext s2) \<and> (err \<noteq> None \<longrightarrow> r \<noteq> Ret (Inr ()))"
      using keepsD [OF keeps_and_report [OF o steady_ok]]
      by (auto simp: fail_def ret_def split: option.splits)
    then show ?thesis
      using Remove_lv_effect [OF w rm] v1 nm by (auto intro: allowed.nothing allowed.deleted)
  qed
qed

lemma keeps_check_first: "keeps view m \<Longrightarrow> keeps view (check_first err m)"
  unfolding check_first_def by (intro keeps_intros)

lemma serve_allowed:
  assumes w: "lvm_world sys g view" and g: "srv_volumeGroup srv = Some g"
  shows "allowed (srv_tags srv) req (view (ext s))
    (view (ext (serve (controller_service sys srv removing filesystems) req s)))"
proof -
  note o = lvm_world_still [OF w]
  note k = keeps_other_rpcs [OF o]
  note defs = controller_service_def ControllerServerValidator_def checked_GetCapacity_def controller_server_def
  have quiet: "allowed (srv_tags srv) req (view (ext s)) (view (ext (snd (m s))))" if "keeps view m" for m :: "('a, 'b) rpc"
    using that by (simp add: steady_def allowed.nothing)
  show ?thesis
  proof (cases req)
    case (Create r)
    then show ?thesis
      using CreateVolume_effect [OF w g, of r s "fst (CreateVolume sys srv r s)" "snd (CreateVolume sys srv r s)"]
      by (auto simp: defs check_first_def fail_def ret_def intro: allowed.nothing split: option.splits)
  next
    case (Delete r)
    then show ?thesis
      using DeleteVolume_effect [OF w g, of r s "fst (DeleteVolume sys srv r s)" "snd (DeleteVolume sys srv r s)"]
      by (auto simp: defs check_first_def fail_def ret_def intro: allowed.nothing split: option.splits)
  qed (auto simp: defs steady_def check_first_def fail_def ret_def k [unfolded steady_def] intro: allowed.nothing
        split: option.splits)
qed

text \<open>In remove mode no request changes the store.\<close>

lemma removing_keeps:
  assumes "others_still sys view"
  shows "view (ext (serve (controller_service sys srv True filesystems) req s)) = view (ext s)"
proof -
  note k = keeps_other_rpcs [OF assms]
  note defs = controller_service_def ControllerServerValidator_def checked_GetCapacity_def controller_server_def
  have refuse: "check_first (validateCreateVolumeRequest r True fs) m = fail ErrRemovingMode"
      "check_first (validateDeleteVolumeRequest d True) m' = fail ErrRemovingMode" for r d fs
      and m :: "('a, Volume) rpc" and m' :: "('a, unit) rpc"
    by (simp_all add: check_first_def validateCreateVolumeRequest_def validateDeleteVolumeRequest_def
        validateRemoving_def first_err_def)
  show ?thesis
    by (cases req) (simp_all add: defs refuse fail_def ret_def keeps_check_first [OF k(3), unfolded steady_def]
        keeps_check_first [OF k(5), unfolded steady_def] k [unfolded steady_def])
qed

text \<open>
  A concrete system that refines a specification of single steps: its runs are runs of the
  specification, and what the specification preserves holds after every run of the system.
\<close>

fun runs :: "('r \<Rightarrow> 'v \<Rightarrow> 'v \<Rightarrow> bool) \<Rightarrow> 'r list \<Rightarrow> 'v \<Rightarrow> 'v \<Rightarrow> bool" where
  "runs spec [] v v' \<longleftrightarrow> v' = v"
| "runs spec (r # rs) v v' \<longleftrightarrow> (\<exists>v1. spec r v v1 \<and> runs spec rs v1 v')"

text \<open>The contract of a service that implements a specification as long as its state is \<open>good\<close>,
  which it stays; and the special case without a condition on the state.\<close>

locale simulation_while =
  fixes step :: "'r \<Rightarrow> 's \<Rightarrow> 's"
    and abs :: "'s \<Rightarrow> 'v"
    and spec :: "'r \<Rightarrow> 'v \<Rightarrow> 'v \<Rightarrow> bool"
    and pre :: bool
    and good :: "'s \<Rightarrow> bool"
  assumes stays: "good s \<Longrightarrow> good (step r s)"
    and simulates: "pre \<Longrightarrow> good s \<Longrightarrow> spec r (abs s) (abs (step r s))"
begin

lemma run_good: "good s \<Longrightarrow> good (fold step rs s)"
  by (induction rs arbitrary: s) (auto intro: stays)

lemma run_refines: "pre \<Longrightarrow> good s \<Longrightarrow> runs spec rs (abs s) (abs (fold step rs s))"
  by (induction rs arbitrary: s) (auto intro: simulates stays)

lemma run_preserves:
  assumes pre and "good s" and "\<And>r v v'. r \<in> set rs \<Longrightarrow> I v \<Longrightarrow> spec r v v' \<Longrightarrow> I v'" and "I (abs s)"
  shows "I (abs (fold step rs s))"
  using assms(2,3,4)
proof (induction rs arbitrary: s)
  case Nil
  then show ?case by simp
next
  case (Cons r rs)
  have "I (abs (step r s))"
    by (rule Cons.prems(2) [OF _ Cons.prems(3) simulates [OF \<open>pre\<close> Cons.prems(1)]]) simp
  then have "I (abs (fold step rs (step r s)))"
    by (intro Cons.IH) (auto intro: Cons.prems(2) stays Cons.prems(1))
  then show ?case by simp
qed

end

locale simulation =
  fixes step :: "'r \<Rightarrow> 's \<Rightarrow> 's"
    and abs :: "'s \<Rightarrow> 'v"
    and spec :: "'r \<Rightarrow> 'v \<Rightarrow> 'v \<Rightarrow> bool"
    and pre :: bool
  assumes always_simulates: "pre \<Longrightarrow> spec r (abs s) (abs (step r s))"

sublocale simulation \<subseteq> anywhere: simulation_while step abs spec pre "\<lambda>_. True"
  by unfold_locales (auto intro: always_simulates)

context simulation
begin

lemma run_refines: "pre \<Longrightarrow> runs spec rs (abs s) (abs (fold step rs s))"
  by (rule anywhere.run_refines) simp_all

lemma run_preserves:
  "pre \<Longrightarrow> (\<And>r v v'. r \<in> set rs \<Longrightarrow> I v \<Longrightarrow> spec r v v' \<Longrightarrow> I v') \<Longrightarrow> I (abs s) \<Longrightarrow> I (abs (fold step rs s))"
  by (rule anywhere.run_preserves) simp_all

end

interpretation store: simulation "serve (controller_service sys srv removing filesystems)" "\<lambda>s. view (ext s)"
    "allowed (srv_tags srv)" "lvm_world sys g view \<and> srv_volumeGroup srv = Some g"
  for sys srv removing filesystems view g
  by unfold_locales (blast intro: serve_allowed)

section \<open>Properties of the store\<close>

text \<open>Every volume has its own id, and no name has two volumes.\<close>

definition consistent :: "lvsItem list \<Rightarrow> bool" where
  "consistent v \<longleftrightarrow> distinct (map lv_Name v) \<and> (\<forall>n. length (filter (named n) v) \<le> 1)"

lemma named_injective:
  "volumeNameToTag n = volumeNameToTag m \<Longrightarrow> n = m"
  by (metis option.inject tagToVolumeName_volumeNameToTag)

lemma inserted_filter:
  "inserted it v v' \<Longrightarrow> length (filter P v') = length (filter P v) + (if P it then 1 else 0)"
  by (auto simp: inserted_def)

lemma consistent_create:
  assumes "consistent v" and "\<forall>it\<in>set v. \<not> named n it" and "\<And>m. volumeNameToTag m \<notin> set server_tags"
    and "creates vid (set (filter (\<lambda>t. t \<noteq> '''') (server_tags @ [volumeNameToTag n]))) v v'"
  shows "consistent v'"
proof -
  obtain it where it: "lv_Name it = vid" "vid \<notin> lv_Name ` set v" "inserted it v v'"
      "tagSet it = set (filter (\<lambda>t. t \<noteq> '''') (server_tags @ [volumeNameToTag n]))"
    using assms(4) by (auto simp: creates_def)
  have only: "named m it \<Longrightarrow> m = n" for m
    using it(4) assms(3) [of m] by (auto simp: named_def dest: named_injective split: if_splits)
  have none: "filter (named n) v = []" using assms(2) by (simp add: filter_empty_conv)
  have "length (filter (named m) v') \<le> 1" for m
    using inserted_filter [OF it(3), of "named m"] only [of m] none assms(1)
    by (cases "m = n") (auto simp: consistent_def)
  moreover have "distinct (map lv_Name v')"
    using it assms(1) by (auto simp: consistent_def inserted_def)
  ultimately show ?thesis by (simp add: consistent_def)
qed

lemma consistent_without:
  assumes "consistent v"
  shows "consistent (without nm v)"
proof -
  have "length (filter (named n) (without nm v)) \<le> length (filter (named n) v)" for n
    using length_filter_le [of "\<lambda>it. lv_Name it \<noteq> nm" "filter (named n) v"]
    by (simp add: without_def conj_commute)
  moreover have "distinct (map lv_Name (without nm v))"
    using assms by (auto simp: consistent_def without_def distinct_map inj_on_def)
  ultimately show ?thesis using assms unfolding consistent_def by (meson order.trans)
qed

lemma consistent_allowed:
  assumes "allowed server_tags r v v'" and "\<And>m. volumeNameToTag m \<notin> set server_tags" and "consistent v"
  shows "consistent v'"
  using assms by cases (auto simp del: set_filter filter_append intro: consistent_create consistent_without)

text \<open>What a successful answer promises.\<close>

lemma created_inserted: "creates vid tags v v' \<Longrightarrow> tag \<in> tags \<Longrightarrow> \<exists>it\<in>set v'. tag \<in> tagSet it \<and> lv_Name it = vid"
  by (auto simp: creates_def inserted_def)

lemma service_success:
  "cs_CreateVolume (controller_service sys srv removing filesystems) r s = (Ret (Inr v), s') \<Longrightarrow>
     CreateVolume sys srv r s = (Ret (Inr v), s')"
  "cs_DeleteVolume (controller_service sys srv removing filesystems) d s = (Ret (Inr u), s') \<Longrightarrow>
     DeleteVolume sys srv d s = (Ret (Inr u), s')"
  by (auto simp: controller_service_def ControllerServerValidator_def controller_server_def check_first_def fail_def
      ret_def split: option.splits)

lemma find_mem: "find P xs = Some x \<Longrightarrow> x \<in> set xs \<and> P x"
  by (auto simp: find_Some_iff)

lemma CreateVolume_answer:
  assumes w: "lvm_world sys g view" and g: "srv_volumeGroup srv = Some g"
    and c: "CreateVolume sys srv request s = (Ret (Inr v), s')"
  shows "\<exists>it\<in>set (view (ext s')). named (cv_name request) it \<and> lv_Name it = vol_volume_id v"
proof (cases "find (named (cv_name request)) (view (ext s))")
  case (Some it)
  from find_mem [OF this] show ?thesis using CreateVolume_effect [OF w g c] Some by auto
next
  case None
  have "volumeNameToTag (cv_name request) \<in>
      set (filter (\<lambda>t. t \<noteq> '''') (srv_tags srv @ [volumeNameToTag (cv_name request)]))"
    using hd_volumeNameToTag by simp
  then show ?thesis
    using CreateVolume_effect [OF w g c] None created_inserted by (fastforce simp: named_def)
qed

lemma consistent_named:
  assumes "consistent v" and "it \<in> set v" and "jt \<in> set v" and "named n it" and "named n jt"
  shows "it = jt"
proof -
  have l: "length (filter (named n) v) \<le> 1" using assms(1) by (simp add: consistent_def)
  have "it \<in> set (filter (named n) v)" "jt \<in> set (filter (named n) v)" using assms by simp_all
  with l show ?thesis by (cases "filter (named n) v") auto
qed

lemma allowed_keeps_volume:
  assumes "allowed tags r v v'" and "it \<in> set v" and "\<And>d. r = Delete d \<Longrightarrow> dv_volume_id d \<noteq> lv_Name it"
  shows "it \<in> set v'"
  using assms by cases (auto simp: creates_def inserted_def without_def)

section \<open>An example group\<close>

text \<open>A group with room for one volume, local or behind an agent.\<close>

definition small_item :: lvsItem where
  "small_item = zero_lvsItem\<lparr>lv_Name := ''csilv0'', lv_VgName := ''vg0'', lv_LvTags := ''VN.data''\<rparr>"

definition small_view :: "bool \<Rightarrow> lvsItem list" where
  "small_view full = (if full then [small_item] else [])"

definition small_run :: "string \<Rightarrow> string list \<Rightarrow> bool \<Rightarrow> exec_result \<times> bool" where
  "small_run cmd args full =
     (let good = \<lambda>out. \<lparr>er_stdout = out, er_stderr = '''', er_error = None\<rparr>;
          bad = \<lparr>er_stdout = '''', er_stderr = ''no'', er_error = Some ''exit status 5''\<rparr> in
      if cmd = ''lvcreate'' then
        if \<not> full \<and> args = lvcreate_args [''--add-tag=VN.data''] 8 ''csilv0'' ''vg0'' [] then (good '''', True)
        else (bad, full)
      else if cmd = ''lvremove'' then
        if args = [''-f'', ''vg0/csilv0''] then (good '''', False) else (bad, full)
      else if cmd = ''vgs'' then (good ''{\"report\":[{\"vg\":[{\"vg_name\":\"vg0\"}]}]}'', full)
      else (good (if full
        then ''{\"report\":[{\"lv\":[{\"lv_name\":\"csilv0\",\"vg_name\":\"vg0\",\"lv_tags\":\"VN.data\"}]}]}''
        else ''{\"report\":[{\"lv\":[]}]}''), full))"

definition small_lvm :: "bool sys" where
  "small_lvm = quiet\<lparr>sys_run := small_run,
     sys_MercuryProxy := \<lambda>c cmd args full. (case small_run cmd args full of (r, full') \<Rightarrow>
       (case er_error r of None \<Rightarrow> Inr (er_stdout r) | Some e \<Rightarrow> Inl (TextError e), full'))\<rparr>"

lemma small_effect:
  assumes "\<And>full r full'. small_run cmd args full = (r, full') \<Longrightarrow>
      R (er_error r = None) (small_view full) (small_view full')"
  shows "tool_effect small_lvm small_view cmd args R"
proof -
  have "R (\<not> isl (case er_error r of None \<Rightarrow> Inr (er_stdout r) | Some e \<Rightarrow> Inl (TextError e)))
      (small_view full) (small_view full')" if "small_run cmd args full = (r, full')" for full r full'
    using assms [OF that] by (cases "er_error r") simp_all
  with assms show ?thesis
    unfolding tool_effect_def small_lvm_def by (simp split: prod.split)
qed

lemma small_lvs: "reports (er_stdout (fst (small_run ''lvs'' args full))) (small_view full)"
proof -
  have "json_parse ''{\"report\":[{\"lv\":[{\"lv_name\":\"csilv0\",\"vg_name\":\"vg0\",\"lv_tags\":\"VN.data\"}]}]}'' =
      Some (JObj [(''report'', JArr [JObj [(''lv'', JArr [JObj [(''lv_name'', JStr ''csilv0''), (''vg_name'', JStr ''vg0''),
        (''lv_tags'', JStr ''VN.data'')]])]])])"
    and "json_parse ''{\"report\":[{\"lv\":[]}]}'' = Some (JObj [(''report'', JArr [JObj [(''lv'', JArr [])]])])"
    by code_simp+
  then show ?thesis
    by (simp add: small_run_def small_view_def small_item_def reports_def Unmarshal_def lvsOutput_def um_report_def
        um_struct_def um_slice_def um_lvsItem_def um_string_def map_sum_def ToLower_def lower_char_def)
qed

lemma small_item_sel: "lv_Name small_item = ''csilv0''" "tagSet small_item = {''VN.data''}"
proof -
  show "lv_Name small_item = ''csilv0''" by (simp add: small_item_def)
  have "tagList small_item = [''VN.data'']" by code_simp
  then show "tagSet small_item = {''VN.data''}" by (simp add: tagList_def tagSet_def)
qed

lemma small_create_args:
  assumes "lvcreate_args (map (\<lambda>t. ''--add-tag='' @ t) tags) sz nm (vgroup_name lake) flags =
    lvcreate_args [''--add-tag=VN.data''] 8 ''csilv0'' ''vg0'' []"
  shows "tags = [''VN.data''] \<and> nm = ''csilv0''"
proof (cases tags)
  case Nil
  with assms show ?thesis by (simp add: lvcreate_args_def)
next
  case (Cons t ts)
  with assms show ?thesis by (cases ts) (simp_all add: lvcreate_args_def lake_def)
qed

lemma small_world: "lvm_world small_lvm lake small_view"
proof -
  have s: "still small_view f" if "\<And>w. snd (f w) = w" for f :: "bool \<Rightarrow> 'a \<times> bool"
    using that by (simp add: still_def)
  have "others_still small_lvm small_view"
    unfolding others_still_def
    by (intro conjI allI impI s small_effect)
       (auto simp: small_lvm_def quiet_def small_run_def harmless_def report_tools_def scan_tools_def
          split: if_splits)
  moreover have "lvs_faithful small_lvm lake small_view"
    unfolding lvs_faithful_def using small_lvs
    by (auto simp: small_lvm_def quiet_def small_view_def small_item_def lake_def small_run_def split: prod.splits)
  moreover have "lvm_changes small_lvm lake small_view"
    unfolding lvm_changes_def
  proof (intro conjI allI impI small_effect)
    fix tags sz nm flags full r full'
    assume "small_run ''lvcreate'' (lvcreate_args (map (\<lambda>t. ''--add-tag='' @ t) tags) sz nm (vgroup_name lake) flags) full = (r, full')"
    then show "creates nm (set tags) (small_view full) (small_view full') \<or>
        \<not> er_error r = None \<and> small_view full' = small_view full"
      using small_create_args [of tags sz nm flags]
      by (auto simp: small_run_def small_view_def creates_def inserted_def small_item_sel Let_def split: if_splits)
  next
    fix nm full r full'
    assume "small_run ''lvremove'' [''-f'', vgroup_name lake @ ''/'' @ nm] full = (r, full')"
    then show "small_view full' = without nm (small_view full) \<or> \<not> er_error r = None \<and> small_view full' = small_view full"
      by (auto simp: small_run_def small_view_def small_item_def without_def lake_def Let_def split: if_splits)
  qed
  ultimately show ?thesis by (simp add: lvm_world_def)
qed

definition small_server :: Server where
  "small_server = lake_server\<lparr>srv_tags := [], srv_defaultVolumeSize := 8\<rparr>"

definition small_service :: "bool ControllerServer" where
  "small_service = controller_service small_lvm small_server False (SupportedFilesystems small_server)"

lemma small_group: "srv_volumeGroup small_server = Some lake"
  by (simp add: small_server_def lake_server_def)

text \<open>
  The Controller service implements a store of named volumes: whatever requests it
  serves, and whatever each of them answers, panics included, the volumes of the group evolve
  by the steps of the specification, one per request.\<close>

theorem controller_refines_store:
  assumes "lvm_world sys g view" and "srv_volumeGroup srv = Some g"
  shows "runs (allowed (srv_tags srv)) reqs (view (ext s))
    (view (ext (fold (serve (controller_service sys srv removing filesystems)) reqs s)))"
  using store.run_refines [of sys g view srv reqs s removing filesystems] assms by blast

theorem controller_refines_store_witness:
  "runs (allowed (srv_tags small_server)) [Create plain_create, Delete \<lparr>dv_volume_id = ''csilv0''\<rparr>]
     (small_view (ext (quiet_state False)))
     (small_view (ext (fold (serve small_service)
        [Create plain_create, Delete \<lparr>dv_volume_id = ''csilv0''\<rparr>] (quiet_state False))))"
  unfolding small_service_def by (rule controller_refines_store [OF small_world small_group])

text \<open>
  no name ever gets two volumes and no id is used twice: both hold after any requests if
  they held before, provided no configured tag looks like the tag of a name.\<close>

theorem one_volume_per_name:
  assumes "lvm_world sys g view" and "srv_volumeGroup srv = Some g"
    and "\<And>m. volumeNameToTag m \<notin> set (srv_tags srv)" and "consistent (view (ext s))"
  shows "consistent (view (ext (fold (serve (controller_service sys srv removing filesystems)) reqs s)))"
  using store.run_preserves [of sys g view srv reqs consistent s removing filesystems] assms consistent_allowed by blast

theorem one_volume_per_name_witness:
  "consistent (small_view (ext (fold (serve small_service) [Create plain_create, Create plain_create] (quiet_state False))))"
  unfolding small_service_def
  by (rule one_volume_per_name [OF small_world small_group])
     (simp_all add: small_server_def quiet_state_def small_view_def consistent_def)

text \<open>
  creating a volume is idempotent: once a creation has succeeded, a later creation of the
  same name that succeeds returns the same volume and changes nothing, whatever requests came
  in between, as long as they did not delete that volume.\<close>

theorem create_volume_idempotent:
  assumes w: "lvm_world sys g view" and g: "srv_volumeGroup srv = Some g"
    and tags: "\<And>m. volumeNameToTag m \<notin> set (srv_tags srv)" and c: "consistent (view (ext s))"
    and cs: "cs = controller_service sys srv removing filesystems"
    and first: "cs_CreateVolume cs r1 s = (Ret (Inr v1), s1)"
    and between: "\<And>d. Delete d \<in> set reqs \<Longrightarrow> dv_volume_id d \<noteq> vol_volume_id v1"
    and again: "cs_CreateVolume cs r2 (fold (serve cs) reqs s1) = (Ret (Inr v2), s2)"
    and name: "cv_name r2 = cv_name r1"
  shows "vol_volume_id v2 = vol_volume_id v1 \<and> view (ext s2) = view (ext (fold (serve cs) reqs s1))"
proof -
  define s3 where "s3 = fold (serve cs) reqs s1"
  have c1: "consistent (view (ext s1))"
    using CreateVolume_effect [OF w g service_success(1) [OF first [unfolded cs]]] consistent_allowed tags c by blast
  obtain it where it: "it \<in> set (view (ext s1))" "named (cv_name r1) it" "lv_Name it = vol_volume_id v1"
    using CreateVolume_answer [OF w g service_success(1) [OF first [unfolded cs]]] by blast
  have "consistent (view (ext s3)) \<and> it \<in> set (view (ext s3))"
    unfolding s3_def cs
  proof (rule store.run_preserves [where I = "\<lambda>v. consistent v \<and> it \<in> set v"])
    show "consistent v' \<and> it \<in> set v'"
      if "q \<in> set reqs" "consistent v \<and> it \<in> set v" "allowed (srv_tags srv) q v v'" for q v v'
    proof
      show "consistent v'" using consistent_allowed [OF that(3) tags] that(2) by simp
      have "dv_volume_id d \<noteq> lv_Name it" if "q = Delete d" for d
        using between [of d] \<open>q \<in> set reqs\<close> it(3) that by simp
      then show "it \<in> set v'" using allowed_keeps_volume [OF that(3)] that(2) by simp
    qed
  qed (use w g c1 it(1) in auto)
  moreover obtain jt where f: "find (named (cv_name r2)) (view (ext s3)) = Some jt"
    using calculation it(2) name
    by (cases "find (named (cv_name r2)) (view (ext s3))") (auto simp: find_None_iff)
  note jt = find_mem [OF f]
  ultimately have "jt = it" using consistent_named jt it(2) name by metis
  then show ?thesis
    using CreateVolume_effect [OF w g service_success(1) [OF again [unfolded cs]]] it(3) f by (simp add: s3_def cs)
qed

text \<open>C18: the answers are true of the store: after a successful creation it holds a volume with
  the returned id and the tag of the name, and after a successful deletion it is what it was
  without the volume of that id.\<close>

theorem answers_match_store:
  assumes "lvm_world sys g view" and "srv_volumeGroup srv = Some g"
    and "cs = controller_service sys srv removing filesystems"
  shows "(cs_CreateVolume cs r s = (Ret (Inr v), s') \<longrightarrow>
      (\<exists>it\<in>set (view (ext s')). named (cv_name r) it \<and> lv_Name it = vol_volume_id v)) \<and>
    (cs_DeleteVolume cs d s = (Ret (Inr ()), s') \<longrightarrow>
      view (ext s') = without (dv_volume_id d) (view (ext s)))"
proof (intro conjI impI)
  assume "cs_CreateVolume cs r s = (Ret (Inr v), s')"
  then show "\<exists>it\<in>set (view (ext s')). named (cv_name r) it \<and> lv_Name it = vol_volume_id v"
    unfolding assms(3) by (rule CreateVolume_answer [OF assms(1,2) service_success(1)])
next
  assume "cs_DeleteVolume cs d s = (Ret (Inr ()), s')"
  then show "view (ext s') = without (dv_volume_id d) (view (ext s))"
    unfolding assms(3) using DeleteVolume_effect [OF assms(1,2) service_success(2)] by blast
qed

lemma small_first:
  "\<exists>v s'. cs_CreateVolume small_service plain_create (quiet_state False) = (Ret (Inr v), s')"
proof -
  have "(case fst (cs_CreateVolume small_service plain_create (quiet_state False)) of Ret (Inr v) \<Rightarrow> True | _ \<Rightarrow> False)"
    by code_simp
  then obtain v where "fst (cs_CreateVolume small_service plain_create (quiet_state False)) = Ret (Inr v)"
    by (auto split: outcome.splits sum.splits)
  from outcome_state [OF this] show ?thesis by blast
qed

theorem answers_match_store_witness:
  "\<exists>v s'. cs_CreateVolume small_service plain_create (quiet_state False) = (Ret (Inr v), s') \<and>
     (\<exists>it\<in>set (small_view (ext s')). named ''data'' it \<and> lv_Name it = vol_volume_id v)"
proof -
  obtain v s' where c: "cs_CreateVolume small_service plain_create (quiet_state False) = (Ret (Inr v), s')"
    using small_first by blast
  have "cv_name plain_create = ''data''" by (simp add: plain_create_def sample_create_def)
  with c answers_match_store [OF small_world small_group small_service_def,
      of plain_create "quiet_state False" v s' undefined]
  show ?thesis by auto
qed

theorem create_volume_idempotent_witness:
  "\<exists>v s1 w s2. cs_CreateVolume small_service plain_create (quiet_state False) = (Ret (Inr v), s1) \<and>
     cs_CreateVolume small_service plain_create
       (fold (serve small_service) [Delete \<lparr>dv_volume_id = ''other''\<rparr>] s1) = (Ret (Inr w), s2) \<and>
     vol_volume_id w = vol_volume_id v"
proof -
  define res where "res = cs_CreateVolume small_service plain_create (quiet_state False)"
  define res2 where "res2 = cs_CreateVolume small_service plain_create
       (fold (serve small_service) [Delete \<lparr>dv_volume_id = ''other''\<rparr>] (snd res))"
  have "(case fst res of Ret (Inr v) \<Rightarrow> vol_volume_id v = ''csilv0'' | _ \<Rightarrow> False)"
    unfolding res_def by code_simp
  then obtain v where v: "fst res = Ret (Inr v)" "vol_volume_id v = ''csilv0''"
    by (auto split: outcome.splits sum.splits)
  have "(case fst res2 of Ret (Inr v) \<Rightarrow> True | _ \<Rightarrow> False)"
    unfolding res2_def res_def by code_simp
  then obtain w where w: "fst res2 = Ret (Inr w)" by (auto split: outcome.splits sum.splits)
  note c = outcome_state [OF v(1), unfolded res_def] outcome_state [OF w, unfolded res2_def res_def]
  have "vol_volume_id w = vol_volume_id v"
    using create_volume_idempotent [OF small_world small_group _ _ small_service_def c(1) _ c(2)] v(2)
    by (simp add: small_server_def quiet_state_def small_view_def consistent_def)
  with c show ?thesis by blast
qed

end
