(* ===== verification/LookupFailures.thy ===== *)
theory LookupFailures
  imports VolumeStore
begin

text \<open>
  What is left of the store of named volumes when \<open>lvs\<close> does not answer. \<open>CreateVolume\<close> takes every
  error of its lookup for the absence of the volume, so the promise that no name has two
  volumes holds only while the lookup works.
\<close>

section \<open>An example group\<close>

text \<open>The same group with a volume of the name in it, and an \<open>lvs\<close> that cannot list it.\<close>

definition old_item :: lvsItem where
  "old_item = small_item\<lparr>lv_Name := ''csilv1''\<rparr>"

definition flaky_view :: "bool \<Rightarrow> lvsItem list" where
  "flaky_view full = small_view full @ [old_item]"

definition flaky_lvm :: "bool sys" where
  "flaky_lvm = small_lvm\<lparr>sys_run := \<lambda>cmd args w.
     if cmd = ''lvs'' \<and> args = report_args @ find_lv_args lake
     then (\<lparr>er_stdout = '''', er_stderr = ''lock timed out'', er_error = Some ''exit status 5''\<rparr>, w)
     else small_run cmd args w\<rparr>"

lemma flaky_effect:
  assumes "\<And>full r full'. small_run cmd args full = (r, full') \<Longrightarrow>
      R (er_error r = None) (flaky_view full) (flaky_view full')" and "\<And>v. R False v v"
  shows "tool_effect flaky_lvm flaky_view cmd args R"
proof -
  have "R (\<not> isl (case er_error r of None \<Rightarrow> Inr (er_stdout r) | Some e \<Rightarrow> Inl (TextError e)))
      (flaky_view full) (flaky_view full')" if "small_run cmd args full = (r, full')" for full r full'
    using assms(1) [OF that] by (cases "er_error r") simp_all
  with assms show ?thesis
    unfolding tool_effect_def flaky_lvm_def small_lvm_def by (simp split: prod.split)
qed

lemma old_item_sel: "lv_Name old_item = ''csilv1''" "named ''data'' old_item"
proof -
  show "lv_Name old_item = ''csilv1''" by (simp add: old_item_def)
  have "tagList old_item = [''VN.data'']" by code_simp
  moreover have "volumeNameToTag ''data'' = ''VN.data''" by code_simp
  ultimately show "named ''data'' old_item" by (simp add: named_def tagSet_def tagList_def)
qed

lemma flaky_creates: "creates ''csilv0'' {''VN.data''} (flaky_view False) (flaky_view True)"
proof -
  have "inserted small_item (flaky_view False) (flaky_view True)"
    unfolding inserted_def by (rule exI [of _ "[]"]) (simp add: flaky_view_def small_view_def)
  with small_item_sel have "\<exists>it. lv_Name it = ''csilv0'' \<and> tagSet it = {''VN.data''} \<and>
      inserted it (flaky_view False) (flaky_view True)" by blast
  moreover have "''csilv0'' \<notin> lv_Name ` set (flaky_view False)"
    by (simp add: flaky_view_def small_view_def old_item_sel)
  ultimately show ?thesis by (simp add: creates_def)
qed

lemma flaky_world: "others_still flaky_lvm flaky_view" "lvm_changes flaky_lvm lake flaky_view"
proof -
  have s: "still flaky_view f" if "\<And>w. snd (f w) = w" for f :: "bool \<Rightarrow> 'a \<times> bool"
    using that by (simp add: still_def)
  show "others_still flaky_lvm flaky_view"
    unfolding others_still_def
    by (intro conjI allI impI s flaky_effect)
       (auto simp: flaky_lvm_def small_lvm_def quiet_def small_run_def harmless_def report_tools_def scan_tools_def
          split: if_splits)
  show "lvm_changes flaky_lvm lake flaky_view"
    unfolding lvm_changes_def
  proof (intro conjI allI impI flaky_effect)
    fix tags sz nm flags full r full'
    assume "small_run ''lvcreate'' (lvcreate_args (map (\<lambda>t. ''--add-tag='' @ t) tags) sz nm (vgroup_name lake) flags) full = (r, full')"
    then show "creates nm (set tags) (flaky_view full) (flaky_view full') \<or>
        \<not> er_error r = None \<and> flaky_view full' = flaky_view full"
      using small_create_args [of tags sz nm flags]
      using flaky_creates by (cases full) (auto simp: small_run_def Let_def split: if_splits)
  next
    fix nm full r full'
    assume "small_run ''lvremove'' [''-f'', vgroup_name lake @ ''/'' @ nm] full = (r, full')"
    then show "flaky_view full' = without nm (flaky_view full) \<or> \<not> er_error r = None \<and> flaky_view full' = flaky_view full"
      by (auto simp: small_run_def flaky_view_def small_view_def small_item_def old_item_def without_def lake_def Let_def
          split: if_splits)
  qed simp_all
qed

section \<open>The property\<close>

text \<open>C38: a lookup that fails makes a second volume: when the name has a volume but the run of
  \<open>lvs\<close> that looks for it reports an error, whatever it is, a creation that succeeds
  leaves two volumes with that name.\<close>

theorem failed_lookup_duplicates:
  assumes o: "others_still sys view" and w: "lvm_changes sys g view" and g: "srv_volumeGroup srv = Some g"
    and there: "it \<in> set (view (ext s))" "named (cv_name r) it"
    and lookup: "FindLogicalVolume sys (Some g) (LVMatchTag (volumeNameToTag (cv_name r))) s = (Ret (Inl e), s1)"
    and created: "CreateVolume sys srv r s = (Ret (Inr v), s')"
  shows "2 \<le> length (filter (named (cv_name r)) (view (ext s'))) \<and> vol_volume_id v \<noteq> lv_Name it"
proof -
  define tags where "tags = set (filter (\<lambda>t. t \<noteq> '''') (srv_tags srv @ [volumeNameToTag (cv_name r)]))"
  have v1: "view (ext s1) = view (ext s)" by (rule keepsD [OF keeps_find [OF o] lookup])
  have "bind (allocate_id sys (Some g) 10) (\<lambda>volumeID. case volumeID of
        None \<Rightarrow> fail (Status Internal ''Failed to allocate volume ID'')
      | Some vid \<Rightarrow> new_volume sys srv r (srv_tags srv @ [volumeNameToTag (cv_name r)]) vid) s1 = (Ret (Inr v), s')"
    using created lookup by (simp add: CreateVolume_def g Let_def bind_Ret)
  from create_absent_effect [OF o w g this] have cr: "creates (vol_volume_id v) tags (view (ext s)) (view (ext s'))"
    using v1 by (auto simp: tags_def)
  then obtain jt where jt: "tagSet jt = tags" "inserted jt (view (ext s)) (view (ext s'))"
      "vol_volume_id v \<notin> lv_Name ` set (view (ext s))" by (auto simp: creates_def)
  have "volumeNameToTag (cv_name r) \<in> tags" using hd_volumeNameToTag by (simp add: tags_def)
  then have "named (cv_name r) jt" using jt(1) by (simp add: named_def)
  moreover have "0 < length (filter (named (cv_name r)) (view (ext s)))"
    using there by (auto simp: filter_empty_conv)
  ultimately show ?thesis
    using inserted_filter [OF jt(2), of "named (cv_name r)"] jt(3) there(1) by (auto simp: Suc_le_eq)
qed

theorem failed_lookup_duplicates_witness:
  "\<exists>v s'. CreateVolume flaky_lvm small_server plain_create (quiet_state False) = (Ret (Inr v), s') \<and>
     2 \<le> length (filter (named ''data'') (flaky_view (ext s')))"
proof -
  define q where "q = quiet_state False"
  have n: "cv_name plain_create = ''data''" by (simp add: plain_create_def sample_create_def)
  have t: "LVMatchTag (volumeNameToTag ''data'') = named ''data''"
    by (rule HOL.ext) (simp add: LVMatchTag_def named_def)
  have "(case fst (FindLogicalVolume flaky_lvm (Some lake) (LVMatchTag (volumeNameToTag ''data'')) q) of
      Ret (Inl e) \<Rightarrow> True | _ \<Rightarrow> False)"
    unfolding q_def by code_simp
  then obtain e where e: "fst (FindLogicalVolume flaky_lvm (Some lake) (LVMatchTag (volumeNameToTag ''data'')) q) = Ret (Inl e)"
    by (auto split: outcome.splits sum.splits)
  have "(case fst (CreateVolume flaky_lvm small_server plain_create q) of Ret (Inr v) \<Rightarrow> True | _ \<Rightarrow> False)"
    unfolding q_def by code_simp
  then obtain v where v: "fst (CreateVolume flaky_lvm small_server plain_create q) = Ret (Inr v)"
    by (auto split: outcome.splits sum.splits)
  have "old_item \<in> set (flaky_view (ext q))" by (simp add: flaky_view_def)
  from failed_lookup_duplicates [OF flaky_world small_group this old_item_sel(2) [folded n]
      outcome_state [OF e, folded n] outcome_state [OF v]]
  show ?thesis using outcome_state [OF v] by (auto simp: n q_def)
qed

end
