(* ===== verification/MountTable.thy ===== *)
theory MountTable
  imports VolumeStore Node
begin

text \<open>
  The Node service and the mount table of the kernel. The table is a list of mounts, the newest
  last; \<open>/proc/self/mountinfo\<close> is its text. The kernel is not part of the repository:
  \<open>mount_world\<close> collects what the manual pages of \<open>mount\<close>, \<open>umount\<close> and \<open>mountinfo\<close> promise and
  what the plugin relies on. The lemmas say what the handlers find in the table and what
  each of them does to it.
\<close>

section \<open>The table and its text\<close>

record kmount =
  km_id :: string
  km_parent :: string
  km_dev :: string
  km_root :: string
  km_path :: string
  km_opts :: "string list"
  km_tags :: "string list"
  km_fstype :: string
  km_source :: string
  km_super :: string

definition kmount_fields :: "kmount \<Rightarrow> string list" where
  "kmount_fields k =
     [km_id k, km_parent k, km_dev k, km_root k, km_path k, Join (km_opts k) '',''] @ km_tags k @
     [''-'', km_fstype k, km_source k, km_super k]"

text \<open>Blanks inside a field are escaped by the kernel.\<close>

definition well_formed :: "kmount \<Rightarrow> bool" where
  "well_formed k \<longleftrightarrow>
     (\<forall>f\<in>set (kmount_fields k). f \<noteq> '''' \<and> (\<forall>c\<in>set f. \<not> is_space c)) \<and> ''-'' \<notin> set (km_tags k) \<and>
     km_opts k \<noteq> [] \<and> (\<forall>opt\<in>set (km_opts k). CHR '','' \<notin> set opt)"

definition kmount_line :: "kmount \<Rightarrow> string" where
  "kmount_line k = Join (kmount_fields k) '' ''"

definition mountinfo_text :: "kmount list \<Rightarrow> string" where
  "mountinfo_text t = concat (map (\<lambda>k. kmount_line k @ [CHR 0x0A]) t)"

lemma set_Join: "set (Join xs sep) \<subseteq> (\<Union>x\<in>set xs. set x) \<union> set sep"
  by (induction xs sep rule: Join.induct) auto

lemma Fields_kmount_line: "well_formed k \<Longrightarrow> Fields (kmount_line k) = kmount_fields k"
  unfolding kmount_line_def by (rule Fields_Join) (auto simp: well_formed_def kmount_fields_def)

lemma kmount_line_no_newline: "well_formed k \<Longrightarrow> CHR 0x0A \<notin> set (kmount_line k)"
  using set_Join [of "kmount_fields k" "'' ''"] by (fastforce simp: kmount_line_def well_formed_def is_space_def)

lemma kmount_line_nonempty: "well_formed k \<Longrightarrow> kmount_line k \<noteq> ''''"
  using Fields_kmount_line [of k] by (auto simp: Fields_def kmount_fields_def)

lemma mountinfo_lines:
  "list_all well_formed t \<Longrightarrow> Split (mountinfo_text t) CHR 0x0A = map kmount_line t @ ['''']"
proof (induction t)
  case Nil
  show ?case by (simp add: mountinfo_text_def Split_single)
next
  case (Cons k t)
  then show ?case
    using Split_append [OF kmount_line_no_newline [of k], of "mountinfo_text t"] by (simp add: mountinfo_text_def)
qed

section \<open>What the plugin sees\<close>

text \<open>The mounts of a device with a known path: a volume of a group whose name starts with
  \<open>sbvg_\<close>, or a disk that \<open>/dev/disk/by-path\<close> has a link to. The listing of this directory is the
  first argument.\<close>

definition block_path :: "exec_result \<Rightarrow> string \<Rightarrow> string" where
  "block_path r dev =
     (if is_lvm_path dev then dev
      else case er_error r of Some _ \<Rightarrow> '''' | None \<Rightarrow> by_path_lines dev (fst (scan_lines (er_stdout r))))"

definition visible :: "exec_result \<Rightarrow> kmount \<Rightarrow> bool" where
  "visible r k \<longleftrightarrow> block_path r (km_source k) \<noteq> '''' \<and> dataPathType (block_path r (km_source k)) \<noteq> ''''"

definition mount_entry :: "exec_result \<Rightarrow> kmount \<Rightarrow> mountpoint" where
  "mount_entry r k = \<lparr>mp_root = km_root k, mp_path = km_path k, mp_fstype = km_fstype k, mp_mountopts = km_opts k,
     mp_mountsource = km_source k, mp_blockpath = block_path r (km_source k),
     mp_datapath = dataPathType (block_path r (km_source k))\<rparr>"

definition seen :: "exec_result \<Rightarrow> kmount list \<Rightarrow> mountpoint list" where
  "seen r t = map (mount_entry r) (filter (visible r) t)"

text \<open>The mounts whose source is a path \<open>/dev/sbvg_...\<close>. They are always visible. The bind mount of a
  block volume has the file system of the device nodes as its source and is not among them.\<close>

definition lvm_mount :: "kmount \<Rightarrow> bool" where
  "lvm_mount k \<longleftrightarrow> is_lvm_path (km_source k)"

lemma lvm_mount_visible: "lvm_mount k \<Longrightarrow> visible r k"
  by (auto simp: lvm_mount_def visible_def block_path_def dataPathType_def is_lvm_path_def)

text \<open>What a look at the target path finds: the oldest visible mount there.\<close>

definition seen_at :: "exec_result \<Rightarrow> kmount list \<Rightarrow> string \<Rightarrow> mountpoint option" where
  "seen_at r t p = map_option (mount_entry r) (find (\<lambda>k. visible r k \<and> km_path k = p) t)"

lemma first_seen:
  "(case filter (\<lambda>mp. mp_path mp = p) (seen r t) of [] \<Rightarrow> None | mp # _ \<Rightarrow> Some mp) = seen_at r t p"
  by (induction t) (auto simp: seen_def seen_at_def mount_entry_def)

section \<open>What the kernel promises\<close>

record node_view =
  nv_mounts :: "kmount list"
  nv_links :: exec_result

abbreviation ls_by_path :: "'w sys \<Rightarrow> 'w \<Rightarrow> exec_result \<times> 'w" where
  "ls_by_path sys \<equiv> sys_run sys ''ls'' [''-lt'', ''/dev/disk/by-path/'']"

definition mount_reads :: "'w sys \<Rightarrow> ('w \<Rightarrow> node_view) \<Rightarrow> bool" where
  "mount_reads sys view \<longleftrightarrow>
     (\<forall>w. list_all well_formed (nv_mounts (view w))) \<and>
     (\<forall>w. fst (sys_readfile sys ''/proc/self/mountinfo'' w) = Inr (mountinfo_text (nv_mounts (view w)))) \<and>
     still view (sys_readfile sys ''/proc/self/mountinfo'') \<and>
     (\<forall>w. fst (ls_by_path sys w) = nv_links (view w)) \<and> still view (ls_by_path sys)"

text \<open>The part about the listing, which the plugin always makes itself.\<close>

definition links_read :: "'w sys \<Rightarrow> ('w \<Rightarrow> node_view) \<Rightarrow> bool" where
  "links_read sys view \<longleftrightarrow> (\<forall>w. fst (ls_by_path sys w) = nv_links (view w)) \<and> still view (ls_by_path sys)"

lemma mount_reads_links: "mount_reads sys view \<Longrightarrow> links_read sys view"
  by (simp add: mount_reads_def links_read_def)

text \<open>States that agree on the agent and on the mount table.\<close>

definition same_node :: "('w \<Rightarrow> 'v) \<Rightarrow> 'w gs \<Rightarrow> 'w gs \<Rightarrow> bool" where
  "same_node view s s' \<longleftrightarrow> StolakeURL s' = StolakeURL s \<and> view (ext s') = view (ext s)"

lemma same_node_refl: "same_node view s s" by (simp add: same_node_def)

lemma same_node_trans: "same_node view s s1 \<Longrightarrow> same_node view s1 s2 \<Longrightarrow> same_node view s s2"
  by (simp add: same_node_def)

lemma getBlockPath_world:
  assumes "links_read sys view"
  shows "\<exists>s'. getBlockPath sys dev s = (Ret (block_path (nv_links (view (ext s))) dev), s') \<and> same_node view s s'"
proof (cases "is_lvm_path dev")
  case True
  then show ?thesis by (simp add: getBlockPath_def block_path_def ret_def same_node_refl)
next
  case False
  obtain w where l: "ls_by_path sys (ext s) = (nv_links (view (ext s)), w)"
    using assms unfolding links_read_def by (metis prod.collapse)
  then have "view w = view (ext s)" using assms unfolding links_read_def still_def by (metis snd_conv)
  then show ?thesis
    using False l by (auto simp: getBlockPath_def block_path_def bind_def extcall_def ret_def same_node_def split: option.split)
qed

lemma mount_of_fields_world:
  assumes "links_read sys view" and "well_formed k" and "nv_links (view (ext s)) = r"
  shows "\<exists>s'. mount_of_fields sys (kmount_fields k) s = (Ret (Inr (if visible r k then Some (mount_entry r k) else None)), s')
    \<and> same_node view s s'"
proof -
  define us where "us = [km_id k, km_parent k, km_dev k, km_root k, km_path k, Join (km_opts k) '',''] @ km_tags k"
  have f: "kmount_fields k = us @ ''-'' # [km_fstype k, km_source k, km_super k]"
    by (simp add: kmount_fields_def us_def)
  have "''-'' \<notin> set (drop 6 us)" using assms(2) by (simp add: us_def well_formed_def)
  then have sep: "sep_offset (kmount_fields k) = Some (length us)"
    unfolding f by (intro sep_offset_append) (simp_all add: us_def)
  have at: "kmount_fields k ! Suc (length us) = km_fstype k" "kmount_fields k ! Suc (Suc (length us)) = km_source k"
      "length (kmount_fields k) = length us + 4"
    by (simp_all add: f nth_append)
  have at2: "kmount_fields k ! 3 = km_root k" "kmount_fields k ! 4 = km_path k"
      "kmount_fields k ! 5 = Join (km_opts k) '',''"
    by (simp_all add: kmount_fields_def)
  have opts: "Split (Join (km_opts k) '','') CHR '','' = km_opts k"
    using assms(2) by (intro Split_Join) (auto simp: well_formed_def)
  obtain s1 where b: "getBlockPath sys (km_source k) s = (Ret (block_path r (km_source k)), s1)" "same_node view s s1"
    using getBlockPath_world [OF assms(1), of "km_source k" s] assms(3) by auto
  show ?thesis
    using b by (auto simp: mount_of_fields_def sep at at2 opts bind_def Let_def visible_def mount_entry_def ok_def ret_def)
qed

lemma parse_world:
  assumes "links_read sys view"
  shows "list_all well_formed t \<Longrightarrow> nv_links (view (ext s)) = r \<Longrightarrow>
    \<exists>s'. parse_mount_lines sys (map kmount_line t @ ['''']) acc s = (Ret (Inr (acc @ seen r t)), s') \<and> same_node view s s'"
proof (induction t arbitrary: s acc)
  case Nil
  show ?case by (simp add: seen_def ok_def ret_def same_node_refl)
next
  case (Cons k t)
  have k: "well_formed k" "list_all well_formed t" using Cons.prems(1) by simp_all
  obtain s1 where m: "mount_of_fields sys (kmount_fields k) s =
      (Ret (Inr (if visible r k then Some (mount_entry r k) else None)), s1)" "same_node view s s1"
    using mount_of_fields_world [OF assms k(1) Cons.prems(2)] by blast
  have "nv_links (view (ext s1)) = r" using m(2) Cons.prems(2) by (simp add: same_node_def)
  from Cons.IH [OF k(2) this, of "acc @ (if visible r k then [mount_entry r k] else [])"] obtain s2
    where p: "parse_mount_lines sys (map kmount_line t @ ['''']) (acc @ (if visible r k then [mount_entry r k] else [])) s1 =
      (Ret (Inr ((acc @ (if visible r k then [mount_entry r k] else [])) @ seen r t)), s2)" "same_node view s1 s2"
    by blast
  show ?case
    using same_node_trans [OF m(2) p(2)] p(1)
    by (auto simp: kmount_line_nonempty [OF k(1)] Fields_kmount_line [OF k(1)] tryE_def bind_def m(1) seen_def)
qed

lemma getMountAt_world:
  assumes w: "mount_reads sys view" and p: "\<not> proxied s"
  shows "\<exists>s'. getMountAt sys path s =
      (Ret (Inr (seen_at (nv_links (view (ext s))) (nv_mounts (view (ext s))) path)), s') \<and> same_node view s s'"
proof -
  define t r where "t = nv_mounts (view (ext s))" and "r = nv_links (view (ext s))"
  have wf: "list_all well_formed t" using w by (simp add: mount_reads_def t_def)
  obtain w1 where f: "sys_readfile sys ''/proc/self/mountinfo'' (ext s) = (Inr (mountinfo_text t), w1)"
    using w unfolding mount_reads_def t_def by (metis prod.collapse)
  then have v1: "view w1 = view (ext s)" using w unfolding mount_reads_def still_def by (metis snd_conv)
  define s1 where "s1 = s\<lparr>ext := w1, trace := trace s @ [Os ''readfile'' [''/proc/self/mountinfo'']]\<rparr>"
  have s1: "same_node view s s1" "nv_links (view (ext s1)) = r" using v1 by (simp_all add: s1_def same_node_def r_def)
  obtain s2 where l: "parse_mount_lines sys (map kmount_line t @ ['''']) [] s1 = (Ret (Inr (seen r t)), s2)" "same_node view s1 s2"
    using parse_world [OF mount_reads_links [OF w] wf s1(2), of "[]"] by auto
  have "listMounts sys s = (Ret (Inr (seen r t)), s2)"
    using p f l(1) by (simp add: listMounts_def bind_Ret [OF ProxyMode_proxied] tryE_def bind_def extcall_def
        parseMountinfo_def mountinfo_lines [OF wf] s1_def)
  then have "getMountAt sys path s = (Ret (Inr (seen_at r t path)), s2)"
    by (simp add: getMountAt_def getMountsAt_def tryE_Inr ok_def ret_def first_seen
        tryE_def bind_def)
  with same_node_trans [OF s1(1) l(2)] show ?thesis by (auto simp: t_def r_def)
qed

section \<open>What else the handlers call\<close>

text \<open>What the handlers call beside LVM, \<open>mount\<close> and \<open>umount\<close> leaves a view alone; for the mount
  table \<open>lvchange\<close> does, too.\<close>

definition node_still :: "'w sys \<Rightarrow> ('w \<Rightarrow> 'v) \<Rightarrow> bool" where
  "node_still sys mv \<longleftrightarrow>
     others_still sys mv \<and>
     (\<forall>cmd args. cmd \<in> {''iscsiadm'', ''lsscsi''} \<longrightarrow> tool_effect sys mv cmd args (\<lambda>_ v v'. v' = v)) \<and>
     (\<forall>cmd args. cmd \<in> {''dd'', ''mkfs'', ''chmod''} \<longrightarrow> still mv (sys_combined sys cmd args)) \<and>
     (\<forall>c a. still mv (sys_VgChange sys c a)) \<and> (\<forall>c a. still mv (sys_LvQoS sys c a)) \<and>
     (\<forall>p. still mv (sys_create sys p) \<and> still mv (sys_mkdir sys p) \<and> still mv (sys_stat sys p) \<and>
        still mv (sys_evalsymlinks sys p) \<and> still mv (sys_readfile sys p) \<and> (\<forall>g. still mv (sys_chown sys p g)) \<and>
        still mv (\<lambda>w. ((), sys_removeall sys p w)))"

definition mounts_still :: "'w sys \<Rightarrow> ('w \<Rightarrow> 'v) \<Rightarrow> bool" where
  "mounts_still sys mv \<longleftrightarrow>
     node_still sys mv \<and> (\<forall>args. tool_effect sys mv ''lvchange'' args (\<lambda>_ v v'. v' = v))"

lemma node_stillD:
  assumes "node_still sys mv"
  shows "others_still sys mv" "still mv (sys_dial sys url)"
    "tool_effect sys mv ''iscsiadm'' args (\<lambda>_ v v'. v' = v)"
    "tool_effect sys mv ''lsscsi'' args (\<lambda>_ v v'. v' = v)"
    "still mv (sys_combined sys ''dd'' args)" "still mv (sys_combined sys ''mkfs'' args)"
    "still mv (sys_combined sys ''chmod'' args)" "still mv (sys_VgChange sys c a)" "still mv (sys_LvQoS sys c (x, y, z))"
    "still mv (sys_create sys p)" "still mv (sys_mkdir sys p)" "still mv (sys_stat sys p)"
    "still mv (sys_evalsymlinks sys p)" "still mv (sys_readfile sys p)" "still mv (sys_chown sys p g)"
    "still mv (\<lambda>w. ((), sys_removeall sys p w))"
    "still mv (sys_combined sys ''file'' [''-bsL'', p])"
    "still mv (sys_combined sys ''blkid'' [''-c'', ''/dev/null'', ''-o'', ''export'', p])"
  using assms by (simp_all add: node_still_def others_still_def)

lemma mounts_node_still: "mounts_still sys mv \<Longrightarrow> node_still sys mv"
  by (simp add: mounts_still_def)

lemmas mounts_stillD = node_stillD [OF mounts_node_still]

lemma tool_agent_still:
  "tool_effect sys view cmd args (\<lambda>_ v v'. v' = v) \<Longrightarrow> still view (sys_MercuryProxy sys c cmd args)"
  unfolding tool_effect_def still_def by (auto split: prod.splits) (metis prod.collapse)

lemma keeps_ProxyStoLakeRun:
  assumes "node_still sys mv" and "tool_effect sys mv cmd args (\<lambda>_ v v'. v' = v)"
  shows "keeps mv (ProxyStoLakeRun sys cmd args)"
  unfolding ProxyStoLakeRun_def by (intro keeps_intros node_stillD [OF assms(1)] tool_agent_still [OF assms(2)])

lemma keeps_node_helpers:
  assumes "node_still sys mv"
  shows "keeps mv (LoginIscsiTarget sys iqn portal)" "keeps mv (LogoutIscsiTarget sys iqn portal)"
    "keeps mv (VgActivate sys vg)" "keeps mv (SetQos sys vg nm iops mbps)"
    "keeps mv (determineLocalFilesystemType sys p)" "keeps mv (formatDevice sys p fstype)"
    "keeps mv (readInitiatorName sys)"
  unfolding LoginIscsiTarget_def LsSscsiTransports_def LogoutIscsiTarget_def VgActivate_def
    SetQos_def determineLocalFilesystemType_def formatDevice_def exec_combined_def readInitiatorName_def Let_def
  by (intro keeps_intros keeps_ProxyStoLakeRun node_stillD [OF assms] assms; simp)+

lemma keeps_login_targets:
  assumes "node_still sys mv"
  shows "keeps mv (login_targets sys ts)"
proof (induction ts)
  case Nil
  show ?case unfolding login_targets.simps by (intro keeps_intros)
next
  case (Cons t ts)
  show ?case
    by (cases "Split t CHR ''#''" rule: target_of_entry.cases)
       (simp_all add: Cons keeps_intros keeps_node_helpers [OF assms])
qed

lemma keeps_node_parts:
  assumes "node_still sys mv"
  shows "keeps mv (publish_source sys srv request)"
    "keeps mv (ensure_target_dir sys p)" "keeps mv (ensure_filesystem sys src fstype)"
    "keeps mv (set_mount_group sys p grp)" "keeps mv (open_to_all sys p allusers)"
    "keeps mv (iscsi_logout sys bp)" "keeps mv (NodeGetInfo sys srv)"
proof -
  note k = keeps_node_helpers [OF assms] keeps_login_targets [OF assms] node_stillD [OF assms]
  have l: "keeps mv (local_source sys srv vid)" for vid
    unfolding local_source_def by (intro keeps_intros k)
  have j: "keeps mv (connect_jbof sys srv pc)" for pc
    unfolding connect_jbof_def by (intro keeps_intros k)
  have i: "keeps mv (iscsi_source sys pc)" for pc
    unfolding iscsi_source_def by (intro keeps_intros k)
  show "keeps mv (publish_source sys srv request)"
    unfolding publish_source_def by (intro keeps_intros l j i)
  show "keeps mv (ensure_target_dir sys p)"
    unfolding ensure_target_dir_def by (intro keeps_intros k)
  show "keeps mv (ensure_filesystem sys src fstype)"
    unfolding ensure_filesystem_def by (intro keeps_intros k)
  show "keeps mv (set_mount_group sys p grp)" "keeps mv (open_to_all sys p allusers)"
    unfolding set_mount_group_def open_to_all_def exec_combined_def by (intro keeps_intros k)+
  show "keeps mv (iscsi_logout sys bp)"
    unfolding iscsi_logout_def by (intro keeps_intros k)
  show "keeps mv (NodeGetInfo sys srv)"
    unfolding NodeGetInfo_def by (intro keeps_intros k)
qed

lemma keeps_set_qos_tag:
  assumes "mounts_still sys mv"
  shows "keeps mv (set_qos_tag sys srv vid pubcontext)"
proof -
  have "keeps mv (AddTag sys lv tag)" for lv tag
    using assms unfolding AddTag_def with_lv_path_def run_nil_def
    by (intro keeps_intros keeps_run_raw_tool mounts_stillD [OF assms]) (simp add: mounts_still_def)
  then show ?thesis
    unfolding set_qos_tag_def by (intro keeps_intros mounts_stillD [OF assms])
qed

text \<open>No handler changes the address of the agent.\<close>

lemma keeps_agent_lvm:
  "keeps_agent (run_raw sys cmd args)" "keeps_agent (run_nil sys cmd args)" "keeps_agent (ProxyStoLakeRun sys cmd args)"
  "keeps_agent (LookupLogicalVolume sys vg nm)" "keeps_agent (Path_lv sys lv)" "keeps_agent (AddTag sys lv tag)"
  "keeps_agent (Activate_lv sys lv)" "keeps_agent (Deactivate_lv sys lv)"
  unfolding run_raw_def run_nil_def run_def ProxyStoLakeRun_def LookupLogicalVolume_def FindLogicalVolume_def
    RefreshMetaData_def PVScan_def VGScan_def Path_lv_def query_def with_lv_path_def AddTag_def Activate_lv_def
    Deactivate_lv_def
  by (intro keeps_intros)+

lemma keeps_agent_parse: "keeps_agent (parse_mount_lines sys ls acc)"
proof (induction ls arbitrary: acc)
  case Nil
  show ?case unfolding parse_mount_lines.simps by (intro keeps_intros)
next
  case (Cons l ls)
  show ?case
    unfolding parse_mount_lines.simps mount_of_fields_def getBlockPath_def by (intro keeps_intros Cons)
qed

lemma keeps_agent_getMountAt: "keeps_agent (getMountAt sys p)"
  unfolding getMountAt_def getMountsAt_def listMounts_def parseMountinfo_def MountInfo_def
  by (intro keeps_intros keeps_agent_parse)

lemma keeps_agent_login_targets: "keeps_agent (login_targets sys ts)"
proof (induction ts)
  case Nil
  show ?case unfolding login_targets.simps by (intro keeps_intros)
next
  case (Cons t ts)
  show ?case
    unfolding login_targets.simps LoginIscsiTarget_def LsSscsiTransports_def Let_def
    by (intro keeps_intros keeps_agent_lvm Cons)
qed

lemma steady_access [keeps_intros]:
  "(\<And>b. steady f (h b)) \<Longrightarrow> (\<And>mnt. steady f (k mnt)) \<Longrightarrow>
     steady f (case a of AccessBlock b \<Rightarrow> h b | AccessMount mnt \<Rightarrow> k mnt)"
  by (cases a) auto

lemma keeps_agent_publish: "keeps_agent (NodePublishVolume sys srv request)"
  unfolding NodePublishVolume_def publish_source_def connect_jbof_def local_source_def iscsi_source_def VgActivate_def
    LoginIscsiTarget_def LsSscsiTransports_def publish_at_def nodePublishVolume_Block_def nodePublishVolume_Mount_def
    proxy_mount_def MountVolume_def mount_device_def ensure_target_dir_def ensure_filesystem_def
    determineLocalFilesystemType_def formatDevice_def exec_combined_def set_mount_group_def open_to_all_def
    set_qos_tag_def Let_def
  by (intro keeps_intros keeps_agent_lvm keeps_agent_getMountAt keeps_agent_login_targets)

lemma keeps_agent_unpublish: "keeps_agent (NodeUnpublishVolume sys srv request)"
  unfolding NodeUnpublishVolume_def unpublish_iscsi_def iscsi_logout_def LogoutIscsiTarget_def agent_unmount_def
    UnMountVolume_def unpublish_sas_def SetQos_def unpublish_other_def local_unmount_def Let_def
  by (intro keeps_intros keeps_agent_lvm keeps_agent_getMountAt)

section \<open>What mount and umount do\<close>

text \<open>A path is \<open>real\<close> when the kernel shows it as it was given: absolute, without links, and free
  of the characters it escapes.\<close>

definition new_mount :: "(string \<Rightarrow> bool) \<Rightarrow> string \<Rightarrow> string \<Rightarrow> string \<Rightarrow> nat \<Rightarrow> kmount \<Rightarrow> bool" where
  "new_mount real source target fstype flags k \<longleftrightarrow>
     (real target \<longrightarrow> km_path k = target) \<and>
     (flags \<noteq> MS_BIND \<longrightarrow>
        km_source k = source \<and> km_fstype k = fstype \<and> (''ro'' \<in> set (km_opts k) \<longleftrightarrow> flags = MS_RDONLY))"

text \<open>The newest mount at the path is taken off.\<close>

definition taken_off :: "(string \<Rightarrow> bool) \<Rightarrow> string \<Rightarrow> kmount list \<Rightarrow> kmount list \<Rightarrow> bool" where
  "taken_off real p v v' \<longleftrightarrow>
     (\<exists>xs k ys. v = xs @ k # ys \<and> v' = xs @ ys \<and> (real p \<longrightarrow> km_path k = p \<and> (\<forall>j\<in>set ys. km_path j \<noteq> p)))"

definition unmounted :: "(string \<Rightarrow> bool) \<Rightarrow> string \<Rightarrow> bool \<Rightarrow> kmount list \<Rightarrow> kmount list \<Rightarrow> bool" where
  "unmounted real p success v v' \<longleftrightarrow>
     taken_off real p v v' \<or> v' = v \<and> (success \<and> real p \<longrightarrow> (\<forall>k\<in>set v. km_path k \<noteq> p))"

text \<open>What a mount leaves: a new mount, or an error and nothing.\<close>

definition mounts_or_fails ::
  "(string \<Rightarrow> bool) \<Rightarrow> string \<Rightarrow> string \<Rightarrow> string \<Rightarrow> nat \<Rightarrow> bool \<Rightarrow> kmount list \<Rightarrow> kmount list \<Rightarrow> bool" where
  "mounts_or_fails real source target fstype flags success v v' \<longleftrightarrow>
     (\<exists>k. v' = v @ [k] \<and> new_mount real source target fstype flags k) \<or> \<not> success \<and> v' = v"

definition kernel_mounts :: "'w sys \<Rightarrow> (string \<Rightarrow> bool) \<Rightarrow> ('w \<Rightarrow> node_view) \<Rightarrow> bool" where
  "kernel_mounts sys real view \<longleftrightarrow>
     (\<forall>source target fstype flags opts w err w'. sys_mount sys source target fstype flags opts w = (err, w') \<longrightarrow>
        mounts_or_fails real source target fstype flags (err = None) (nv_mounts (view w)) (nv_mounts (view w'))) \<and>
     (\<forall>p w err w'. sys_unmount sys p 0 w = (err, w') \<longrightarrow>
        taken_off real p (nv_mounts (view w)) (nv_mounts (view w')) \<or>
        err \<noteq> None \<and> nv_mounts (view w') = nv_mounts (view w)) \<and>
     (\<forall>c p w err w'. sys_UnMountVolume sys c p w = (err, w') \<longrightarrow>
        unmounted real p (err = None) (nv_mounts (view w)) (nv_mounts (view w')))"

definition mount_world :: "'w sys \<Rightarrow> (string \<Rightarrow> bool) \<Rightarrow> ('w \<Rightarrow> node_view) \<Rightarrow> bool" where
  "mount_world sys real view \<longleftrightarrow>
     mount_reads sys view \<and> mounts_still sys (\<lambda>w. nv_mounts (view w)) \<and> kernel_mounts sys real view"

abbreviation mnts :: "('w \<Rightarrow> node_view) \<Rightarrow> 'w gs \<Rightarrow> kmount list" where
  "mnts view s \<equiv> nv_mounts (view (ext s))"

abbreviation found :: "('w \<Rightarrow> node_view) \<Rightarrow> 'w gs \<Rightarrow> string \<Rightarrow> mountpoint option" where
  "found view s p \<equiv> seen_at (nv_links (view (ext s))) (mnts view s) p"

lemma bind_extcall:
  assumes "bind (extcall c f) g s = (r, s')"
  obtains x w where "f (ext s) = (x, w)" "g x (s\<lparr>ext := w, trace := trace s @ [c]\<rparr>) = (r, s')"
  using assms by (cases "f (ext s)") (simp add: bind_def extcall_def)

section \<open>The effect of the handlers\<close>

lemma sys_mount_effect:
  assumes "mount_world sys real view" and "sys_mount sys source target fstype flags opts w = (err, w')"
  shows "mounts_or_fails real source target fstype flags (err = None) (nv_mounts (view w)) (nv_mounts (view w'))"
  using assms unfolding mount_world_def kernel_mounts_def by blast

lemma block_effect:
  assumes w: "mount_world sys real view" and p: "\<not> proxied s"
    and c: "nodePublishVolume_Block sys source target readonly s = (r, s')"
  shows "case found view s target of
      Some mp \<Rightarrow> mnts view s' = mnts view s
    | None \<Rightarrow> mounts_or_fails real source target '''' MS_BIND (r = Ret (Inr ())) (mnts view s) (mnts view s')"
proof -
  note still = mounts_stillD [OF conjunct1 [OF conjunct2 [OF w [unfolded mount_world_def]]]]
  obtain s1 where g: "getMountAt sys target s = (Ret (Inr (found view s target)), s1)" "same_node view s s1"
    using getMountAt_world [OF _ p] w unfolding mount_world_def by blast
  have v1: "mnts view s1 = mnts view s" using g(2) by (simp add: same_node_def)
  note c = c [unfolded nodePublishVolume_Block_def tryR_def tryE_Inr [where m = "getMountAt sys target" and s = s, OF g(1)]]
  show ?thesis
  proof (cases "found view s target")
    case (Some mp)
    have "keeps (\<lambda>w. nv_mounts (view w))
        (tryR (extcall (Os ''evalsymlinks'' [source]) (sys_evalsymlinks sys source))
           (wrap Internal (''Failed to follow symlinks at '' @ source @ '': err='')) (\<lambda>sourceDevicePath.
           if ''/dev'' @ mp_root mp \<noteq> sourceDevicePath then fail ErrTargetPathNotEmpty else ok ()))"
      by (intro keeps_intros still)
    from steadyD [OF this [unfolded tryR_def]] show ?thesis using c Some v1 by simp
  next
    case None
    from c [unfolded None option.case] obtain cerr w1 where
      cr: "sys_create sys target (ext s1) = (cerr, w1)" and
      c2: "(case cerr of
          Some e \<Rightarrow> fail (wrap Internal (''Cannot create mount target '' @ target @ '': err='') e)
        | None \<Rightarrow> bind (extcall (Os ''mount'' [source, target, '''']) (sys_mount sys source target '''' MS_BIND ''''))
            (\<lambda>err. case err of
              Some e \<Rightarrow> fail (syscall_error ''Failed to perform bind mount: err='' ''Failed to perform bind mount: err='' e)
            | None \<Rightarrow> ok ())) (s1\<lparr>ext := w1, trace := trace s1 @ [Os ''create'' [target]]\<rparr>) = (r, s')"
      by (rule bind_extcall)
    have v2: "nv_mounts (view w1) = mnts view s"
      using still(10) [of target] cr v1 unfolding still_def by (metis snd_conv)
    show ?thesis
    proof (cases cerr)
      case (Some e)
      then show ?thesis using c2 v2 None by (auto simp: fail_def ret_def mounts_or_fails_def)
    next
      case None
      with c2 obtain merr w2 where
        "sys_mount sys source target '''' MS_BIND '''' w1 = (merr, w2)"
        "(case merr of
              Some e \<Rightarrow> fail (syscall_error ''Failed to perform bind mount: err='' ''Failed to perform bind mount: err='' e)
            | None \<Rightarrow> ok ()) (s1\<lparr>ext := w2, trace := trace s1 @ [Os ''create'' [target], Os ''mount'' [source, target, '''']]\<rparr>) = (r, s')"
        by (auto elim!: bind_extcall)
      with sys_mount_effect [OF w this(1)] \<open>found view s target = None\<close> v2 show ?thesis
        by (auto simp: fail_def ok_def ret_def mounts_or_fails_def split: option.splits)
    qed
  qed
qed

lemma mount_world_still: "mount_world sys real view \<Longrightarrow> mounts_still sys (\<lambda>w. nv_mounts (view w))"
  by (simp add: mount_world_def)

lemma not_success: "fail e s = (r, s') \<Longrightarrow> r \<noteq> Ret (Inr ())"
  by (auto simp: fail_def ret_def)

lemma mount_device_effect:
  assumes w: "mount_world sys real view"
    and c: "mount_device sys source target readonly fstype opts grp allusers s = (r, s')"
  shows "mounts_or_fails real source target fstype (if readonly then MS_RDONLY else 0) (r = Ret (Inr ()))
    (mnts view s) (mnts view s')"
proof -
  define flags where "flags = (if readonly then MS_RDONLY else 0)"
  note k = keeps_node_parts [OF mounts_node_still [OF mount_world_still [OF w]]]
  have same: ?thesis if "mnts view s' = mnts view s" "r \<noteq> Ret (Inr ())"
    using that by (simp add: mounts_or_fails_def)
  from c [unfolded mount_device_def Let_def] show ?thesis
  proof (cases rule: tryE_cases)
    case (Inl e s1)
    from Inl(2) steadyD [OF k(2) Inl(1)] show ?thesis by (intro same) (auto simp: fail_def ret_def)
  next
    case (Panic msg)
    from Panic(2) steadyD [OF k(2) Panic(1)] show ?thesis by (intro same) auto
  next
    case (Inr u s1)
    note v1 = steadyD [OF k(2) Inr(1)]
    from Inr(2) show ?thesis
    proof (cases rule: tryE_cases)
      case (Inl e s2)
      from Inl(2) steadyD [OF k(3) Inl(1)] v1 show ?thesis by (intro same) (auto simp: fail_def ret_def)
    next
      case (Panic msg)
      from Panic(2) steadyD [OF k(3) Panic(1)] v1 show ?thesis by (intro same) auto
    next
      case (Inr existing s2)
      note v2 = steadyD [OF k(3) Inr(1)]
      show ?thesis
      proof (cases "fstype = existing")
        case False
        with Inr(2) v1 v2 show ?thesis by (intro same) (auto simp: fail_def ret_def)
      next
        case True
        define rest where "rest = bind (set_mount_group sys target grp) (\<lambda>_.
          bind (open_to_all sys target allusers) (\<lambda>_. ok () :: ('a, unit) rpc))"
        have "bind (extcall (Os ''mount'' [source, target, fstype])
            (sys_mount sys source target fstype flags opts)) (\<lambda>err. case err of
              Some e \<Rightarrow> fail (syscall_error ''Failed to perform mount: err='' ''Failed to perform mount: err='' e)
            | None \<Rightarrow> rest) s2 = (r, s')"
          unfolding rest_def using Inr(2) [folded flags_def] True by (simp only: simp_thms if_False)
        then obtain merr w3 where
          m: "sys_mount sys source target fstype flags opts (ext s2) = (merr, w3)" and
          m2: "(case merr of
              Some e \<Rightarrow> fail (syscall_error ''Failed to perform mount: err='' ''Failed to perform mount: err='' e)
            | None \<Rightarrow> rest) (s2\<lparr>ext := w3, trace := trace s2 @ [Os ''mount'' [source, target, fstype]]\<rparr>) = (r, s')"
          by (rule bind_extcall)
        have "keeps (\<lambda>w. nv_mounts (view w)) rest" unfolding rest_def by (intro keeps_intros k)
        then have "mnts view s' = nv_mounts (view w3) \<and> (merr \<noteq> None \<longrightarrow> r \<noteq> Ret (Inr ()))"
          using m2 by (cases merr) (auto simp: fail_def ret_def dest: steadyD)
        with sys_mount_effect [OF w m] v1 v2 show ?thesis
          by (auto simp: flags_def mounts_or_fails_def)
      qed
    qed
  qed
qed

lemma mount_effect:
  assumes w: "mount_world sys real view" and p: "\<not> proxied s"
    and c: "nodePublishVolume_Mount sys srv source target readonly fstype0 options grp allusers s = (r, s')"
    and f: "fstype = (if fstype0 = '''' then nval (Some (srv_supportedFilesystems srv)) '''' else fstype0)"
  shows "case found view s target of
      Some mp \<Rightarrow> same_node view s s' \<and> r = Ret (case check_existing_mount mp source fstype readonly of
        None \<Rightarrow> Inr () | Some e \<Rightarrow> Inl e)
    | None \<Rightarrow> mounts_or_fails real source target fstype (if readonly then MS_RDONLY else 0) (r = Ret (Inr ()))
        (mnts view s) (mnts view s')"
proof -
  obtain s1 where g: "getMountAt sys target s = (Ret (Inr (found view s target)), s1)" "same_node view s s1"
    using getMountAt_world [OF _ p] w unfolding mount_world_def by blast
  have v1: "mnts view s1 = mnts view s" using g(2) by (simp add: same_node_def)
  have c1: "(case found view s target of
        Some mp \<Rightarrow> (case check_existing_mount mp source fstype readonly of Some e \<Rightarrow> fail e | None \<Rightarrow> ok ())
      | None \<Rightarrow> mount_device sys source target readonly fstype (Join options '','') grp allusers) s1 = (r, s')"
    unfolding f using c p by (simp add: nodePublishVolume_Mount_def bind_Ret [OF ProxyMode_proxied] tryR_def Let_def
        tryE_Inr [where m = "getMountAt sys target" and s = s, OF g(1)])
  show ?thesis
  proof (cases "found view s target")
    case None
    with c1 mount_device_effect [OF w] v1 show ?thesis by fastforce
  next
    case (Some mp)
    with c1 g(2) show ?thesis by (auto simp: ok_def fail_def ret_def split: option.splits)
  qed
qed

text \<open>The effect of a publication, whatever the data path and the kind of access: one mount more, where
  none with a source \<open>/dev/sbvg_...\<close> is at the target.\<close>

definition publishes :: "(string \<Rightarrow> bool) \<Rightarrow> string \<Rightarrow> kmount list \<Rightarrow> kmount list \<Rightarrow> bool" where
  "publishes real target v v' \<longleftrightarrow>
     (\<forall>k\<in>set v. lvm_mount k \<longrightarrow> km_path k \<noteq> target) \<and> (\<exists>k. v' = v @ [k] \<and> (real target \<longrightarrow> km_path k = target))"

lemma found_None: "found view s target = None \<Longrightarrow> \<forall>k\<in>set (mnts view s). lvm_mount k \<longrightarrow> km_path k \<noteq> target"
  using lvm_mount_visible by (auto simp: seen_at_def find_None_iff)

lemma mounts_publishes:
  assumes "mounts_or_fails real source target fstype flags b (mnts view s) v'" and "found view s target = None"
  shows "publishes real target (mnts view s) v' \<or> v' = mnts view s"
  using assms(1) found_None [where view = view and s = s and target = target, OF assms(2)] by (auto simp: mounts_or_fails_def publishes_def new_mount_def)

lemma proxied_agent: "StolakeURL s' = StolakeURL s \<Longrightarrow> proxied s' = proxied s"
  by (simp add: proxied_def)

lemma publish_at_effect:
  assumes w: "mount_world sys real view" and p: "\<not> proxied s"
    and c: "publish_at sys srv request source s = (r, s')"
  shows "publishes real (np_target_path request) (mnts view s) (mnts view s') \<or> mnts view s' = mnts view s"
proof -
  define readonly where "readonly = ((case np_volume_capability request of None \<Rightarrow> False
     | Some c \<Rightarrow> GetMode c = SINGLE_NODE_READER_ONLY) \<or> np_readonly request)"
  define mnt where "mnt = (case np_volume_capability request of None \<Rightarrow> None | Some c \<Rightarrow> GetMount c)"
  define allusers where "allusers =
    (case nget (np_publish_context request) ''allusers'' of None \<Rightarrow> False | Some v \<Rightarrow> ToLower v = ''true'')"
  note q = keeps_set_qos_tag [OF mount_world_still [OF w], of srv "np_volume_id request" "np_publish_context request"]
  have then_qos: ?thesis
    if m: "tryE m fail (\<lambda>_. set_qos_tag sys srv (np_volume_id request) (np_publish_context request)) s = (r, s')"
      and e: "\<And>r1 s1. m s = (r1, s1) \<Longrightarrow>
        publishes real (np_target_path request) (mnts view s) (mnts view s1) \<or> mnts view s1 = mnts view s"
    for m :: "('a, unit) rpc"
    using m
  proof (cases rule: tryE_cases)
    case (Inr u s1)
    from e [OF Inr(1)] steadyD [OF q Inr(2)] show ?thesis by simp
  next
    case (Inl x s1)
    from e [OF Inl(1)] Inl(2) show ?thesis by (simp add: fail_def ret_def)
  next
    case (Panic msg)
    from e [OF Panic(1)] show ?thesis .
  qed
  have block: "publishes real (np_target_path request) (mnts view s) (mnts view s1) \<or> mnts view s1 = mnts view s"
    if "nodePublishVolume_Block sys source (np_target_path request) readonly s = (r1, s1)" for r1 s1
    using block_effect [OF w p that] mounts_publishes by (fastforce split: option.splits)
  have mount: "publishes real (np_target_path request) (mnts view s) (mnts view s1) \<or> mnts view s1 = mnts view s"
    if "nodePublishVolume_Mount sys srv source (np_target_path request) readonly f opts grp allusers s = (r1, s1)"
    for r1 s1 f opts grp
    using mount_effect [OF w p that refl] mounts_publishes by (fastforce simp: same_node_def split: option.splits)
  show ?thesis
  proof (cases "case np_volume_capability request of None \<Rightarrow> None | Some c \<Rightarrow> access_type c")
    case None
    with c p show ?thesis
      by (simp add: publish_at_def Let_def bind_Ret [OF ProxyMode_proxied] panic_def)
  next
    case (Some a)
    show ?thesis
    proof (cases a)
      case (AccessBlock b)
      show ?thesis
        by (rule then_qos [OF _ block])
           (use c p Some AccessBlock in \<open>simp_all add: publish_at_def Let_def bind_Ret [OF ProxyMode_proxied] readonly_def\<close>)
    next
      case (AccessMount m)
      show ?thesis
        by (rule then_qos [OF _ mount])
           (use c p Some AccessMount in \<open>simp_all add: publish_at_def Let_def bind_Ret [OF ProxyMode_proxied] readonly_def allusers_def\<close>)
    qed
  qed
qed

lemma keeps_agent_publish_source: "keeps_agent (publish_source sys srv request)"
  unfolding publish_source_def connect_jbof_def local_source_def iscsi_source_def VgActivate_def
    LoginIscsiTarget_def LsSscsiTransports_def Let_def
  by (intro keeps_intros keeps_agent_lvm keeps_agent_login_targets)

lemma NodePublishVolume_effect:
  assumes w: "mount_world sys real view" and p: "\<not> proxied s"
    and c: "NodePublishVolume sys srv request s = (r, s')"
  shows "publishes real (np_target_path request) (mnts view s) (mnts view s') \<or> mnts view s' = mnts view s"
proof -
  note k = keeps_node_parts(1) [OF mounts_node_still [OF mount_world_still [OF w]]]
  from c [unfolded NodePublishVolume_def] show ?thesis
  proof (cases rule: tryE_cases)
    case (Inr source s1)
    have "\<not> proxied s1" using p proxied_agent [OF steadyD [OF keeps_agent_publish_source Inr(1)]] by simp
    from publish_at_effect [OF w this Inr(2)] steadyD [OF k Inr(1)] show ?thesis by simp
  next
    case (Inl e s1)
    from steadyD [OF k Inl(1)] Inl(2) show ?thesis by (simp add: fail_def ret_def)
  next
    case (Panic msg)
    from steadyD [OF k Panic(1)] show ?thesis by simp
  qed
qed

lemma unmounted_refl: "unmounted real p False v v"
  by (simp add: unmounted_def)

lemma unmounted_weaken: "unmounted real p b v v' \<Longrightarrow> (c \<Longrightarrow> b) \<Longrightarrow> unmounted real p c v v'"
  by (auto simp: unmounted_def)

text \<open>What the unmounting relies on. A successful \<open>umount\<close> of the plugin itself only takes off a mount of
  this table if both are on one node: \<open>strict\<close>.\<close>

definition unmount_world :: "bool \<Rightarrow> 'w sys \<Rightarrow> (string \<Rightarrow> bool) \<Rightarrow> ('w \<Rightarrow> node_view) \<Rightarrow> bool" where
  "unmount_world strict sys real view \<longleftrightarrow>
     mounts_still sys (\<lambda>w. nv_mounts (view w)) \<and>
     (\<forall>p w err w'. sys_unmount sys p 0 w = (err, w') \<longrightarrow>
        unmounted real p (strict \<and> err = None) (nv_mounts (view w)) (nv_mounts (view w'))) \<and>
     (\<forall>c p w err w'. sys_UnMountVolume sys c p w = (err, w') \<longrightarrow>
        unmounted real p (err = None) (nv_mounts (view w)) (nv_mounts (view w')))"

lemma unmount_world_still: "unmount_world strict sys real view \<Longrightarrow> mounts_still sys (\<lambda>w. nv_mounts (view w))"
  by (simp add: unmount_world_def)

lemma mount_world_unmount: "mount_world sys real view \<Longrightarrow> unmount_world True sys real view"
  unfolding mount_world_def kernel_mounts_def unmount_world_def unmounted_def by (intro conjI) (blast | meson)+

lemma UnMountVolume_effect:
  assumes w: "unmount_world strict sys real view" and c: "UnMountVolume sys p vid s = (r, s')"
  shows "\<exists>err. r = Ret err \<and> unmounted real p (err = None) (mnts view s) (mnts view s')"
proof -
  define url where "url = ''unix://'' @ StolakeURL s"
  obtain derr w1 where d: "sys_dial sys url (ext s) = (derr, w1)" by (cases "sys_dial sys url (ext s)")
  have v1: "nv_mounts (view w1) = mnts view s"
    using mounts_stillD(2) [OF unmount_world_still [OF w], of url] d unfolding still_def by (metis snd_conv)
  obtain err w2 where u: "sys_UnMountVolume sys url p w1 = (err, w2)" by (cases "sys_UnMountVolume sys url p w1")
  have e: "unmounted real p (err = None) (nv_mounts (view w1)) (nv_mounts (view w2))"
    using w u unfolding unmount_world_def by blast
  show ?thesis
    using c d [unfolded url_def] u [unfolded url_def] e v1
    by (cases derr) (auto simp: UnMountVolume_def with_agent_def connect_def stolakeConnect_def tryE_def bind_def extcall_def
        get_state_def disconnect_def defer_do_def ok_def fail_def ret_def unmounted_refl)
qed

lemma agent_unmount_effect:
  assumes "unmount_world strict sys real view" and "agent_unmount sys p vid s = (r, s')"
  shows "unmounted real p (r = Ret (Inr ())) (mnts view s) (mnts view s')"
  using assms(2) unfolding agent_unmount_def
proof (cases rule: bind_cases)
  case (Ret err s1)
  then show ?thesis
    using UnMountVolume_effect [OF assms(1) Ret(1)] by (cases err) (auto simp: ok_def fail_def ret_def)
next
  case (Panic msg)
  then show ?thesis using UnMountVolume_effect [OF assms(1) Panic(1)] by simp
qed

lemma local_unmount_effect:
  assumes "unmount_world strict sys real view" and "local_unmount sys p other s = (r, s')"
  shows "unmounted real p (strict \<and> r = Ret (Inr ())) (mnts view s) (mnts view s')"
proof -
  obtain err w where u: "sys_unmount sys p 0 (ext s) = (err, w)" by (cases "sys_unmount sys p 0 (ext s)")
  then have "unmounted real p (strict \<and> err = None) (mnts view s) (nv_mounts (view w))"
    using assms(1) unfolding unmount_world_def by blast
  then show ?thesis
    using assms(2) u by (cases err) (auto simp: local_unmount_def bind_def extcall_def ok_def fail_def ret_def unmounted_def)
qed

text \<open>A step that leaves the table alone, before or after the unmounting.\<close>

lemma unmounted_then:
  assumes "tryE m fail k s = (r, s')" and "\<And>r1 s1. m s = (r1, s1) \<Longrightarrow>
      unmounted real p (c \<and> r1 = Ret (Inr ())) (mnts view s) (mnts view s1)"
    and "\<And>x :: unit. keeps (\<lambda>w. nv_mounts (view w)) (k x)"
  shows "unmounted real p (c \<and> r = Ret (Inr ())) (mnts view s) (mnts view s')"
  using assms(1)
proof (cases rule: tryE_cases)
  case (Inr u s1)
  with assms(2) [OF Inr(1)] steadyD [OF assms(3) Inr(2)] show ?thesis by (auto intro: unmounted_weaken)
next
  case (Inl e s1)
  with assms(2) [OF Inl(1)] show ?thesis by (auto simp: fail_def ret_def)
next
  case (Panic msg)
  with assms(2) [OF Panic(1)] show ?thesis by simp
qed

lemma local_unmount_then:
  assumes w: "unmount_world strict sys real view" and t: "tryE (local_unmount sys p other) fail k s = (r, s')"
    and k: "\<And>x. keeps (\<lambda>w. nv_mounts (view w)) (k x)"
  shows "unmounted real p (strict \<and> r = Ret (Inr ())) (mnts view s) (mnts view s')"
  using t
proof (rule unmounted_then)
  show "unmounted real p (strict \<and> r1 = Ret (Inr ())) (mnts view s) (mnts view s1)"
    if "local_unmount sys p other s = (r1, s1)" for r1 s1
    by (rule local_unmount_effect [OF w that])
qed (rule k)

lemma unmounted_after:
  assumes "bind m f s = (r, s')" and "keeps (\<lambda>w. nv_mounts (view w)) m"
    and "\<And>x s1. m s = (Ret x, s1) \<Longrightarrow> f x s1 = (r, s') \<Longrightarrow>
      unmounted real p (c \<and> r = Ret (Inr ())) (mnts view s1) (mnts view s')"
  shows "unmounted real p (c \<and> r = Ret (Inr ())) (mnts view s) (mnts view s')"
  using assms(1)
proof (cases rule: bind_cases)
  case (Ret x s1)
  from assms(3) [OF Ret] steadyD [OF assms(2) Ret(1)] show ?thesis by simp
next
  case (Panic msg)
  then show ?thesis using steadyD [OF assms(2) Panic(1)] by (simp add: unmounted_refl)
qed

lemma unpublish_sas_effect:
  assumes w: "unmount_world strict sys real view" and c: "unpublish_sas sys srv p vid s = (r, s')"
  shows "unmounted real p ((strict \<or> proxied s) \<and> r = Ret (Inr ())) (mnts view s) (mnts view s')"
proof -
  note k = mounts_stillD(1) [OF unmount_world_still [OF w]]
  show ?thesis
    using c unfolding unpublish_sas_def
  proof (rule unmounted_after)
    show "keeps (\<lambda>w. nv_mounts (view w)) (LookupLogicalVolume sys (srv_volumeGroup srv) vid)"
      by (rule keeps_lookup [OF k])
  next
    fix found' s1
    assume m1: "LookupLogicalVolume sys (srv_volumeGroup srv) vid s = (Ret found', s1)"
    assume f: "(case found' of Inl _ \<Rightarrow> panic nil_deref
       | Inr lv \<Rightarrow> deref (lvol_vg lv) (\<lambda>g. bind (SetQos sys (vgroup_name g) (lvol_name lv) ''0'' ''0'') (\<lambda>_.
           bind ProxyMode (\<lambda>proxy. if proxy then agent_unmount sys p vid
             else tryE (local_unmount sys p ''Failed to perform unmount: err='') fail (\<lambda>_.
               bind (Deactivate_lv sys lv) (\<lambda>_. ok ())))))) s1 = (r, s')"
    show "unmounted real p ((strict \<or> proxied s) \<and> r = Ret (Inr ())) (mnts view s1) (mnts view s')"
    proof (cases "\<exists>lv g. found' = Inr lv \<and> lvol_vg lv = Some g")
      case False
      with f show ?thesis by (cases found') (auto simp: deref_def panic_def unmounted_refl split: option.splits)
    next
      case True
      then obtain lv g where lv: "found' = Inr lv" "lvol_vg lv = Some g" by blast
      have b: "bind (SetQos sys (vgroup_name g) (lvol_name lv) ''0'' ''0'') (\<lambda>_.
           bind ProxyMode (\<lambda>proxy. if proxy then agent_unmount sys p vid
             else tryE (local_unmount sys p ''Failed to perform unmount: err='') fail (\<lambda>_.
               bind (Deactivate_lv sys lv) (\<lambda>_. ok ())))) s1 = (r, s')"
        using f lv by (simp add: deref_Some)
      show ?thesis
      proof (rule unmounted_after [OF b keeps_node_helpers(4) [OF mounts_node_still [OF unmount_world_still [OF w]]]])
        fix x s2
        assume m2: "SetQos sys (vgroup_name g) (lvol_name lv) ''0'' ''0'' s1 = (Ret x, s2)"
        have q: "keeps_agent (SetQos sys (vgroup_name g) (lvol_name lv) ''0'' ''0'')"
          unfolding SetQos_def Let_def by (intro keeps_intros)
        have p2: "proxied s2 = proxied s"
          using proxied_agent [OF steadyD [OF keeps_agent_lvm(4) m1]] proxied_agent [OF steadyD [OF q m2]] by blast
        assume "bind ProxyMode (\<lambda>proxy. if proxy then agent_unmount sys p vid
             else tryE (local_unmount sys p ''Failed to perform unmount: err='') fail (\<lambda>_.
               bind (Deactivate_lv sys lv) (\<lambda>_. ok ()))) s2 = (r, s')"
        then have *: "(if proxied s2 then agent_unmount sys p vid
             else tryE (local_unmount sys p ''Failed to perform unmount: err='') fail (\<lambda>_.
               bind (Deactivate_lv sys lv) (\<lambda>_. ok ()))) s2 = (r, s')"
          by (simp add: bind_Ret [OF ProxyMode_proxied])
        show "unmounted real p ((strict \<or> proxied s) \<and> r = Ret (Inr ())) (mnts view s2) (mnts view s')"
        proof (cases "proxied s2")
          case True
          then have a: "agent_unmount sys p vid s2 = (r, s')" using * by simp
          show ?thesis by (rule unmounted_weaken [OF agent_unmount_effect [OF w a]]) simp
        next
          case False
          then have t: "tryE (local_unmount sys p ''Failed to perform unmount: err='') fail
              (\<lambda>_. bind (Deactivate_lv sys lv) (\<lambda>_. ok ())) s2 = (r, s')" using * by simp
          have "unmounted real p (strict \<and> r = Ret (Inr ())) (mnts view s2) (mnts view s')"
            by (rule local_unmount_then [OF w t]) (intro keeps_intros k)
          with False p2 show ?thesis by (auto elim: unmounted_weaken)
        qed
      qed
    qed
  qed
qed

text \<open>What is done about a mount that was found, which depends on its data path.\<close>

definition unpublish_found :: "'w sys \<Rightarrow> Server \<Rightarrow> mountpoint \<Rightarrow> string \<Rightarrow> string \<Rightarrow> ('w, unit) rpc" where
  "unpublish_found sys srv mp target vid =
     (let dp = ToLower (mp_datapath mp) in
      if dp = ''iscsi'' then unpublish_iscsi sys mp target vid
      else if dp = ''nvme'' then agent_unmount sys target vid
      else if dp = ''qemu'' then agent_unmount sys target vid
      else if dp = ''sas'' then unpublish_sas sys srv target vid
      else unpublish_other sys target)"

lemma unpublish_found_effect:
  assumes w: "unmount_world strict sys real view" and c: "unpublish_found sys srv mp target vid s = (r, s')"
  shows "unmounted real target
    ((strict \<or> proxied s \<and> ToLower (mp_datapath mp) \<in> {''iscsi'', ''nvme'', ''qemu'', ''sas''}) \<and> r = Ret (Inr ()))
    (mnts view s) (mnts view s')"
proof -
  define dp where "dp = ToLower (mp_datapath mp)"
  note k = keeps_node_parts [OF mounts_node_still [OF unmount_world_still [OF w]]] mounts_stillD [OF unmount_world_still [OF w]]
  note c = c [unfolded unpublish_found_def Let_def, folded dp_def]
  consider "dp = ''iscsi''" | "dp = ''nvme'' \<or> dp = ''qemu''" | "dp = ''sas''"
    | "dp \<notin> {''iscsi'', ''nvme'', ''qemu'', ''sas''}" by blast
  then show ?thesis
  proof cases
    case 1
    from c have "bind (UnMountVolume sys target vid) (\<lambda>err. bind (iscsi_logout sys (mp_blockpath mp)) (\<lambda>_.
        case err of Some e \<Rightarrow> fail (Raw e) | None \<Rightarrow> ok ())) s = (r, s')"
      using 1 by (simp add: unpublish_iscsi_def)
    then show ?thesis
    proof (cases rule: bind_cases)
      case (Ret err s2)
      have "keeps (\<lambda>w. nv_mounts (view w)) (bind (iscsi_logout sys (mp_blockpath mp)) (\<lambda>_.
          case err of Some e \<Rightarrow> fail (Raw e) | None \<Rightarrow> (ok () :: ('a, unit) rpc)))"
        by (intro keeps_intros k)
      from steadyD [OF this Ret(2)] UnMountVolume_effect [OF w Ret(1)]
      have "unmounted real target (err = None) (mnts view s) (mnts view s')" by simp
      moreover have "err = None" if "r = Ret (Inr ())"
        using Ret(2) that by (cases err) (auto simp: fail_def ret_def elim!: bind_cases)
      ultimately show ?thesis by (auto elim: unmounted_weaken)
    next
      case (Panic msg)
      then show ?thesis using UnMountVolume_effect [OF w Panic(1)] by simp
    qed
  next
    case 2
    with c have "agent_unmount sys target vid s = (r, s')" by auto
    from agent_unmount_effect [OF w this] show ?thesis by (rule unmounted_weaken) simp
  next
    case 3
    with c have "unpublish_sas sys srv target vid s = (r, s')" by simp
    from unpublish_sas_effect [OF w this] show ?thesis by (rule unmounted_weaken) auto
  next
    case 4
    with c have t: "tryE (local_unmount sys target ''Failed to calling unmount: err='') fail
        (\<lambda>_. bind (extcall (Os ''removeall'' [target]) (\<lambda>w. ((), sys_removeall sys target w))) (\<lambda>_. ok ())) s = (r, s')"
      by (simp add: unpublish_other_def)
    have "unmounted real target (strict \<and> r = Ret (Inr ())) (mnts view s) (mnts view s')"
      by (rule local_unmount_then [OF w t]) (intro keeps_intros k)
    with 4 show ?thesis by (auto simp: dp_def elim: unmounted_weaken)
  qed
qed

lemma NodeUnpublishVolume_found:
  "getMountAt sys (nu_target_path request) s = (Ret (Inr found'), s1) \<Longrightarrow>
   NodeUnpublishVolume sys srv request s =
     (case found' of None \<Rightarrow> (Ret (Inr ()), s1)
      | Some mp \<Rightarrow> unpublish_found sys srv mp (nu_target_path request) (nu_volume_id request) s1)"
  by (simp add: NodeUnpublishVolume_def unpublish_found_def Let_def tryR_def tryE_Inr ok_def ret_def split: option.split)

lemma NodeUnpublishVolume_effect:
  assumes w: "mount_world sys real view" and p: "\<not> proxied s"
    and c: "NodeUnpublishVolume sys srv request s = (r, s')"
  shows "if found view s (nu_target_path request) = None then r = Ret (Inr ()) \<and> same_node view s s'
    else unmounted real (nu_target_path request) (r = Ret (Inr ())) (mnts view s) (mnts view s')"
proof -
  obtain s1 where g: "getMountAt sys (nu_target_path request) s = (Ret (Inr (found view s (nu_target_path request))), s1)"
      "same_node view s s1"
    using getMountAt_world [OF _ p] w unfolding mount_world_def by blast
  show ?thesis
  proof (cases "found view s (nu_target_path request)")
    case None
    with c NodeUnpublishVolume_found [OF g(1)] g(2) show ?thesis by simp
  next
    case (Some mp)
    with c NodeUnpublishVolume_found [OF g(1)]
    have "unpublish_found sys srv mp (nu_target_path request) (nu_volume_id request) s1 = (r, s')" by simp
    from unpublish_found_effect [OF mount_world_unmount [OF w] this] Some g(2) show ?thesis by (simp add: same_node_def)
  qed
qed

end
