(* ===== verification/PublishedVolumes.thy ===== *)
theory PublishedVolumes
  imports MountTable
begin

text \<open>
  The Node service as a table of published volumes. \<open>node_allowed\<close> says what one request may do
  to the mount table of the kernel: nothing; for a publication, to add a mount at its target
  when no device \<open>/dev/sbvg_...\<close> is mounted there; for an unpublication, to take the newest mount
  off its target. Bind mounts of block volumes are in the table like all others, but do not keep
  a target from being mounted again, since the reader of the table leaves them out. The lemmas:
  the decorated service refines this specification, no path ever has two mounts of such devices,
  what a publication of a file system leaves at its target, and that none of it holds for block
  volumes.
\<close>

section \<open>The specification\<close>

datatype node_request =
    NodePublish NodePublishVolumeRequest
  | NodeUnpublish NodeUnpublishVolumeRequest
  | NodeInfo

fun target_of_request :: "node_request \<Rightarrow> string option" where
  "target_of_request (NodePublish r) = Some (np_target_path r)"
| "target_of_request (NodeUnpublish r) = Some (nu_target_path r)"
| "target_of_request NodeInfo = None"

text \<open>What one request may do to the mount table.\<close>

inductive node_allowed :: "(string \<Rightarrow> bool) \<Rightarrow> node_request \<Rightarrow> kmount list \<Rightarrow> kmount list \<Rightarrow> bool"
  for real where
  untouched: "node_allowed real r v v"
| published: "publishes real (np_target_path r) v v' \<Longrightarrow> node_allowed real (NodePublish r) v v'"
| unpublished: "taken_off real (nu_target_path r) v v' \<Longrightarrow> node_allowed real (NodeUnpublish r) v v'"

fun serve_node :: "'w NodeServer \<Rightarrow> node_request \<Rightarrow> 'w gs \<Rightarrow> 'w gs" where
  "serve_node ns (NodePublish r) s = snd (ns_NodePublishVolume ns r s)"
| "serve_node ns (NodeUnpublish r) s = snd (ns_NodeUnpublishVolume ns r s)"
| "serve_node ns NodeInfo s = snd (ns_NodeGetInfo ns s)"

definition node_service :: "'w sys \<Rightarrow> Server \<Rightarrow> bool \<Rightarrow> gomap option \<Rightarrow> 'w NodeServer" where
  "node_service sys srv removing filesystems = NodeServerValidator (node_server sys srv) removing filesystems"

lemma node_service_publish:
  "ns_NodePublishVolume (node_service sys srv removing filesystems) r s =
     (case validateNodePublishVolumeRequest r removing filesystems (proxied s) of
        Some e \<Rightarrow> (Ret (Inl e), s) | None \<Rightarrow> NodePublishVolume sys srv r s)"
  by (simp add: node_service_def NodeServerValidator_def node_server_def bind_Ret [OF ProxyMode_proxied]
      check_first_def fail_def ret_def split: option.split)

lemma node_service_unpublish:
  "ns_NodeUnpublishVolume (node_service sys srv removing filesystems) r s =
     (case validateNodeUnpublishVolumeRequest r removing of
        Some e \<Rightarrow> (Ret (Inl e), s) | None \<Rightarrow> NodeUnpublishVolume sys srv r s)"
  by (simp add: node_service_def NodeServerValidator_def node_server_def check_first_def fail_def ret_def
      split: option.split)

lemma node_service_info:
  "ns_NodeGetInfo (node_service sys srv removing filesystems) = NodeGetInfo sys srv"
  by (simp add: node_service_def NodeServerValidator_def node_server_def)

lemma serve_node_allowed:
  assumes w: "mount_world sys real view" and p: "\<not> proxied s"
  shows "node_allowed real req (mnts view s) (mnts view (serve_node (node_service sys srv removing filesystems) req s))"
proof (cases req)
  case (NodePublish r)
  obtain res s' where c: "NodePublishVolume sys srv r s = (res, s')" by (cases "NodePublishVolume sys srv r s")
  from NodePublishVolume_effect [OF w p c] show ?thesis
    by (auto simp: NodePublish node_service_publish c intro: node_allowed.intros split: option.split)
next
  case (NodeUnpublish r)
  obtain res s' where c: "NodeUnpublishVolume sys srv r s = (res, s')" by (cases "NodeUnpublishVolume sys srv r s")
  from NodeUnpublishVolume_effect [OF w p c] show ?thesis
    by (auto simp: NodeUnpublish node_service_unpublish c unmounted_def same_node_def intro: node_allowed.intros
        split: option.split if_splits)
next
  case NodeInfo
  then show ?thesis
    using keeps_node_parts(7) [OF mounts_node_still [OF mount_world_still [OF w]]]
    by (simp add: node_service_info steady_def untouched)
qed

lemma serve_node_agent: "StolakeURL (serve_node (node_service sys srv removing filesystems) req s) = StolakeURL s"
proof -
  have "keeps_agent (NodeGetInfo sys srv)"
    unfolding NodeGetInfo_def readInitiatorName_def Let_def by (intro keeps_intros)
  then show ?thesis
    by (cases req) (auto simp: node_service_publish node_service_unpublish node_service_info steady_def
        keeps_agent_publish [unfolded steady_def, rule_format] keeps_agent_unpublish [unfolded steady_def, rule_format]
        split: option.split)
qed

lemma keeps_agent_mount: "keeps_agent (nodePublishVolume_Mount sys srv source target readonly fstype options grp allusers)"
  unfolding nodePublishVolume_Mount_def proxy_mount_def MountVolume_def mount_device_def ensure_target_dir_def
    ensure_filesystem_def determineLocalFilesystemType_def formatDevice_def exec_combined_def set_mount_group_def
    open_to_all_def Let_def
  by (intro keeps_intros keeps_agent_getMountAt)

lemma keeps_agent_block: "keeps_agent (nodePublishVolume_Block sys source target readonly)"
  unfolding nodePublishVolume_Block_def by (intro keeps_intros keeps_agent_getMountAt)

interpretation node_table: simulation_while "serve_node (node_service sys srv removing filesystems)"
    "\<lambda>s. nv_mounts (view (ext s))" "node_allowed real" "mount_world sys real view" "\<lambda>s. \<not> proxied s"
  for sys srv removing filesystems real view
  by unfold_locales (simp_all add: serve_node_allowed proxied_agent [OF serve_node_agent])

section \<open>The mounts at one path\<close>

definition mounts_at :: "string \<Rightarrow> kmount list \<Rightarrow> kmount list" where
  "mounts_at p v = filter (\<lambda>k. km_path k = p) v"

text \<open>No path has two mounts of devices \<open>/dev/sbvg_...\<close>. Block volumes do not count.\<close>

definition one_per_path :: "kmount list \<Rightarrow> bool" where
  "one_per_path v \<longleftrightarrow> (\<forall>p. length (filter lvm_mount (mounts_at p v)) \<le> 1)"

lemma one_per_path_published:
  assumes "publishes real target v v'" and "real target" and "one_per_path v"
  shows "one_per_path v'"
proof -
  obtain k where v': "v' = v @ [k]" and k: "km_path k = target" using assms(1,2) by (auto simp: publishes_def)
  have "filter lvm_mount (mounts_at target v) = []"
    using assms(1) by (auto simp: publishes_def mounts_at_def filter_empty_conv)
  with assms(3) show ?thesis by (auto simp: one_per_path_def v' mounts_at_def k)
qed

lemma one_per_path_taken_off:
  assumes "taken_off real target v v'" and "one_per_path v"
  shows "one_per_path v'"
proof -
  obtain xs k ys where v: "v = xs @ k # ys" "v' = xs @ ys" using assms(1) by (auto simp: taken_off_def)
  have "length (filter lvm_mount (mounts_at p v')) \<le> length (filter lvm_mount (mounts_at p v))" for p
    by (simp add: v mounts_at_def)
  with assms(2) show ?thesis unfolding one_per_path_def by (meson order.trans)
qed

lemma one_per_path_allowed:
  "node_allowed real r v v' \<Longrightarrow> (\<And>p. target_of_request r = Some p \<Longrightarrow> real p) \<Longrightarrow> one_per_path v \<Longrightarrow> one_per_path v'"
  by (cases rule: node_allowed.cases) (auto intro: one_per_path_published one_per_path_taken_off)

text \<open>Requests for other targets leave the mounts at a path alone.\<close>

definition elsewhere :: "(string \<Rightarrow> bool) \<Rightarrow> string \<Rightarrow> node_request \<Rightarrow> bool" where
  "elsewhere real target r \<longleftrightarrow> (\<forall>p. target_of_request r = Some p \<longrightarrow> real p \<and> p \<noteq> target)"

lemma mounts_at_allowed:
  assumes "node_allowed real r v v'" and "elsewhere real target r"
  shows "mounts_at target v' = mounts_at target v"
  using assms by cases (auto simp: elsewhere_def publishes_def taken_off_def mounts_at_def)

lemma mounts_at_run:
  assumes "mount_world sys real view" and "\<not> proxied s" and "list_all (elsewhere real target) reqs"
  shows "mounts_at target (mnts view (fold (serve_node (node_service sys srv removing filesystems)) reqs s)) =
    mounts_at target (mnts view s)"
proof (rule node_table.run_preserves [where I = "\<lambda>v. mounts_at target v = mounts_at target (mnts view s)", OF assms(1,2)])
  fix r v v'
  assume "r \<in> set reqs" and "mounts_at target v = mounts_at target (mnts view s)" and "node_allowed real r v v'"
  with mounts_at_allowed assms(3) show "mounts_at target v' = mounts_at target (mnts view s)"
    by (auto simp: list_all_iff)
qed simp

text \<open>When only volumes of the group are mounted at a path, the first of them is found.\<close>

lemma seen_at_lvm:
  assumes "list_all lvm_mount (mounts_at p v)"
  shows "seen_at r v p = (case mounts_at p v of [] \<Rightarrow> None | k # _ \<Rightarrow> Some (mount_entry r k))"
  using assms
proof (induction v)
  case Nil
  show ?case by (simp add: seen_at_def mounts_at_def)
next
  case (Cons k v)
  then show ?case
    using lvm_mount_visible [of k r] by (cases "km_path k = p") (auto simp: seen_at_def mounts_at_def)
qed

text \<open>Taking off the only mount at a path.\<close>

lemma only_mount_removed:
  assumes "unmounted real p True v v'" and "real p" and "mounts_at p v = [k]"
  shows "v' = filter (\<lambda>k. km_path k \<noteq> p) v"
proof -
  have "taken_off real p v v' \<or> mounts_at p v = []"
    using assms(1,2) by (auto simp: unmounted_def mounts_at_def filter_empty_conv)
  then obtain xs j ys where v: "v = xs @ j # ys" "v' = xs @ ys" "km_path j = p" "\<forall>j\<in>set ys. km_path j \<noteq> p"
    using assms(2,3) by (auto simp: taken_off_def)
  with assms(3) have "\<forall>j\<in>set xs. km_path j \<noteq> p"
    by (auto simp: mounts_at_def append_eq_Cons_conv filter_empty_conv)
  with v show ?thesis by simp
qed

definition fits_mount :: "string \<Rightarrow> string \<Rightarrow> bool \<Rightarrow> kmount \<Rightarrow> bool" where
  "fits_mount source fstype readonly k \<longleftrightarrow>
     km_source k = source \<and> km_fstype k = fstype \<and> (''ro'' \<in> set (km_opts k) \<longleftrightarrow> readonly)"

lemma check_mount_entry:
  "check_existing_mount (mount_entry r k) source fstype readonly = None \<longleftrightarrow> fits_mount source fstype readonly k"
  by (auto simp: check_existing_mount_def mount_entry_def fits_mount_def isReadonly_def list_ex_iff)

text \<open>What a successful publication leaves at its target: a mount as requested in front.\<close>

lemma published_fits:
  assumes w: "mount_world sys real view" and p: "\<not> proxied s"
    and c: "nodePublishVolume_Mount sys srv source target readonly fstype0 options grp allusers s = (Ret (Inr ()), s')"
    and f: "fstype = (if fstype0 = '''' then nval (Some (srv_supportedFilesystems srv)) '''' else fstype0)"
    and only: "list_all lvm_mount (mounts_at target (mnts view s))"
    and src: "is_lvm_path source" and "real target"
  shows "\<exists>k ks. mounts_at target (mnts view s') = k # ks \<and> fits_mount source fstype readonly k \<and> list_all lvm_mount (k # ks) \<and>
    (mounts_at target (mnts view s) = [] \<longrightarrow> ks = [])"
proof (cases "mounts_at target (mnts view s)")
  case Nil
  then have n: "found view s target = None" using seen_at_lvm [OF only] by simp
  from mount_effect [OF w p c f, unfolded n option.case] obtain k where
    "mnts view s' = mnts view s @ [k]" "new_mount real source target fstype (if readonly then MS_RDONLY else 0) k"
    by (auto simp: mounts_or_fails_def)
  then have "mounts_at target (mnts view s') = [k]" "fits_mount source fstype readonly k" "lvm_mount k"
    using Nil src assms(7)
    by (auto simp: mounts_at_def new_mount_def fits_mount_def MS_BIND_def MS_RDONLY_def lvm_mount_def split: if_splits)
  then show ?thesis by simp
next
  case (Cons k ks)
  then have n: "found view s target = Some (mount_entry (nv_links (view (ext s))) k)"
    using seen_at_lvm [OF only] by simp
  from mount_effect [OF w p c f, unfolded n option.case] have "mnts view s' = mnts view s"
    "fits_mount source fstype readonly k"
    by (auto simp: same_node_def check_mount_entry split: option.splits)
  with Cons only show ?thesis by simp
qed

lemma publish_again:
  assumes w: "mount_world sys real view" and p: "\<not> proxied s"
    and c: "nodePublishVolume_Mount sys srv source target readonly fstype0 options grp allusers s = (r, s')"
    and f: "fstype = (if fstype0 = '''' then nval (Some (srv_supportedFilesystems srv)) '''' else fstype0)"
    and k: "mounts_at target (mnts view s) = k # ks" "fits_mount source fstype readonly k" "list_all lvm_mount (k # ks)"
  shows "r = Ret (Inr ()) \<and> mnts view s' = mnts view s"
proof -
  have n: "found view s target = Some (mount_entry (nv_links (view (ext s))) k)"
    using seen_at_lvm [of target "mnts view s"] k by simp
  have "check_existing_mount (mount_entry (nv_links (view (ext s))) k) source fstype readonly = None"
    using k(2) by (simp add: check_mount_entry)
  with mount_effect [OF w p c f, unfolded n option.case] show ?thesis by (simp add: same_node_def)
qed

section \<open>A publication of a file system\<close>

text \<open>The requests that mount a file system rather than a block device.\<close>

definition fs_publication :: "NodePublishVolumeRequest \<Rightarrow> bool" where
  "fs_publication r \<longleftrightarrow>
     (case np_volume_capability r of None \<Rightarrow> False
      | Some c \<Rightarrow> (case access_type c of Some (AccessMount m) \<Rightarrow> True | _ \<Rightarrow> False))"

lemma fs_publication_mount:
  assumes "fs_publication r"
  obtains ro fs opts grp allusers where "\<And>sys srv source (s :: 'w gs). \<not> proxied s \<Longrightarrow>
    publish_at sys srv r source s =
      tryE (nodePublishVolume_Mount sys srv source (np_target_path r) ro fs opts grp allusers) fail
        (\<lambda>_. set_qos_tag sys srv (np_volume_id r) (np_publish_context r)) s"
proof -
  obtain c m where "np_volume_capability r = Some c" "access_type c = Some (AccessMount m)"
    using assms by (auto simp: fs_publication_def split: option.splits AccessType.splits)
  then show thesis
    by (intro that) (simp add: publish_at_def Let_def bind_Ret [OF ProxyMode_proxied])
qed

text \<open>Setting the QoS tag returns no error, and does nothing without both limits.\<close>

definition no_limits :: "gomap option \<Rightarrow> bool" where
  "no_limits pc \<longleftrightarrow> nget pc ''iopspergb'' = None \<or> nget pc ''mbpspergb'' = None"

lemma set_qos_tag_result:
  assumes "set_qos_tag sys srv vid pc s = (r, s')"
  shows "r \<noteq> Ret (Inl e)" and "no_limits pc \<Longrightarrow> r = Ret (Inr ())"
  using assms unfolding set_qos_tag_def no_limits_def
  by (auto simp: ok_def ret_def panic_def elim!: bind_cases split: option.splits sum.splits)

lemma fs_publish_found:
  assumes w: "mount_world sys real view" and p: "\<not> proxied s"
    and source: "publish_source sys srv request s = (Ret (Inr source), s0)"
    and c: "NodePublishVolume sys srv request s = (r, s')"
  shows "mnts view s0 = mnts view s \<and> \<not> proxied s0 \<and> publish_at sys srv request source s0 = (r, s')"
proof -
  have "mnts view s0 = mnts view s"
    by (rule steadyD [OF keeps_node_parts(1) [OF mounts_node_still [OF mount_world_still [OF w]]] source])
  moreover have "\<not> proxied s0" using p proxied_agent [OF steadyD [OF keeps_agent_publish_source source]] by simp
  ultimately show ?thesis using c source by (simp add: NodePublishVolume_def tryE_Inr)
qed

text \<open>A successful publication, and the same publication when its mount is there.\<close>

lemma fs_published:
  assumes w: "mount_world sys real view" and p: "\<not> proxied s" and fs: "fs_publication request"
    and rt: "real (np_target_path request)"
    and source: "publish_source sys srv request s = (Ret (Inr source), s0)" and src: "is_lvm_path source"
    and only: "list_all lvm_mount (mounts_at (np_target_path request) (mnts view s))"
    and first: "NodePublishVolume sys srv request s = (Ret (Inr ()), s1)"
  obtains k ks where "mounts_at (np_target_path request) (mnts view s1) = k # ks" "list_all lvm_mount (k # ks)"
    "mounts_at (np_target_path request) (mnts view s) = [] \<Longrightarrow> ks = []"
    "\<And>t t0 r t'. \<not> proxied t \<Longrightarrow> mounts_at (np_target_path request) (mnts view t) = k # ks \<Longrightarrow>
       publish_source sys srv request t = (Ret (Inr source), t0) \<Longrightarrow> NodePublishVolume sys srv request t = (r, t') \<Longrightarrow>
       mnts view t' = mnts view t \<and> (\<forall>e. r \<noteq> Ret (Inl e)) \<and> (no_limits (np_publish_context request) \<longrightarrow> r = Ret (Inr ()))"
proof -
  note still = keeps_set_qos_tag [OF mount_world_still [OF w], of srv "np_volume_id request" "np_publish_context request"]
  obtain ro fstype opts grp allusers where at: "\<And>source (s :: 'a gs). \<not> proxied s \<Longrightarrow>
      publish_at sys srv request source s =
        tryE (nodePublishVolume_Mount sys srv source (np_target_path request) ro fstype opts grp allusers) fail
          (\<lambda>_. set_qos_tag sys srv (np_volume_id request) (np_publish_context request)) s"
    using fs_publication_mount [OF fs] by metis
  define ft where "ft = (if fstype = '''' then nval (Some (srv_supportedFilesystems srv)) '''' else fstype)"
  note f0 = fs_publish_found [OF w p source first]
  then have "tryE (nodePublishVolume_Mount sys srv source (np_target_path request) ro fstype opts grp allusers) fail
      (\<lambda>_. set_qos_tag sys srv (np_volume_id request) (np_publish_context request)) s0 = (Ret (Inr ()), s1)"
    using at [of s0 source] by simp
  then obtain sm where m: "nodePublishVolume_Mount sys srv source (np_target_path request) ro fstype opts grp allusers s0 =
        (Ret (Inr ()), sm)"
      and q: "set_qos_tag sys srv (np_volume_id request) (np_publish_context request) sm = (Ret (Inr ()), s1)"
    by (rule tryE_cases) (auto simp: fail_def ret_def)
  obtain k ks where k: "mounts_at (np_target_path request) (mnts view sm) = k # ks" "fits_mount source ft ro k"
      "list_all lvm_mount (k # ks)" "mounts_at (np_target_path request) (mnts view s0) = [] \<longrightarrow> ks = []"
    using published_fits [OF w _ m ft_def _ src rt] f0 only by auto
  have "mnts view s1 = mnts view sm" by (rule steadyD [OF still q])
  with k f0 show thesis
  proof (intro that [of k ks])
    fix t t0 r t'
    assume pt: "\<not> proxied t" and at_t: "mounts_at (np_target_path request) (mnts view t) = k # ks"
      and st: "publish_source sys srv request t = (Ret (Inr source), t0)"
      and ct: "NodePublishVolume sys srv request t = (r, t')"
    note t0 = fs_publish_found [OF w pt st ct]
    obtain r1 t1 where m1: "nodePublishVolume_Mount sys srv source (np_target_path request) ro fstype opts grp allusers t0 =
        (r1, t1)" by fastforce
    have again: "r1 = Ret (Inr ())" "mnts view t1 = mnts view t0"
      using publish_again [OF w _ m1 ft_def _ k(2,3)] t0 at_t by simp_all
    have q1: "set_qos_tag sys srv (np_volume_id request) (np_publish_context request) t1 = (r, t')"
      using t0 at [of t0 source] m1 again(1) by (simp add: tryE_Inr)
    from steadyD [OF still q1] again(2) t0 set_qos_tag_result [OF q1]
    show "mnts view t' = mnts view t \<and> (\<forall>e. r \<noteq> Ret (Inl e)) \<and>
        (no_limits (np_publish_context request) \<longrightarrow> r = Ret (Inr ()))" by simp
  qed simp_all
qed

section \<open>An example kernel\<close>

text \<open>A kernel whose state is the table itself. A bind mount shows the file system of the device
  nodes as its source.\<close>

definition tiny_mount :: "string \<Rightarrow> string \<Rightarrow> string \<Rightarrow> nat \<Rightarrow> kmount" where
  "tiny_mount source target fstype flags =
     \<lparr>km_id = ''36'', km_parent = ''35'', km_dev = ''98:0'', km_root = ''/'', km_path = target,
      km_opts = [if flags = MS_RDONLY then ''ro'' else ''rw''], km_tags = [],
      km_fstype = (if flags = MS_BIND then ''devtmpfs'' else fstype),
      km_source = (if flags = MS_BIND then ''udev'' else source), km_super = ''rw''\<rparr>"

definition tiny_umount :: "string \<Rightarrow> kmount list \<Rightarrow> goerr option \<times> kmount list" where
  "tiny_umount p t =
     (case dropWhile (\<lambda>k. km_path k \<noteq> p) (rev t) of
        [] \<Rightarrow> (Some (Errno ''invalid argument''), t)
      | k # older \<Rightarrow> (None, rev older @ rev (takeWhile (\<lambda>k. km_path k \<noteq> p) (rev t))))"

definition tiny_view :: "kmount list \<Rightarrow> node_view" where
  "tiny_view w = \<lparr>nv_mounts = filter well_formed w, nv_links = \<lparr>er_stdout = '''', er_stderr = '''', er_error = None\<rparr>\<rparr>"

definition tiny_kernel :: "kmount list sys" where
  "tiny_kernel = quiet\<lparr>
     sys_combined := \<lambda>cmd args w. ((if cmd = ''blkid'' then ''TYPE=xfs'' else ''SGI XFS filesystem data'', None), w),
     sys_run := \<lambda>cmd args w. (\<lparr>er_stdout = (if cmd = ''lvs''
       then ''{\"report\":[{\"lv\":[{\"lv_name\":\"csilv1\",\"vg_name\":\"vg0\"}]}]}'' else ''''), er_stderr = '''', er_error = None\<rparr>, w),
     sys_readfile := \<lambda>p w. (if p = ''/proc/self/mountinfo'' then Inr (mountinfo_text (filter well_formed w))
       else Inl (TextError ''no such file''), w),
     sys_mount := \<lambda>source target fstype flags opts w.
       (let k = tiny_mount source target fstype flags; v = filter well_formed w in
        if well_formed k then (None, v @ [k]) else (Some (Errno ''no such device''), v)),
     sys_unmount := \<lambda>p flags w. tiny_umount p (filter well_formed w),
     sys_UnMountVolume := \<lambda>c p w. tiny_umount p (filter well_formed w)\<rparr>"

lemma tiny_umount_effect:
  assumes "tiny_umount p t = (err, t')"
  shows "taken_off real p t t' \<or> err \<noteq> None \<and> t' = t"
proof (cases "dropWhile (\<lambda>k. km_path k \<noteq> p) (rev t)")
  case Nil
  with assms show ?thesis by (auto simp: tiny_umount_def)
next
  case (Cons k older)
  define newer where "newer = takeWhile (\<lambda>k. km_path k \<noteq> p) (rev t)"
  have "rev t = newer @ k # older" unfolding newer_def Cons [symmetric] by simp
  then have "rev (rev t) = rev older @ k # rev newer" by simp
  moreover have "km_path k = p" using Cons by (auto simp: dropWhile_eq_Cons_conv)
  moreover have "\<forall>j\<in>set newer. km_path j \<noteq> p" unfolding newer_def by (auto dest: set_takeWhileD)
  moreover have "t' = rev older @ rev newer" using assms Cons by (simp add: tiny_umount_def newer_def)
  ultimately show ?thesis
    unfolding taken_off_def by (intro disjI1 exI [of _ "rev older"] exI [of _ k] exI [of _ "rev newer"]) auto
qed

lemma taken_off_well_formed: "taken_off real p v v' \<Longrightarrow> list_all well_formed v \<Longrightarrow> filter well_formed v' = v'"
  by (auto simp: taken_off_def list_all_iff intro!: filter_True)

lemma tiny_umount_view:
  assumes "tiny_umount p (filter well_formed w) = (err, w')"
  shows "taken_off real p (nv_mounts (tiny_view w)) (nv_mounts (tiny_view w')) \<or>
    err \<noteq> None \<and> nv_mounts (tiny_view w') = nv_mounts (tiny_view w)"
proof -
  have "list_all well_formed (filter well_formed w)" by (simp add: list_all_iff)
  then have "filter well_formed w' = w' \<or> w' = filter well_formed w"
    using tiny_umount_effect [OF assms, of real] taken_off_well_formed by blast
  then have "nv_mounts (tiny_view w') = w'" by (auto simp: tiny_view_def)
  then show ?thesis using tiny_umount_effect [OF assms, of real] by (simp add: tiny_view_def)
qed

lemma tiny_world: "mount_world tiny_kernel (\<lambda>_. True) tiny_view"
  unfolding mount_world_def
proof (intro conjI)
  show "mount_reads tiny_kernel tiny_view"
    by (auto simp: mount_reads_def tiny_kernel_def tiny_view_def still_def quiet_def list_all_iff)
  show "mounts_still tiny_kernel (\<lambda>w. nv_mounts (tiny_view w))"
    by (auto simp: mounts_still_def node_still_def others_still_def tiny_kernel_def still_def quiet_def tool_effect_def)
  have "mounts_or_fails (\<lambda>_. True) source target fstype flags (err = None) (nv_mounts (tiny_view w)) (nv_mounts (tiny_view w'))"
    if "sys_mount tiny_kernel source target fstype flags opts w = (err, w')" for source target fstype flags opts w err w'
    using that by (auto simp: tiny_kernel_def Let_def tiny_view_def mounts_or_fails_def new_mount_def tiny_mount_def
        split: if_splits)
  moreover have "sys_unmount tiny_kernel p 0 w = tiny_umount p (filter well_formed w)"
    "sys_UnMountVolume tiny_kernel c p w = tiny_umount p (filter well_formed w)" for c p w
    by (simp_all add: tiny_kernel_def)
  ultimately show "kernel_mounts tiny_kernel (\<lambda>_. True) tiny_view"
    unfolding kernel_mounts_def unmounted_def using tiny_umount_view [of _ _ _ _ "\<lambda>_. True"] by fastforce
qed

definition tiny_block :: "(kmount list, unit) rpc" where
  "tiny_block = nodePublishVolume_Block tiny_kernel ''/dev/vg0/csilv1'' ''/data'' False"

definition tiny_unpublish :: "(kmount list, unit) rpc" where
  "tiny_unpublish = NodeUnpublishVolume tiny_kernel lake_server \<lparr>nu_volume_id = ''csilv1'', nu_target_path = ''/data''\<rparr>"

lemma tiny_local: "\<not> proxied (quiet_state w)"
  by (simp add: proxied_def quiet_state_def)

section \<open>Properties\<close>

text \<open>
  the Node service implements a table of published volumes: run on the node itself, without
  the agent, whatever requests it serves and whatever each of them answers, panics included,
  the mount table of the kernel changes by steps of the specification only.\<close>

theorem node_refines_mount_table:
  assumes "mount_world sys real view" and "\<not> proxied s"
  shows "runs (node_allowed real) reqs (mnts view s)
    (mnts view (fold (serve_node (node_service sys srv removing filesystems)) reqs s))"
  by (rule node_table.run_refines [OF assms])

theorem node_refines_mount_table_witness:
  "runs (node_allowed (\<lambda>_. True)) [NodeInfo, NodeUnpublish \<lparr>nu_volume_id = ''csilv1'', nu_target_path = ''/data''\<rparr>]
     (mnts tiny_view (quiet_state [])) (mnts tiny_view
       (fold (serve_node (node_service tiny_kernel lake_server False None))
          [NodeInfo, NodeUnpublish \<lparr>nu_volume_id = ''csilv1'', nu_target_path = ''/data''\<rparr>] (quiet_state [])))"
  by (rule node_refines_mount_table [OF tiny_world tiny_local])

text \<open>
  no path ever has two devices \<open>/dev/sbvg_...\<close> mounted, if none had, as long as the requests
  name their targets the way the kernel shows them.\<close>

theorem one_volume_per_path:
  assumes "mount_world sys real view" and "\<not> proxied s" and "one_per_path (mnts view s)"
    and "\<And>r p. r \<in> set reqs \<Longrightarrow> target_of_request r = Some p \<Longrightarrow> real p"
  shows "one_per_path (mnts view (fold (serve_node (node_service sys srv removing filesystems)) reqs s))"
  using node_table.run_preserves [where I = one_per_path, OF assms(1,2) _ assms(3)] assms(4) one_per_path_allowed by blast

theorem one_volume_per_path_witness:
  "one_per_path (mnts tiny_view (fold (serve_node (node_service tiny_kernel lake_server False None))
     [NodeUnpublish \<lparr>nu_volume_id = ''csilv1'', nu_target_path = ''/data''\<rparr>] (quiet_state [])))"
  by (rule one_volume_per_path [OF tiny_world tiny_local])
     (simp_all add: one_per_path_def mounts_at_def tiny_view_def quiet_state_def)

text \<open>C39: a block volume cannot be unpublished: its bind mount shows the file system of the device
  nodes as source, which the reader of the mount table leaves out, so unpublishing answers with
  success and leaves the mount, and publishing again mounts a second time on top of it.\<close>

theorem block_volume_stays_mounted:
  assumes w: "mount_world sys real view" and p: "\<not> proxied s" and rt: "real target"
    and free: "mounts_at target (mnts view s) = []"
    and first: "nodePublishVolume_Block sys source target readonly s = (Ret (Inr ()), s1)"
    and devices: "\<And>k. k \<in> set (mnts view s1) \<Longrightarrow> km_path k = target \<Longrightarrow> \<not> visible (nv_links (view (ext s1))) k"
    and undo: "NodeUnpublishVolume sys srv \<lparr>nu_volume_id = vid, nu_target_path = target\<rparr> s1 = (r, s2)"
    and again: "nodePublishVolume_Block sys source target readonly s2 = (Ret (Inr ()), s3)"
  shows "r = Ret (Inr ()) \<and> length (mounts_at target (mnts view s2)) = 1 \<and> length (mounts_at target (mnts view s3)) = 2"
proof -
  have none: "found view s target = None" using free
    by (auto simp: seen_at_def mounts_at_def find_None_iff filter_empty_conv)
  from block_effect [OF w p first, unfolded none option.case] obtain k where
    k: "mnts view s1 = mnts view s @ [k]" "km_path k = target"
    using rt by (auto simp: mounts_or_fails_def new_mount_def)
  have p1: "\<not> proxied s1" using p proxied_agent [OF steadyD [OF keeps_agent_block first]] by simp
  have none1: "found view s1 target = None" using devices by (auto simp: seen_at_def find_None_iff)
  from NodeUnpublishVolume_effect [OF w p1 undo] none1 have u: "r = Ret (Inr ())" "same_node view s1 s2" by simp_all
  have none2: "found view s2 target = None" and p2: "\<not> proxied s2"
    using none1 p1 u(2) by (simp_all add: same_node_def proxied_def)
  from block_effect [OF w p2 again, unfolded none2 option.case] obtain j where
    "mnts view s3 = mnts view s2 @ [j]" "km_path j = target"
    using rt by (auto simp: mounts_or_fails_def new_mount_def)
  then show ?thesis using u k free by (simp add: same_node_def mounts_at_def)
qed

theorem block_volume_stays_mounted_witness:
  "\<exists>s1 s2 s3. tiny_block (quiet_state []) = (Ret (Inr ()), s1) \<and> tiny_unpublish s1 = (Ret (Inr ()), s2) \<and>
     tiny_block s2 = (Ret (Inr ()), s3) \<and> length (mounts_at ''/data'' (mnts tiny_view s3)) = 2"
proof -
  define s1 where "s1 = snd (tiny_block (quiet_state []))"
  define s2 where "s2 = snd (tiny_unpublish s1)"
  have "fst (tiny_block (quiet_state [])) = Ret (Inr ())" "fst (tiny_unpublish s1) = Ret (Inr ())"
      "fst (tiny_block s2) = Ret (Inr ())"
    unfolding s1_def s2_def tiny_block_def tiny_unpublish_def by code_simp+
  note run = this [THEN outcome_state, folded s1_def s2_def]
  obtain s3 where s3: "tiny_block s2 = (Ret (Inr ()), s3)" using run(3) by blast
  have "mnts tiny_view s1 = [tiny_mount ''/dev/vg0/csilv1'' ''/data'' '''' MS_BIND] \<and>
      \<not> visible (nv_links (tiny_view (ext s1))) (tiny_mount ''/dev/vg0/csilv1'' ''/data'' '''' MS_BIND)"
    unfolding s1_def tiny_block_def by code_simp
  then have d: "\<And>k. k \<in> set (mnts tiny_view s1) \<Longrightarrow> km_path k = ''/data'' \<Longrightarrow>
      \<not> visible (nv_links (tiny_view (ext s1))) k" by auto
  have e: "mounts_at ''/data'' (mnts tiny_view (quiet_state [])) = []"
    by (simp add: mounts_at_def tiny_view_def quiet_state_def)
  have "length (mounts_at ''/data'' (mnts tiny_view s3)) = 2"
    using block_volume_stays_mounted [OF tiny_world tiny_local TrueI e run(1) [unfolded tiny_block_def] d
        run(2) [unfolded tiny_unpublish_def] s3 [unfolded tiny_block_def]] by blast
  with run(1,2) s3 show ?thesis by blast
qed

end
