(* ===== verification/Services.thy ===== *)
theory Services
  imports PublishedVolumes Startup
begin

text \<open>
  The three services of the plugin together. A request goes to one of them; the volumes of the
  group and the mount table of the kernel are the abstract state of all. \<open>store_allowed\<close> says what
  one request may do to the volumes: what the Controller service may do, and, for a publication on
  the node with QoS limits in its context, to add the QoS tag to its volume. \<open>table_allowed\<close> says
  what it may do to the mount table: what the Node service may do, and nothing for the others. The
  properties: the plugin refines both specifications, and the invariants of the two services hold
  for the requests of all three.
\<close>

section \<open>Requests\<close>

datatype identity_request =
    PluginInfo
  | PluginCapabilities
  | Probing

datatype plugin_request =
    ToIdentity identity_request
  | ToController controller_request
  | ToNode node_request

fun serve_identity :: "'w IdentityServer \<Rightarrow> identity_request \<Rightarrow> 'w gs \<Rightarrow> 'w gs" where
  "serve_identity ids PluginInfo s = snd (is_GetPluginInfo ids s)"
| "serve_identity ids PluginCapabilities s = snd (is_GetPluginCapabilities ids s)"
| "serve_identity ids Probing s = snd (is_Probe ids s)"

fun serve_plugin :: "'w Plugin \<Rightarrow> plugin_request \<Rightarrow> 'w gs \<Rightarrow> 'w gs" where
  "serve_plugin p (ToIdentity r) s = serve_identity (pl_identity p) r s"
| "serve_plugin p (ToController r) s = serve (pl_controller p) r s"
| "serve_plugin p (ToNode r) s = serve_node (pl_node p) r s"

lemma served_services:
  "pl_identity (served sys v sock limit metrics srv) = identity_server sys v srv"
  "pl_controller (served sys v sock limit metrics srv) =
     controller_service sys srv (srv_removingVolumeGroup srv) (SupportedFilesystems srv)"
  "pl_node (served sys v sock limit metrics srv) =
     node_service sys srv (srv_removingVolumeGroup srv) (SupportedFilesystems srv)"
  by (simp_all add: served_def controller_service_def node_service_def)

section \<open>The address of the agent\<close>

lemma keeps_agent_queries:
  "keeps_agent (FindLogicalVolume sys vg m)" "keeps_agent (Tags_lv sys lv)" "keeps_agent (Uuid_lv sys lv)"
  "keeps_agent (ExtentSize sys vg)" "keeps_agent (BytesFree sys vg layout)" "keeps_agent (ListLogicalVolumeNames sys vg)"
  "keeps_agent (LookupVolumeGroup sys nm)" "keeps_agent (reportStorageMetrics sys srv)"
  unfolding FindLogicalVolume_def RefreshMetaData_def PVScan_def VGScan_def Tags_lv_def Uuid_lv_def ExtentSize_def
    BytesFree_def ListPhysicalVolumeNames_def ListLogicalVolumeNames_def LookupVolumeGroup_def reportStorageMetrics_def
    BytesTotal_def query_def with_lv_path_def run_def Let_def
  by (intro keeps_intros keeps_agent_lvm)+

lemma keeps_agent_identity: "StolakeURL (serve_identity (identity_server sys v srv) req s) = StolakeURL s"
proof -
  have "keeps_agent (Probe sys srv)"
    unfolding Probe_def probe_modules_def listModules_def Let_def by (intro keeps_intros keeps_agent_queries)
  moreover have "keeps_agent (GetPluginInfo v srv :: ('a, GetPluginInfoResponse) rpc)"
    and "keeps_agent (GetPluginCapabilities srv :: ('a, ServiceCapability list) rpc)"
    unfolding GetPluginInfo_def GetPluginCapabilities_def Let_def by (intro keeps_intros)+
  ultimately show ?thesis
    by (cases req) (simp_all add: identity_server_def steady_def)
qed

lemma keeps_agent_create: "keeps_agent (CreateVolume sys srv request)"
proof -
  have "keeps_agent (allocate_id sys vg n)" for vg n
  proof (induction n)
    case 0
    show ?case unfolding allocate_id.simps by (intro keeps_intros)
  next
    case (Suc n)
    then show ?case unfolding allocate_id.simps by (intro keeps_intros keeps_agent_lvm)
  qed
  then show ?thesis
    unfolding CreateVolume_def existing_volume_def validateExistingVolume_def new_volume_def requested_size_def
      finish_volume_def volumeAttributes_def and_report_def CreateLogicalVolume_def Let_def
    by (intro keeps_intros keeps_agent_queries keeps_agent_lvm)
qed

lemma keeps_agent_jbof: "keeps_agent (jbof_loop sys vgname iqn urls acc)"
proof (induction urls arbitrary: acc)
  case Nil
  show ?case unfolding jbof_loop.simps by (intro keeps_intros; simp)
next
  case (Cons u urls)
  show ?case unfolding jbof_loop.simps stolakeConnect_def disconnect_def by (intro keeps_intros Cons)
qed

lemma keeps_agent_list: "keeps_agent (list_entries sys srv names entries)"
proof (induction names arbitrary: entries)
  case Nil
  show ?case unfolding list_entries.simps and_report_def by (intro keeps_intros keeps_agent_queries)
next
  case (Cons nm names)
  show ?case
    unfolding list_entries.simps volumeAttributes_def by (intro keeps_intros keeps_agent_lvm keeps_agent_queries Cons)
qed

lemma keeps_agent_controller:
  "keeps_agent (DeleteVolume sys srv r1)" "keeps_agent (ControllerPublishVolume sys srv r2)"
  "keeps_agent (ControllerUnpublishVolume sys srv r3)" "keeps_agent (ValidateVolumeCapabilities sys srv r4)"
  "keeps_agent (ListVolumes sys srv r5)" "keeps_agent (GetCapacity sys srv r6)"
  unfolding DeleteVolume_def ControllerPublishVolume_def ControllerUnpublishVolume_def ValidateVolumeCapabilities_def
    ListVolumes_def GetCapacity_def and_report_def Remove_lv_def with_lv_path_def publish_iscsi_def publish_jbof_def
    StageIscsiTarget_def UnStageIscsiTarget_def JbofStageIscsiTargets_def determineFilesystemType_def
    determineLocalFilesystemType_def FstypeProxy_def Let_def
  by (intro keeps_intros keeps_agent_queries keeps_agent_lvm keeps_agent_jbof keeps_agent_list; simp)+

lemma serve_agent: "StolakeURL (serve (controller_service sys srv removing filesystems) req s) = StolakeURL s"
proof -
  have check: "keeps_agent m \<Longrightarrow> keeps_agent (check_first e m)" for e and m :: "('a, 'b) rpc"
    unfolding check_first_def by (intro keeps_intros)
  note defs = controller_service_def ControllerServerValidator_def checked_GetCapacity_def controller_server_def
  show ?thesis
    by (cases req) (simp_all add: defs check [OF keeps_agent_create, unfolded steady_def]
        check [OF keeps_agent_controller(1), unfolded steady_def] check [OF keeps_agent_controller(4), unfolded steady_def]
        check [OF keeps_agent_controller(6), unfolded steady_def] keeps_agent_controller [unfolded steady_def])
qed

lemma serve_plugin_agent: "StolakeURL (serve_plugin (served sys v sock limit metrics srv) req s) = StolakeURL s"
  by (cases req) (simp_all add: served_services keeps_agent_identity serve_agent serve_node_agent)

section \<open>The Node service and the volumes\<close>

text \<open>\<open>lvchange --addtag\<close> adds one tag to one volume, or fails and changes nothing.\<close>

definition tagged :: "string \<Rightarrow> string \<Rightarrow> lvsItem list \<Rightarrow> lvsItem list \<Rightarrow> bool" where
  "tagged nm t v v' \<longleftrightarrow>
     list_all2 (\<lambda>it it'.
       if lv_Name it = nm then it' = it\<lparr>lv_LvTags := lv_LvTags it'\<rparr> \<and> tagSet it' = insert t (tagSet it)
       else it' = it) v v'"

definition lvm_tags :: "'w sys \<Rightarrow> VolumeGroup \<Rightarrow> ('w \<Rightarrow> lvsItem list) \<Rightarrow> bool" where
  "lvm_tags sys g view \<longleftrightarrow>
     (\<forall>nm t. tool_effect sys view ''lvchange'' [''--addtag'', t, vgroup_name g @ ''/'' @ nm]
        (\<lambda>success v v'. tagged nm t v v' \<or> \<not> success \<and> v' = v))"

text \<open>Mounting and unmounting change no volume, nor does anything else the node does to disks and
  files: in particular no log-in to a target brings a volume of the group in or out of sight.\<close>

definition node_calls_still :: "'w sys \<Rightarrow> ('w \<Rightarrow> 'v) \<Rightarrow> bool" where
  "node_calls_still sys view \<longleftrightarrow>
     node_still sys view \<and> still view (ls_by_path sys) \<and>
     (\<forall>source target fstype flags opts. still view (sys_mount sys source target fstype flags opts)) \<and>
     (\<forall>p flags. still view (sys_unmount sys p flags)) \<and> (\<forall>c p. still view (sys_UnMountVolume sys c p)) \<and>
     (\<forall>c q. still view (sys_MountVolume sys c q)) \<and> (\<forall>c. still view (sys_MountInfo sys c))"

definition store_world :: "'w sys \<Rightarrow> VolumeGroup \<Rightarrow> ('w \<Rightarrow> lvsItem list) \<Rightarrow> bool" where
  "store_world sys g view \<longleftrightarrow> lvm_world sys g view \<and> lvm_tags sys g view \<and> node_calls_still sys view"

lemma store_worldD:
  assumes "store_world sys g view"
  shows "lvm_world sys g view" "lvm_tags sys g view" "node_calls_still sys view" "node_still sys view"
    "others_still sys view" "lvs_faithful sys g view"
  using assms by (simp_all add: store_world_def node_calls_still_def lvm_world_def)

lemma node_callsD:
  assumes "node_calls_still sys view"
  shows "node_still sys view" "still view (ls_by_path sys)" "still view (sys_mount sys source target fstype flags opts)"
    "still view (sys_unmount sys p flags)" "still view (sys_UnMountVolume sys c p)" "still view (sys_MountVolume sys c q)"
    "still view (sys_MountInfo sys c)"
  using assms by (simp_all add: node_calls_still_def)

lemma keeps_getMountAt:
  assumes "node_calls_still sys view"
  shows "keeps view (getMountAt sys p)"
proof -
  note k = node_callsD [OF assms] node_stillD [OF node_callsD(1) [OF assms]]
  have "keeps view (parse_mount_lines sys ls acc)" for ls acc
  proof (induction ls arbitrary: acc)
    case Nil
    show ?case unfolding parse_mount_lines.simps by (intro keeps_intros)
  next
    case (Cons l ls)
    show ?case
      unfolding parse_mount_lines.simps mount_of_fields_def getBlockPath_def by (intro keeps_intros k Cons)
  qed
  then show ?thesis
    unfolding getMountAt_def getMountsAt_def listMounts_def parseMountinfo_def MountInfo_def by (intro keeps_intros k)
qed

lemma keeps_mounting:
  assumes "node_calls_still sys view"
  shows "keeps view (nodePublishVolume_Block sys source target readonly)"
    "keeps view (nodePublishVolume_Mount sys srv source target readonly fstype options grp allusers)"
    "keeps view (proxy_mount sys source target fstype grp opts readonly allusers)"
    "keeps view (NodeUnpublishVolume sys srv request)"
proof -
  note k = node_callsD [OF assms] node_stillD [OF node_callsD(1) [OF assms]]
    keeps_node_parts [OF node_callsD(1) [OF assms]] keeps_node_helpers [OF node_callsD(1) [OF assms]]
    keeps_getMountAt [OF assms]
  show p: "keeps view (proxy_mount sys source target fstype grp opts readonly allusers)"
    for source target fstype grp opts readonly allusers
    unfolding proxy_mount_def MountVolume_def by (intro keeps_intros k)
  show "keeps view (nodePublishVolume_Block sys source target readonly)"
    unfolding nodePublishVolume_Block_def by (intro keeps_intros k)
  show "keeps view (nodePublishVolume_Mount sys srv source target readonly fstype options grp allusers)"
    unfolding nodePublishVolume_Mount_def mount_device_def Let_def by (intro keeps_intros k p)
  show "keeps view (NodeUnpublishVolume sys srv request)"
    unfolding NodeUnpublishVolume_def unpublish_iscsi_def agent_unmount_def UnMountVolume_def unpublish_sas_def
      unpublish_other_def local_unmount_def Let_def
    by (intro keeps_intros k)
qed

text \<open>A computation that moves the view only as \<open>R\<close> allows.\<close>

definition moves :: "('w \<Rightarrow> 'v) \<Rightarrow> ('v \<Rightarrow> 'v \<Rightarrow> bool) \<Rightarrow> ('w gs, 'a) io \<Rightarrow> bool" where
  "moves view R m \<longleftrightarrow> (\<forall>s. R (view (ext s)) (view (ext (snd (m s)))))"

lemma moves_keeps: "(\<And>v. R v v) \<Longrightarrow> keeps view m \<Longrightarrow> moves view R m"
  by (simp add: moves_def steady_def)

lemma moves_bind:
  assumes "\<And>v. R v v" and "keeps view m" and "\<And>x. moves view R (k x)"
  shows "moves view R (bind m k)"
  unfolding moves_def
proof
  fix s
  obtain r s' where b: "bind m k s = (r, s')" by (cases "bind m k s")
  from b have "R (view (ext s)) (view (ext s'))"
  proof (cases rule: bind_cases)
    case (Ret x s1)
    then show ?thesis using steadyD [OF assms(2) Ret(1)] assms(3) [of x] unfolding moves_def by (metis snd_conv)
  next
    case (Panic msg)
    then show ?thesis using steadyD [OF assms(2) Panic(1)] assms(1) by simp
  qed
  with b show "R (view (ext s)) (view (ext (snd (bind m k s))))" by simp
qed

lemma moves_tryE:
  "(\<And>v. R v v) \<Longrightarrow> keeps view m \<Longrightarrow> (\<And>x. moves view R (k x)) \<Longrightarrow> moves view R (tryE m fail k)"
  unfolding tryE_def by (rule moves_bind) (auto intro: moves_keeps steady_fail split: sum.split)

text \<open>The tag a publication adds to its volume, when both limits are in its context.\<close>

definition qos_tag :: "gomap option \<Rightarrow> string option" where
  "qos_tag pubcontext =
     (case (nget pubcontext ''iopspergb'', nget pubcontext ''mbpspergb'') of
        (Some iops, Some mbps) \<Rightarrow> Some (''qos-'' @ iops @ ''-'' @ mbps)
      | _ \<Rightarrow> None)"

definition qos_tagged :: "string \<Rightarrow> gomap option \<Rightarrow> lvsItem list \<Rightarrow> lvsItem list \<Rightarrow> bool" where
  "qos_tagged vid pubcontext v v' \<longleftrightarrow>
     v' = v \<or> (\<exists>t. qos_tag pubcontext = Some t \<and> tagged vid t v v')"

lemma AddTag_effect:
  assumes "store_world sys g view" and "AddTag sys (lv_in nm sz g) t s = (r, s')"
  shows "view (ext s') = view (ext s) \<or> tagged nm t (view (ext s)) (view (ext s'))"
proof -
  note w = store_worldD [OF assms(1)]
  have e: "tool_effect sys view ''lvchange'' [''--addtag'', t, vgroup_name g @ ''/'' @ nm]
      (\<lambda>success v v'. tagged nm t v v' \<or> \<not> success \<and> v' = v)"
    using w(2) by (simp add: lvm_tags_def)
  have c: "run_nil sys ''lvchange'' [''--addtag'', t, vgroup_name g @ ''/'' @ nm] s = (r, s')"
    using assms(2) by (simp add: AddTag_def with_lv_path_def deref_Some)
  obtain x s2 where x: "run_nil sys ''lvchange'' [''--addtag'', t, vgroup_name g @ ''/'' @ nm] s = (Ret x, s2)"
    using nopanic_run_nil by (rule nopanicE)
  with c have "s2 = s'" by simp
  then show ?thesis
    using run_nil_effect [OF still_agent_calls(1) [OF w(5)] e _ x] by auto
qed

lemma set_qos_tag_effect:
  assumes w: "store_world sys g view" and g: "srv_volumeGroup srv = Some g"
  shows "moves view (qos_tagged vid pubcontext) (set_qos_tag sys srv vid pubcontext)"
proof (cases "qos_tag pubcontext")
  case None
  then have "set_qos_tag sys srv vid pubcontext = ok ()"
    by (auto simp: qos_tag_def set_qos_tag_def split: option.splits)
  then show ?thesis by (simp add: moves_def qos_tagged_def ok_def ret_def)
next
  case (Some t)
  then have q: "set_qos_tag sys srv vid pubcontext =
      bind (LookupLogicalVolume sys (Some g) vid) (\<lambda>found. case found of
        Inl _ \<Rightarrow> panic nil_deref | Inr lv \<Rightarrow> bind (AddTag sys lv t) (\<lambda>_. ok ()))"
    using g by (auto simp: qos_tag_def set_qos_tag_def split: option.splits)
  show ?thesis
    unfolding moves_def
  proof
    fix s
    obtain s1 where f: "LookupLogicalVolume sys (Some g) vid s =
        (Ret (case find (\<lambda>lv. lv_Name lv = vid) (view (ext s)) of
           None \<Rightarrow> Inl ErrLogicalVolumeNotFound | Some i \<Rightarrow> Inr (lv_in (lv_Name i) (lv_LvSize i) g)), s1)"
      using FindLogicalVolume_view [OF store_worldD(1) [OF w]] unfolding LookupLogicalVolume_def by blast
    have v1: "view (ext s1) = view (ext s)" by (rule keepsD [OF keeps_lookup [OF store_worldD(5) [OF w]] f])
    note q1 = q [THEN fun_cong, of s, unfolded bind_Ret [where m = "LookupLogicalVolume sys (Some g) vid" and s = s, OF f]]
    show "qos_tagged vid pubcontext (view (ext s)) (view (ext (snd (set_qos_tag sys srv vid pubcontext s))))"
    proof (cases "find (\<lambda>lv. lv_Name lv = vid) (view (ext s))")
      case None
      then show ?thesis using v1 by (simp add: q1 panic_def qos_tagged_def)
    next
      case found: (Some i)
      then have nm: "lv_Name i = vid" by (auto simp: find_Some_iff)
      obtain r s2 where a: "AddTag sys (lv_in vid (lv_LvSize i) g) t s1 = (r, s2)"
        by (cases "AddTag sys (lv_in vid (lv_LvSize i) g) t s1")
      then have "snd (set_qos_tag sys srv vid pubcontext s) = s2"
        using found nm by (cases r) (simp_all add: q1 bind_def ok_def ret_def)
      with AddTag_effect [OF w a] v1 Some show ?thesis by (simp add: qos_tagged_def)
    qed
  qed
qed

lemma qos_tagged_refl: "qos_tagged vid pc v v"
  by (simp add: qos_tagged_def)

lemma moves_access:
  "(\<And>b. moves view R (h b)) \<Longrightarrow> (\<And>mnt. moves view R (k mnt)) \<Longrightarrow> moves view R m \<Longrightarrow>
     moves view R (case a of None \<Rightarrow> m | Some (AccessBlock b) \<Rightarrow> h b | Some (AccessMount mnt) \<Rightarrow> k mnt)"
  by (auto split: option.split AccessType.split)

lemma moves_if: "moves view R m \<Longrightarrow> moves view R n \<Longrightarrow> moves view R (if b then m else n)"
  by simp

lemma NodePublishVolume_tags:
  assumes w: "store_world sys g view" and g: "srv_volumeGroup srv = Some g"
  shows "moves view (qos_tagged (np_volume_id request) (np_publish_context request)) (NodePublishVolume sys srv request)"
proof -
  note n = store_worldD(3,4) [OF w]
  note q = set_qos_tag_effect [OF w g]
  note k = keeps_mounting [OF n(1)] keeps_node_parts [OF n(2)]
  have "moves view (qos_tagged (np_volume_id request) (np_publish_context request)) (publish_at sys srv request source)"
    for source
    unfolding publish_at_def Let_def
    by (intro moves_bind moves_access moves_if moves_tryE q qos_tagged_refl steady_ProxyMode k
        moves_keeps [OF qos_tagged_refl] steady_panic)
  then show ?thesis
    unfolding NodePublishVolume_def by (intro moves_tryE qos_tagged_refl k)
qed

section \<open>The plugin as a store of volumes\<close>

text \<open>What one request to any of the services may do to the volumes.\<close>

inductive store_allowed :: "string list \<Rightarrow> plugin_request \<Rightarrow> lvsItem list \<Rightarrow> lvsItem list \<Rightarrow> bool"
  for server_tags where
  unchanged: "store_allowed server_tags r v v"
| by_controller: "allowed server_tags r v v' \<Longrightarrow> store_allowed server_tags (ToController r) v v'"
| by_node: "qos_tag (np_publish_context r) = Some t \<Longrightarrow> tagged (np_volume_id r) t v v' \<Longrightarrow>
     store_allowed server_tags (ToNode (NodePublish r)) v v'"

inductive_simps store_allowed_identity [simp]: "store_allowed server_tags (ToIdentity r) v v'"
inductive_simps store_allowed_info [simp]: "store_allowed server_tags (ToNode NodeInfo) v v'"
inductive_simps store_allowed_unpublish [simp]: "store_allowed server_tags (ToNode (NodeUnpublish r)) v v'"

lemma keeps_identity:
  assumes "others_still sys view" and "still view (sys_readfile sys ''/proc/modules'')"
  shows "view (ext (serve_identity (identity_server sys v srv) req s)) = view (ext s)"
proof -
  have "keeps view (Probe sys srv)"
    unfolding Probe_def probe_modules_def listModules_def LookupVolumeGroup_def Let_def
    by (intro keeps_intros assms; simp)
  moreover have "keeps view (GetPluginInfo v srv :: ('a, GetPluginInfoResponse) rpc)"
    and "keeps view (GetPluginCapabilities srv :: ('a, ServiceCapability list) rpc)"
    unfolding GetPluginInfo_def GetPluginCapabilities_def Let_def by (intro keeps_intros)+
  ultimately show ?thesis
    by (cases req) (simp_all add: identity_server_def steady_def)
qed

lemma serve_node_store:
  assumes w: "store_world sys g view" and g: "srv_volumeGroup srv = Some g"
  shows "store_allowed server_tags (ToNode req) (view (ext s))
    (view (ext (serve_node (node_service sys srv removing filesystems) req s)))"
proof (cases req)
  case (NodePublish r)
  have "qos_tagged (np_volume_id r) (np_publish_context r) (view (ext s))
      (view (ext (serve_node (node_service sys srv removing filesystems) req s)))"
    using NodePublishVolume_tags [OF w g, of r]
    by (auto simp: NodePublish node_service_publish moves_def qos_tagged_refl split: option.split)
  then show ?thesis by (auto simp: NodePublish qos_tagged_def intro: store_allowed.intros)
next
  case (NodeUnpublish r)
  then show ?thesis
    using keeps_mounting(4) [OF store_worldD(3) [OF w], of srv r]
    by (auto simp: node_service_unpublish steady_def intro: store_allowed.unchanged split: option.split)
next
  case NodeInfo
  then show ?thesis
    using keeps_node_parts(7) [OF store_worldD(4) [OF w]] by (simp add: node_service_info steady_def)
qed

lemma serve_plugin_store:
  assumes w: "store_world sys g view" and g: "srv_volumeGroup srv = Some g"
  shows "store_allowed (srv_tags srv) req (view (ext s))
    (view (ext (serve_plugin (served sys v sock limit metrics srv) req s)))"
proof (cases req)
  case (ToIdentity r)
  then show ?thesis
    using keeps_identity [OF store_worldD(5) [OF w] node_stillD(14) [OF store_worldD(4) [OF w]]]
    by (simp add: served_services)
next
  case (ToController r)
  then show ?thesis
    using serve_allowed [OF store_worldD(1) [OF w] g] by (simp add: served_services store_allowed.by_controller)
next
  case (ToNode r)
  then show ?thesis using serve_node_store [OF w g] by (simp add: served_services)
qed

interpretation plugin_volumes: simulation "serve_plugin (served sys v sock limit metrics srv)" "\<lambda>s. view (ext s)"
    "store_allowed (srv_tags srv)" "store_world sys g view \<and> srv_volumeGroup srv = Some g"
  for sys v sock limit metrics srv view g
  by unfold_locales (blast intro: serve_plugin_store)

text \<open>Adding a tag that is not the tag of a name leaves the names as they were.\<close>

lemma tagged_named:
  assumes "tagged vid t v v'" and "t \<noteq> volumeNameToTag n"
  shows "length (filter (named n) v') = length (filter (named n) v)"
proof -
  have "list_all2 (\<lambda>it it'. named n it' = named n it) v v'"
    by (rule list_all2_mono [OF assms(1) [unfolded tagged_def]])
       (use assms(2) in \<open>auto simp: named_def split: if_splits\<close>)
  then show ?thesis by (induction rule: list_all2_induct) simp_all
qed

lemma tagged_names: "tagged vid t v v' \<Longrightarrow> map lv_Name v' = map lv_Name v"
proof (unfold tagged_def, induction rule: list_all2_induct)
  case (Cons it v it' v')
  moreover have "lv_Name it' = lv_Name it"
    using Cons.hyps(1) by (cases "lv_Name it = vid") (auto dest: arg_cong [where f = lv_Name])
  ultimately show ?case by simp
qed simp

lemma qos_not_name: "qos_tag pc = Some t \<Longrightarrow> t \<noteq> volumeNameToTag n"
  using hd_volumeNameToTag [of n] by (auto simp: qos_tag_def dest: arg_cong [where f = hd] split: option.splits)

lemma consistent_store_allowed:
  assumes "store_allowed server_tags r v v'" and "\<And>m. volumeNameToTag m \<notin> set server_tags" and "consistent v"
  shows "consistent v'"
  using assms(1)
proof cases
  case (by_node r t)
  have "length (filter (named n) v') = length (filter (named n) v)" for n
    by (rule tagged_named [OF by_node(3) qos_not_name [OF by_node(2)]])
  then show ?thesis
    using assms(3) tagged_names [OF by_node(3)] by (simp add: consistent_def)
qed (use assms consistent_allowed in auto)

section \<open>The plugin and the mount table\<close>

text \<open>What one request to any of the services may do to the mount table.\<close>

inductive table_allowed :: "(string \<Rightarrow> bool) \<Rightarrow> plugin_request \<Rightarrow> kmount list \<Rightarrow> kmount list \<Rightarrow> bool"
  for real where
  table_unchanged: "table_allowed real r v v"
| table_by_node: "node_allowed real r v v' \<Longrightarrow> table_allowed real (ToNode r) v v'"

inductive_simps table_allowed_identity [simp]: "table_allowed real (ToIdentity r) v v'"
inductive_simps table_allowed_controller [simp]: "table_allowed real (ToController r) v v'"

text \<open>Creating and removing volumes is no mounting.\<close>

definition table_world :: "'w sys \<Rightarrow> (string \<Rightarrow> bool) \<Rightarrow> ('w \<Rightarrow> node_view) \<Rightarrow> bool" where
  "table_world sys real view \<longleftrightarrow> mount_world sys real view \<and>
     (\<forall>cmd args. cmd \<in> {''lvcreate'', ''lvremove''} \<longrightarrow>
        tool_effect sys (\<lambda>w. nv_mounts (view w)) cmd args (\<lambda>_ v v'. v' = v))"

lemma keeps_changes:
  assumes o: "others_still sys mv"
    and c: "\<And>cmd args. cmd \<in> {''lvcreate'', ''lvremove''} \<Longrightarrow> tool_effect sys mv cmd args (\<lambda>_ v v'. v' = v)"
  shows "keeps mv (CreateVolume sys srv r1)" "keeps mv (DeleteVolume sys srv r2)"
proof -
  have run: "keeps mv (run_nil sys cmd args)" if "cmd \<in> {''lvcreate'', ''lvremove''}" for cmd args
    unfolding run_nil_def by (intro keeps_intros keeps_run_raw_tool still_agent_calls [OF o] c that)
  show "keeps mv (CreateVolume sys srv r1)"
    unfolding CreateVolume_def new_volume_def CreateLogicalVolume_def Let_def
    by (intro keeps_intros o run; simp)
  show "keeps mv (DeleteVolume sys srv r2)"
    unfolding DeleteVolume_def Remove_lv_def with_lv_path_def by (intro keeps_intros o run; simp)
qed

lemma serve_keeps:
  assumes o: "others_still sys mv"
    and c: "\<And>cmd args. cmd \<in> {''lvcreate'', ''lvremove''} \<Longrightarrow> tool_effect sys mv cmd args (\<lambda>_ v v'. v' = v)"
  shows "mv (ext (serve (controller_service sys srv removing filesystems) req s)) = mv (ext s)"
proof -
  have ch: "keeps mv (CreateVolume sys srv r1)" "keeps mv (DeleteVolume sys srv r2)" for r1 r2
    by (rule keeps_changes [OF o], erule c)+
  note defs = controller_service_def ControllerServerValidator_def checked_GetCapacity_def controller_server_def
  show ?thesis
    by (cases req) (simp_all add: defs ch [THEN keeps_check_first, unfolded steady_def]
        keeps_check_first [OF keeps_other_rpcs(3) [OF o], unfolded steady_def]
        keeps_check_first [OF keeps_other_rpcs(5) [OF o], unfolded steady_def]
        keeps_other_rpcs [OF o, unfolded steady_def])
qed

lemma serve_keeps_table:
  assumes "table_world sys real view"
  shows "mnts view (serve (controller_service sys srv removing filesystems) req s) = mnts view s"
  by (rule serve_keeps [where mv = "\<lambda>w. nv_mounts (view w)"])
    (use assms in \<open>auto simp: table_world_def mount_world_def mounts_still_def node_still_def\<close>)

lemma serve_plugin_table:
  assumes w: "table_world sys real view" and p: "\<not> proxied s"
  shows "table_allowed real req (mnts view s) (mnts view (serve_plugin (served sys v sock limit metrics srv) req s))"
proof (cases req)
  case (ToIdentity r)
  have n: "node_still sys (\<lambda>w. nv_mounts (view w))"
    using w by (simp add: table_world_def mount_world_def mounts_still_def)
  show ?thesis
    using keeps_identity [OF node_stillD(1) [OF n] node_stillD(14) [OF n]] by (simp add: ToIdentity served_services)
next
  case (ToController r)
  then show ?thesis using serve_keeps_table [OF w] by (simp add: served_services)
next
  case (ToNode r)
  have "mount_world sys real view" using w by (simp add: table_world_def)
  then show ?thesis
    using serve_node_allowed [OF _ p] by (simp add: ToNode served_services table_by_node)
qed

interpretation plugin_table: simulation_while "serve_plugin (served sys v sock limit metrics srv)"
    "\<lambda>s. nv_mounts (view (ext s))" "table_allowed real" "table_world sys real view" "\<lambda>s. \<not> proxied s"
  for sys v sock limit metrics srv real view
  by unfold_locales (simp_all add: serve_plugin_table proxied_agent [OF serve_plugin_agent])

fun paths_real :: "(string \<Rightarrow> bool) \<Rightarrow> plugin_request \<Rightarrow> bool" where
  "paths_real real (ToNode r) = (case target_of_request r of Some p \<Rightarrow> real p | None \<Rightarrow> True)"
| "paths_real real _ = True"

lemma one_per_path_table:
  "table_allowed real r v v' \<Longrightarrow> paths_real real r \<Longrightarrow> one_per_path v \<Longrightarrow> one_per_path v'"
  by (cases rule: table_allowed.cases) (auto intro: one_per_path_allowed)

text \<open>Requests to any service, none of them to the node about this path.\<close>

fun plugin_elsewhere :: "(string \<Rightarrow> bool) \<Rightarrow> string \<Rightarrow> plugin_request \<Rightarrow> bool" where
  "plugin_elsewhere real target (ToNode r) = elsewhere real target r"
| "plugin_elsewhere real target _ = True"

lemma mounts_at_plugin_run:
  assumes "table_world sys real view" and "\<not> proxied s" and "list_all (plugin_elsewhere real target) reqs"
  shows "mounts_at target (mnts view (fold (serve_plugin (served sys v sock limit metrics srv)) reqs s)) =
    mounts_at target (mnts view s)"
proof (rule plugin_table.run_preserves [where I = "\<lambda>v. mounts_at target v = mounts_at target (mnts view s)", OF assms(1,2)])
  fix r v v'
  assume r: "r \<in> set reqs" and same: "mounts_at target v = mounts_at target (mnts view s)"
    and "table_allowed real r v v'"
  from this(3) show "mounts_at target v' = mounts_at target (mnts view s)"
  proof cases
    case (table_by_node q)
    with r assms(3) have "elsewhere real target q" by (auto simp: list_all_iff)
    with mounts_at_allowed table_by_node(2) same show ?thesis by metis
  qed (use same in simp)
qed simp

section \<open>A host\<close>

text \<open>A group with room for one volume, which takes one tag, on a kernel with a mount table.\<close>

definition host_tools :: "string \<Rightarrow> string list \<Rightarrow> bool \<times> bool \<Rightarrow> exec_result \<times> (bool \<times> bool)" where
  "host_tools cmd args st = (case st of (full, qos) \<Rightarrow>
     (let good = \<lambda>out. \<lparr>er_stdout = out, er_stderr = '''', er_error = None\<rparr>;
          bad = \<lparr>er_stdout = '''', er_stderr = ''no'', er_error = Some ''exit status 5''\<rparr> in
      if cmd = ''lvcreate'' then
        if \<not> full \<and> args = lvcreate_args [''--add-tag=VN.data''] 8 ''csilv0'' ''vg0'' [] then (good '''', True, False)
        else (bad, st)
      else if cmd = ''lvremove'' then
        if args = [''-f'', ''vg0/csilv0''] then (good '''', False, False) else (bad, st)
      else if cmd = ''lvchange'' \<and> args \<noteq> [] \<and> hd args = ''--addtag'' then
        if full \<and> args = [''--addtag'', ''qos-5-5'', ''vg0/csilv0''] then (good '''', True, True) else (bad, st)
      else if cmd = ''vgs'' then (good ''{\"report\":[{\"vg\":[{\"vg_name\":\"vg0\"}]}]}'', st)
      else if cmd = ''ls'' then (good '''', st)
      else (good (if full
        then if qos
          then ''{\"report\":[{\"lv\":[{\"lv_name\":\"csilv0\",\"vg_name\":\"vg0\",\"lv_tags\":\"VN.data,qos-5-5\",\"lv_path\":\"/dev/sbvg_vg0/csilv0\"}]}]}''
          else ''{\"report\":[{\"lv\":[{\"lv_name\":\"csilv0\",\"vg_name\":\"vg0\",\"lv_tags\":\"VN.data\",\"lv_path\":\"/dev/sbvg_vg0/csilv0\"}]}]}''
        else ''{\"report\":[{\"lv\":[]}]}''), st)))"

type_synonym host_state = "(bool \<times> bool) \<times> kmount list"

definition host_run :: "string \<Rightarrow> string list \<Rightarrow> host_state \<Rightarrow> exec_result \<times> host_state" where
  "host_run cmd args w = (case host_tools cmd args (fst w) of (r, st) \<Rightarrow> (r, st, snd w))"

definition on_kernel :: "(kmount list \<Rightarrow> 'a \<times> kmount list) \<Rightarrow> host_state \<Rightarrow> 'a \<times> host_state" where
  "on_kernel f w = (case f (snd w) of (r, t) \<Rightarrow> (r, fst w, t))"

text \<open>The agent of the host mounts on the same kernel.\<close>

definition asked_flags :: "MountVolumeReq \<Rightarrow> nat" where
  "asked_flags q = (if mv_FsType q = ''block'' then MS_BIND else if mv_ReadOnly q then MS_RDONLY else 0)"

definition host :: "host_state sys" where
  "host = quiet\<lparr>sys_run := host_run,
     sys_MercuryProxy := \<lambda>c cmd args w. (case host_run cmd args w of (r, w') \<Rightarrow>
       (case er_error r of None \<Rightarrow> Inr (er_stdout r) | Some e \<Rightarrow> Inl (TextError e), w')),
     sys_combined := \<lambda>cmd args. on_kernel (sys_combined tiny_kernel cmd args),
     sys_readfile := \<lambda>p. on_kernel (sys_readfile tiny_kernel p),
     sys_mount := \<lambda>source target fstype flags opts. on_kernel (sys_mount tiny_kernel source target fstype flags opts),
     sys_unmount := \<lambda>p flags. on_kernel (sys_unmount tiny_kernel p flags),
     sys_UnMountVolume := \<lambda>c p. on_kernel (sys_UnMountVolume tiny_kernel c p),
     sys_MountVolume := \<lambda>c q. on_kernel (sys_mount tiny_kernel (mv_SourcePath q) (mv_TargetPath q) (mv_FsType q)
       (asked_flags q) (mv_MountOptions q)),
     sys_MountInfo := \<lambda>c w. (Inr (mountinfo_text (filter well_formed (snd w))), w)\<rparr>"

definition host_item :: "bool \<Rightarrow> lvsItem" where
  "host_item qos = small_item\<lparr>lv_LvPath := ''/dev/sbvg_vg0/csilv0'', lv_LvTags := (if qos then ''VN.data,qos-5-5'' else ''VN.data'')\<rparr>"

definition host_volumes :: "host_state \<Rightarrow> lvsItem list" where
  "host_volumes w = (case fst w of (full, qos) \<Rightarrow> if full then [host_item qos] else [])"

definition host_mounts :: "host_state \<Rightarrow> node_view" where
  "host_mounts w = tiny_view (snd w)"

lemma host_effect:
  assumes "\<And>w r w'. host_run cmd args w = (r, w') \<Longrightarrow> R (er_error r = None) (view w) (view w')"
  shows "tool_effect host view cmd args R"
proof -
  have "R (\<not> isl (case er_error r of None \<Rightarrow> Inr (er_stdout r) | Some e \<Rightarrow> Inl (TextError e))) (view w) (view w')"
    if "host_run cmd args w = (r, w')" for w r w'
    using assms [OF that] by (cases "er_error r") simp_all
  with assms show ?thesis
    unfolding tool_effect_def host_def by (simp split: prod.split)
qed

lemma on_kernel_volumes: "still host_volumes (on_kernel f)"
  by (simp add: still_def on_kernel_def host_volumes_def split: prod.split)

lemma on_kernel_mounts: "still mv f \<Longrightarrow> still (\<lambda>w. mv (snd w)) (on_kernel f)"
  by (auto simp: still_def on_kernel_def split: prod.split) (metis snd_conv)

lemma host_run_mounts: "still (\<lambda>w. mv (snd w)) (host_run cmd args)"
  by (simp add: still_def host_run_def split: prod.split)

lemma host_item_sel:
  "lv_Name (host_item qos) = ''csilv0''"
  "tagSet (host_item qos) = (if qos then {''VN.data'', ''qos-5-5''} else {''VN.data''})"
  "host_item True = (host_item qos)\<lparr>lv_LvTags := lv_LvTags (host_item True)\<rparr>"
proof -
  show "lv_Name (host_item qos) = ''csilv0''" by (simp add: host_item_def small_item_def)
  have "tagList (host_item True) = [''VN.data'', ''qos-5-5'']" "tagList (host_item False) = [''VN.data'']" by code_simp+
  then show "tagSet (host_item qos) = (if qos then {''VN.data'', ''qos-5-5''} else {''VN.data''})"
    by (cases qos) (simp_all add: tagList_def tagSet_def)
  show "host_item True = (host_item qos)\<lparr>lv_LvTags := lv_LvTags (host_item True)\<rparr>"
    by (simp add: host_item_def)
qed

lemma host_item_tagged: "tagged ''csilv0'' ''qos-5-5'' [host_item qos] [host_item True]"
proof -
  have "tagSet (host_item True) = insert ''qos-5-5'' (tagSet (host_item qos))"
    unfolding host_item_sel(2) by (cases qos) auto
  then show ?thesis using host_item_sel(3) [of qos] by (simp add: tagged_def host_item_sel(1))
qed

lemma host_lvs: "reports (er_stdout (fst (host_run ''lvs'' args w))) (host_volumes w)"
proof -
  have "json_parse ''{\"report\":[{\"lv\":[{\"lv_name\":\"csilv0\",\"vg_name\":\"vg0\",\"lv_tags\":\"VN.data\",\"lv_path\":\"/dev/sbvg_vg0/csilv0\"}]}]}'' =
      Some (JObj [(''report'', JArr [JObj [(''lv'', JArr [JObj [(''lv_name'', JStr ''csilv0''), (''vg_name'', JStr ''vg0''),
        (''lv_tags'', JStr ''VN.data''), (''lv_path'', JStr ''/dev/sbvg_vg0/csilv0'')]])]])])"
    and "json_parse ''{\"report\":[{\"lv\":[{\"lv_name\":\"csilv0\",\"vg_name\":\"vg0\",\"lv_tags\":\"VN.data,qos-5-5\",\"lv_path\":\"/dev/sbvg_vg0/csilv0\"}]}]}'' =
      Some (JObj [(''report'', JArr [JObj [(''lv'', JArr [JObj [(''lv_name'', JStr ''csilv0''), (''vg_name'', JStr ''vg0''),
        (''lv_tags'', JStr ''VN.data,qos-5-5''), (''lv_path'', JStr ''/dev/sbvg_vg0/csilv0'')]])]])])"
    and "json_parse ''{\"report\":[{\"lv\":[]}]}'' = Some (JObj [(''report'', JArr [JObj [(''lv'', JArr [])]])])"
    by code_simp+
  then show ?thesis
    by (simp add: host_run_def host_tools_def host_volumes_def host_item_def small_item_def reports_def Unmarshal_def
        lvsOutput_def um_report_def um_struct_def um_slice_def um_lvsItem_def um_string_def map_sum_def ToLower_def
        lower_char_def split: prod.split)
qed

lemma host_run_other:
  assumes "host_run cmd args w = (r, w')" and "cmd \<noteq> ''lvcreate''" and "cmd \<noteq> ''lvremove''"
    and "\<not> (cmd = ''lvchange'' \<and> args \<noteq> [] \<and> hd args = ''--addtag'')"
  shows "w' = w"
proof -
  obtain full qos where w: "fst w = (full, qos)" by (cases "fst w")
  have "snd (host_tools cmd args (full, qos)) = (full, qos)"
    by (simp only: host_tools_def prod.case Let_def assms(2-4) if_False split: if_split) simp
  then show ?thesis
    using assms(1) w by (cases w) (simp add: host_run_def split: prod.splits)
qed

lemma harmless_other:
  "harmless cmd args \<Longrightarrow> cmd \<noteq> ''lvcreate'' \<and> cmd \<noteq> ''lvremove'' \<and> \<not> (cmd = ''lvchange'' \<and> args \<noteq> [] \<and> hd args = ''--addtag'')"
  by (auto simp: harmless_def report_tools_def scan_tools_def)

lemma host_other:
  assumes "cmd \<noteq> ''lvcreate''" and "cmd \<noteq> ''lvremove''"
    and "\<not> (cmd = ''lvchange'' \<and> args \<noteq> [] \<and> hd args = ''--addtag'')"
  shows "tool_effect host view cmd args (\<lambda>_ v v'. v' = v)"
  by (rule host_effect, rule arg_cong [where f = view], erule host_run_other [OF _ assms])

lemma host_lvm_world: "lvm_world host lake host_volumes"
proof -
  have s: "still host_volumes f" if "\<And>w. snd (f w) = w" for f :: "host_state \<Rightarrow> 'a \<times> host_state"
    using that by (simp add: still_def)
  have h: "tool_effect host host_volumes cmd args (\<lambda>_ v v'. v' = v)" if "harmless cmd args" for cmd args
    using harmless_other [OF that] host_other by blast
  have "others_still host host_volumes"
    unfolding others_still_def
    by (intro conjI allI impI h) (simp_all add: host_def quiet_def still_def on_kernel_def host_volumes_def split: prod.split)
  moreover have "lvs_faithful host lake host_volumes"
  proof -
    have ok: "er_error (fst (host_run ''lvs'' args w)) = None" for args w
      by (simp add: host_run_def host_tools_def Let_def split: prod.split)
    show ?thesis
      unfolding lvs_faithful_def
    proof (intro conjI allI)
      fix w
      show "\<forall>it\<in>set (host_volumes w). lv_VgName it = vgroup_name lake"
        by (auto simp: host_volumes_def host_item_def small_item_def lake_def split: prod.splits)
      show "er_error (fst (sys_run host ''lvs'' (report_args @ find_lv_args lake) w)) = None"
        and "reports (er_stdout (fst (sys_run host ''lvs'' (report_args @ find_lv_args lake) w))) (host_volumes w)"
        using ok host_lvs by (simp_all add: host_def)
      show "case fst (sys_MercuryProxy host url ''lvs'' (report_args @ find_lv_args lake) w) of
          Inl _ \<Rightarrow> False | Inr out \<Rightarrow> reports out (host_volumes w)" for url
        using ok [of "report_args @ find_lv_args lake" w] host_lvs [of "report_args @ find_lv_args lake" w]
        by (cases "host_run ''lvs'' (report_args @ find_lv_args lake) w") (simp add: host_def)
    qed (simp add: host_def quiet_def)
  qed
  moreover have "lvm_changes host lake host_volumes"
    unfolding lvm_changes_def
  proof (intro conjI allI impI host_effect)
    fix tags sz nm flags w r w'
    assume "host_run ''lvcreate'' (lvcreate_args (map (\<lambda>t. ''--add-tag='' @ t) tags) sz nm (vgroup_name lake) flags) w = (r, w')"
    then show "creates nm (set tags) (host_volumes w) (host_volumes w') \<or>
        \<not> er_error r = None \<and> host_volumes w' = host_volumes w"
      using small_create_args [of tags sz nm flags]
      by (auto simp: host_run_def host_tools_def host_volumes_def creates_def inserted_def host_item_sel Let_def
          split: if_splits prod.splits)
  next
    fix nm w r w'
    assume "host_run ''lvremove'' [''-f'', vgroup_name lake @ ''/'' @ nm] w = (r, w')"
    then show "host_volumes w' = without nm (host_volumes w) \<or> \<not> er_error r = None \<and> host_volumes w' = host_volumes w"
      by (auto simp: host_run_def host_tools_def host_volumes_def host_item_def small_item_def without_def lake_def Let_def
          split: if_splits prod.splits)
  qed
  ultimately show ?thesis by (simp add: lvm_world_def)
qed

lemma host_tags: "lvm_tags host lake host_volumes"
  unfolding lvm_tags_def
proof (intro allI host_effect)
  fix nm t w r w'
  assume "host_run ''lvchange'' [''--addtag'', t, vgroup_name lake @ ''/'' @ nm] w = (r, w')"
  then have "\<not> er_error r = None \<and> fst w' = fst w \<or>
      t = ''qos-5-5'' \<and> nm = ''csilv0'' \<and> (\<exists>qos. fst w = (True, qos) \<and> fst w' = (True, True))"
    by (auto simp: host_run_def host_tools_def lake_def Let_def split: if_splits prod.splits)
  then show "tagged nm t (host_volumes w) (host_volumes w') \<or> \<not> er_error r = None \<and> host_volumes w' = host_volumes w"
    using host_item_tagged by (auto simp: host_volumes_def)
qed

lemma host_store: "store_world host lake host_volumes"
proof -
  have "tool_effect host host_volumes cmd args (\<lambda>_ v v'. v' = v)" if "cmd \<in> {''iscsiadm'', ''lsscsi''}" for cmd args
    using that by (intro host_other) auto
  moreover have "still host_volumes (ls_by_path host)"
    by (simp add: still_def host_def host_run_def host_tools_def Let_def split: prod.split)
  moreover have "others_still host host_volumes"
    using host_lvm_world by (simp add: lvm_world_def)
  ultimately have "node_calls_still host host_volumes"
    unfolding node_calls_still_def node_still_def
    by (simp add: host_def on_kernel_volumes) (simp add: quiet_def still_def)
  with host_lvm_world host_tags show ?thesis by (simp add: store_world_def)
qed

lemma host_table: "table_world host (\<lambda>_. True) host_mounts"
proof -
  have run: "tool_effect host (\<lambda>w. nv_mounts (host_mounts w)) cmd args (\<lambda>_ v v'. v' = v)" for cmd args
    by (rule host_effect) (auto simp: host_mounts_def host_run_def split: prod.splits)
  have tiny: "mount_reads tiny_kernel tiny_view" "mounts_still tiny_kernel (\<lambda>w. nv_mounts (tiny_view w))"
      "kernel_mounts tiny_kernel (\<lambda>_. True) tiny_view"
    using tiny_world by (simp_all add: mount_world_def)
  have "mount_reads host host_mounts"
  proof -
    have "fst (ls_by_path host w) = nv_links (host_mounts w)" for w
      by (simp add: host_def host_mounts_def tiny_view_def host_run_def host_tools_def Let_def split: prod.split)
    moreover have "still host_mounts (ls_by_path host)"
      unfolding host_mounts_def by (simp add: host_def host_run_mounts)
    moreover have "still host_mounts (sys_readfile host ''/proc/self/mountinfo'')"
      using tiny(1) unfolding host_mounts_def by (simp add: host_def mount_reads_def on_kernel_mounts)
    moreover have "fst (sys_readfile host ''/proc/self/mountinfo'' w) = Inr (mountinfo_text (nv_mounts (host_mounts w)))" for w
      using tiny(1) by (simp add: host_def host_mounts_def mount_reads_def on_kernel_def split: prod.split)
        (metis fst_conv)
    ultimately show ?thesis
      using tiny(1) by (simp add: mount_reads_def) (simp add: host_mounts_def)
  qed
  moreover have "mounts_still host (\<lambda>w. nv_mounts (host_mounts w))"
  proof -
    have c: "still (\<lambda>w. nv_mounts (host_mounts w)) (sys_combined host cmd args)" for cmd args
      unfolding host_mounts_def by (simp add: host_def tiny_kernel_def still_def on_kernel_def)
    have r: "still (\<lambda>w. nv_mounts (host_mounts w)) (sys_readfile host p)" for p
      unfolding host_mounts_def by (simp add: host_def tiny_kernel_def still_def on_kernel_def)
    show ?thesis
      unfolding mounts_still_def node_still_def others_still_def
      by (simp add: run c r) (simp add: host_def quiet_def still_def)
  qed
  moreover have "kernel_mounts host (\<lambda>_. True) host_mounts"
    using tiny(3) unfolding kernel_mounts_def
    by (auto simp: host_def host_mounts_def on_kernel_def split: prod.splits)
  ultimately show ?thesis using run by (simp add: table_world_def mount_world_def)
qed

section \<open>Both at once\<close>

definition plugin_allowed ::
  "string list \<Rightarrow> (string \<Rightarrow> bool) \<Rightarrow> plugin_request \<Rightarrow> lvsItem list \<times> kmount list \<Rightarrow> lvsItem list \<times> kmount list \<Rightarrow> bool" where
  "plugin_allowed server_tags real r x y \<longleftrightarrow>
     store_allowed server_tags r (fst x) (fst y) \<and> table_allowed real r (snd x) (snd y)"

interpretation plugin_both: simulation_while "serve_plugin (served sys v sock limit metrics srv)"
    "\<lambda>s. (view (ext s), nv_mounts (mview (ext s)))" "plugin_allowed (srv_tags srv) real"
    "store_world sys g view \<and> srv_volumeGroup srv = Some g \<and> table_world sys real mview" "\<lambda>s. \<not> proxied s"
  for sys v sock limit metrics srv real view mview g
  by unfold_locales
     (auto simp: plugin_allowed_def proxied_agent [OF serve_plugin_agent] intro: serve_plugin_store serve_plugin_table)

section \<open>Properties of the plugin\<close>

definition lone_plugin :: "host_state Plugin" where
  "lone_plugin = served host default_version ''/csi.sock'' 1 None small_server"

definition qos_publish :: plugin_request where
  "qos_publish = ToNode (NodePublish \<lparr>np_volume_id = ''csilv0'',
     np_publish_context = Some [(''datapath'', ''direct''), (''iopspergb'', ''5''), (''mbpspergb'', ''5'')],
     np_target_path = ''/data'',
     np_volume_capability = Some \<lparr>access_type = Some (AccessMount
       (Some \<lparr>fs_type = ''xfs'', mount_flags = [], volume_mount_group = ''''\<rparr>)), access_mode = Some SINGLE_NODE_WRITER\<rparr>,
     np_readonly = False\<rparr>)"

text \<open>C10: in a group where no name has two volumes and no id is used twice, as in an empty one, this
  stays so, whichever services the requests go to: QoS tags of publications do not interfere. It is
  provided that no configured tag is the tag of a name, and that \<open>lvs\<close> answers and reports the
  volumes of the group (\<open>store_world\<close>): C38 shows what a lookup that fails does.\<close>

theorem names_unique_across_services:
  assumes "store_world sys g view" and "srv_volumeGroup srv = Some g"
    and "\<And>m. volumeNameToTag m \<notin> set (srv_tags srv)" and "consistent (view (ext s))"
  shows "consistent (view (ext (fold (serve_plugin (served sys v sock limit metrics srv)) reqs s)))"
  using plugin_volumes.run_preserves [of sys g view srv reqs consistent s v sock limit metrics] assms
    consistent_store_allowed by blast

theorem names_unique_across_services_witness:
  "consistent (host_volumes (ext (fold (serve_plugin lone_plugin)
     [ToController (Create plain_create), qos_publish, ToController (Create plain_create), ToIdentity Probing]
     (quiet_state ((False, False), [])))))"
  unfolding lone_plugin_def
  by (rule names_unique_across_services [OF host_store small_group])
     (simp_all add: small_server_def quiet_state_def host_volumes_def consistent_def)

text \<open>C11: on the node itself, without the agent, no path ever has two mounts of devices \<open>/dev/sbvg_...\<close>, if
  none had, whichever services the requests go to, as long as those to the node name their targets
  the way the kernel shows them (\<open>real\<close>). Mounts with another source do not count: the bind mounts
  of block volumes, of which C39 puts two at one path, and volumes of groups with other names.\<close>

theorem paths_unique_across_services:
  assumes "table_world sys real view" and "\<not> proxied s" and "one_per_path (mnts view s)"
    and "list_all (paths_real real) reqs"
  shows "one_per_path (mnts view (fold (serve_plugin (served sys v sock limit metrics srv)) reqs s))"
  using plugin_table.run_preserves [where I = one_per_path, OF assms(1,2) _ assms(3)] assms(4) one_per_path_table
  by (simp add: list_all_iff)

theorem paths_unique_across_services_witness:
  "one_per_path (mnts host_mounts (fold (serve_plugin lone_plugin)
     [ToController (Create plain_create), qos_publish, ToController (Delete \<lparr>dv_volume_id = ''csilv0''\<rparr>), qos_publish]
     (quiet_state ((False, False), []))))"
  unfolding lone_plugin_def
  by (rule paths_unique_across_services [OF host_table])
     (simp_all add: proxied_def quiet_state_def one_per_path_def mounts_at_def host_mounts_def tiny_view_def qos_publish_def)

text \<open>A volume of a given name and id stays until it is deleted by this id.\<close>

definition holds_volume :: "string \<Rightarrow> string \<Rightarrow> lvsItem list \<Rightarrow> bool" where
  "holds_volume n vid v \<longleftrightarrow> (\<exists>it\<in>set v. named n it \<and> lv_Name it = vid)"

lemma tagged_holds: "tagged nm t v v' \<Longrightarrow> holds_volume n vid v \<Longrightarrow> holds_volume n vid v'"
proof (unfold tagged_def, induction rule: list_all2_induct)
  case (Cons it v it' v')
  have "lv_Name it' = lv_Name it \<and> tagSet it \<subseteq> tagSet it'"
    using Cons.hyps(1) by (cases "lv_Name it = nm") (auto dest: arg_cong [where f = lv_Name])
  then show ?case using Cons.IH Cons.prems by (auto simp: holds_volume_def named_def)
qed (simp add: holds_volume_def)

lemma store_keeps_volume:
  assumes "store_allowed server_tags r v v'" and "\<And>d. r = ToController (Delete d) \<Longrightarrow> dv_volume_id d \<noteq> vid"
    and "holds_volume n vid v"
  shows "holds_volume n vid v'"
  using assms(1)
proof cases
  case (by_controller q)
  obtain it where it: "it \<in> set v" "named n it" "lv_Name it = vid" using assms(3) by (auto simp: holds_volume_def)
  have "it \<in> set v'"
    using allowed_keeps_volume [OF by_controller(2) it(1)] assms(2) it(3) by_controller(1) by auto
  with it show ?thesis by (auto simp: holds_volume_def)
next
  case (by_node q t)
  then show ?thesis using tagged_holds assms(3) by blast
qed (use assms(3) in simp)

lemma holds_find:
  assumes "consistent v" and "holds_volume n vid v"
  shows "\<exists>it. find (named n) v = Some it \<and> lv_Name it = vid"
proof -
  obtain it where it: "it \<in> set v" "named n it" "lv_Name it = vid" using assms(2) by (auto simp: holds_volume_def)
  then obtain jt where f: "find (named n) v = Some jt" by (cases "find (named n) v") (auto simp: find_None_iff)
  note jt = find_mem [OF f]
  have "jt = it" using consistent_named assms(1) jt it by metis
  with f it(3) show ?thesis by simp
qed

text \<open>C6: creating a volume is idempotent: once a creation has succeeded, a later creation of the
  same name that succeeds returns the same volume and changes nothing, whatever requests came to
  any of the services in between, publications with QoS tags included, as long as they did not
  delete that volume. It is provided that no configured tag is the tag of a name, that no name and
  no id was in use twice before (C10 keeps this), and that \<open>lvs\<close> answers and reports the volumes of
  the group (\<open>store_world\<close>).\<close>

theorem create_idempotent_across_services:
  assumes w: "store_world sys g view" and g: "srv_volumeGroup srv = Some g"
    and tags: "\<And>m. volumeNameToTag m \<notin> set (srv_tags srv)" and c: "consistent (view (ext s))"
    and p: "p = served sys v sock limit metrics srv"
    and first: "cs_CreateVolume (pl_controller p) r1 s = (Ret (Inr v1), s1)"
    and between: "\<And>d. ToController (Delete d) \<in> set reqs \<Longrightarrow> dv_volume_id d \<noteq> vol_volume_id v1"
    and again: "cs_CreateVolume (pl_controller p) r2 (fold (serve_plugin p) reqs s1) = (Ret (Inr v2), s2)"
    and name: "cv_name r2 = cv_name r1"
  shows "vol_volume_id v2 = vol_volume_id v1 \<and> view (ext s2) = view (ext (fold (serve_plugin p) reqs s1))"
proof -
  note lw = store_worldD(1) [OF w]
  note first' = service_success(1) [OF first [unfolded p served_services]]
  note again' = service_success(1) [OF again [unfolded p served_services]]
  have c1: "consistent (view (ext s1))"
    using CreateVolume_effect [OF lw g first'] consistent_allowed tags c by blast
  have h1: "holds_volume (cv_name r1) (vol_volume_id v1) (view (ext s1))"
    using CreateVolume_answer [OF lw g first'] by (simp add: holds_volume_def)
  define s3 where "s3 = fold (serve_plugin p) reqs s1"
  have "consistent (view (ext s3)) \<and> holds_volume (cv_name r1) (vol_volume_id v1) (view (ext s3))"
    unfolding s3_def p
  proof (rule plugin_volumes.run_preserves [where I = "\<lambda>v. consistent v \<and> holds_volume (cv_name r1) (vol_volume_id v1) v"])
    show "consistent y \<and> holds_volume (cv_name r1) (vol_volume_id v1) y"
      if "q \<in> set reqs" "consistent x \<and> holds_volume (cv_name r1) (vol_volume_id v1) x" "store_allowed (srv_tags srv) q x y"
      for q x y
    proof
      show "consistent y" by (rule consistent_store_allowed [OF that(3) tags]) (use that(2) in simp)
      show "holds_volume (cv_name r1) (vol_volume_id v1) y"
        by (rule store_keeps_volume [OF that(3)]) (use that(1,2) between in auto)
    qed
  qed (use w g c1 h1 in auto)
  then obtain it where "find (named (cv_name r2)) (view (ext s3)) = Some it" "lv_Name it = vol_volume_id v1"
    using holds_find name by metis
  then show ?thesis
    using CreateVolume_effect [OF lw g again'] by (simp add: s3_def p)
qed

text \<open>A run of the lone plugin. The trace is no part of what the plugin reads, so each request is
  evaluated in a state with an arbitrary one.\<close>

definition without_trace :: "'w gs \<Rightarrow> 'w gs" where
  "without_trace s = s\<lparr>trace := []\<rparr>"

definition host_at :: "host_state \<Rightarrow> call list \<Rightarrow> host_state gs" where
  "host_at w cs = (quiet_state w)\<lparr>trace := cs\<rparr>"

definition host_published :: host_state where
  "host_published = ((True, True), [tiny_mount ''/dev/sbvg_vg0/csilv0'' ''/data'' ''xfs'' 0])"

definition succeeded :: "(rpc_err + 'a) outcome \<Rightarrow> bool" where
  "succeeded r = (case r of Ret (Inr _) \<Rightarrow> True | _ \<Rightarrow> False)"

lemma host_atI: "without_trace s = quiet_state w \<Longrightarrow> s = host_at w (trace s)"
  by (cases s) (simp add: without_trace_def host_at_def quiet_state_def)

lemma succeeded_Ret: "succeeded r \<Longrightarrow> \<exists>x. r = Ret (Inr x)"
  by (auto simp: succeeded_def split: outcome.splits sum.splits)

abbreviation host_create :: "(host_state, Volume) rpc" where
  "host_create \<equiv> cs_CreateVolume (pl_controller lone_plugin) plain_create"

lemma host_creates: "succeeded (fst (host_create (quiet_state ((False, False), []))))"
  by code_simp

lemma host_created: "without_trace (snd (host_create (quiet_state ((False, False), [])))) = quiet_state ((True, False), [])"
  by code_simp

lemma host_publishes:
  "without_trace (serve_plugin lone_plugin qos_publish (host_at ((True, False), []) cs)) = quiet_state host_published"
  by code_simp

lemma host_creates_again: "succeeded (fst (host_create (host_at host_published cs)))"
  by code_simp

lemma host_session:
  "\<exists>v1 s1 v2 s2. host_create (quiet_state ((False, False), [])) = (Ret (Inr v1), s1) \<and>
     ext (serve_plugin lone_plugin qos_publish s1) = host_published \<and>
     host_create (serve_plugin lone_plugin qos_publish s1) = (Ret (Inr v2), s2)"
proof -
  define s1 where "s1 = snd (host_create (quiet_state ((False, False), [])))"
  define s where "s = serve_plugin lone_plugin qos_publish s1"
  obtain v1 where v1: "fst (host_create (quiet_state ((False, False), []))) = Ret (Inr v1)"
    using succeeded_Ret [OF host_creates] by blast
  have "without_trace s1 = quiet_state ((True, False), [])" unfolding s1_def by (rule host_created)
  from host_atI [OF this] have s1: "s1 = host_at ((True, False), []) (trace s1)" .
  have "without_trace s = quiet_state host_published"
    unfolding s_def by (subst s1) (rule host_publishes)
  from host_atI [OF this] have s: "s = host_at host_published (trace s)" .
  then obtain v2 where v2: "fst (host_create s) = Ret (Inr v2)"
    using succeeded_Ret [OF host_creates_again [of "trace s"]] by auto
  have "ext s = host_published" by (subst s) (simp add: host_at_def quiet_state_def)
  with outcome_state [OF v1] outcome_state [OF v2] show ?thesis
    unfolding s_def s1_def by blast
qed

theorem create_idempotent_across_services_witness:
  "\<exists>v1 s1 v2 s2. host_create (quiet_state ((False, False), [])) = (Ret (Inr v1), s1) \<and>
     host_create (serve_plugin lone_plugin qos_publish s1) = (Ret (Inr v2), s2) \<and> vol_volume_id v2 = vol_volume_id v1"
proof -
  obtain v1 s1 v2 s2 where run: "host_create (quiet_state ((False, False), [])) = (Ret (Inr v1), s1)"
      "host_create (serve_plugin lone_plugin qos_publish s1) = (Ret (Inr v2), s2)"
    using host_session by blast
  have "vol_volume_id v2 = vol_volume_id v1 \<and> host_volumes (ext s2) =
      host_volumes (ext (fold (serve_plugin lone_plugin) [qos_publish] s1))"
    by (rule create_idempotent_across_services [OF host_store small_group _ _ lone_plugin_def run(1) _ _ refl])
       (use run(2) in \<open>simp_all add: small_server_def quiet_state_def host_volumes_def consistent_def qos_publish_def\<close>)
  with run show ?thesis by blast
qed

section \<open>Publishing and unpublishing on the node itself\<close>

text \<open>C7: on the node itself, publishing the file system of a volume is idempotent: once a publication
  has succeeded, publishing in the same way again, with the same device path, mounts nothing and
  returns no error, whatever requests to the three services were served in between, unless they
  were to the node about this target. Without QoS limits in the context the answer is a success;
  with both it is a success or, when the volume is not found any more, a panic. This is for
  publications of a file system, not of a block device (see C39); for a device path
  \<open>/dev/sbvg_...\<close>; for a target that is the path the kernel shows (\<open>real\<close>); with nothing but such
  devices mounted there before; and without the agent, which may mount again.\<close>

theorem publish_idempotent:
  assumes w: "table_world sys real view" and p: "\<not> proxied s" and fs: "fs_publication request"
    and rt: "real (np_target_path request)"
    and source: "publish_source sys srv request s = (Ret (Inr source), s0)" and src: "is_lvm_path source"
    and only: "list_all lvm_mount (mounts_at (np_target_path request) (mnts view s))"
    and first: "NodePublishVolume sys srv request s = (Ret (Inr ()), s1)"
    and between: "list_all (plugin_elsewhere real (np_target_path request)) reqs"
    and s2: "s2 = fold (serve_plugin (served sys v sock limit metrics srv)) reqs s1"
    and source2: "publish_source sys srv request s2 = (Ret (Inr source), s2')"
    and again: "NodePublishVolume sys srv request s2 = (r, s3)"
  shows "mnts view s3 = mnts view s2 \<and> (\<forall>e. r \<noteq> Ret (Inl e)) \<and>
    (no_limits (np_publish_context request) \<longrightarrow> r = Ret (Inr ()))"
proof -
  have mw: "mount_world sys real view" using w by (simp add: table_world_def)
  obtain k ks where k: "mounts_at (np_target_path request) (mnts view s1) = k # ks"
    "\<And>t t0 r t'. \<not> proxied t \<Longrightarrow> mounts_at (np_target_path request) (mnts view t) = k # ks \<Longrightarrow>
       publish_source sys srv request t = (Ret (Inr source), t0) \<Longrightarrow> NodePublishVolume sys srv request t = (r, t') \<Longrightarrow>
       mnts view t' = mnts view t \<and> (\<forall>e. r \<noteq> Ret (Inl e)) \<and> (no_limits (np_publish_context request) \<longrightarrow> r = Ret (Inr ()))"
    using fs_published [OF mw p fs rt source src only first] by metis
  have p1: "\<not> proxied s1" using p proxied_agent [OF steadyD [OF keeps_agent_publish first]] by simp
  have "\<not> proxied s2" unfolding s2 by (rule plugin_table.run_good [OF p1])
  moreover have "mounts_at (np_target_path request) (mnts view s2) = k # ks"
    unfolding s2 using mounts_at_plugin_run [OF w p1 between] k(1) by simp
  ultimately show ?thesis using k(2) source2 again by blast
qed

text \<open>C8: on the node itself, unpublishing takes back what publishing a file system did: after a
  publication has mounted a volume at a target with nothing mounted, and any requests to the three
  services were served, none of them to the node about this target, a successful unpublication
  removes exactly that mount. The volume has a device path \<open>/dev/sbvg_...\<close> and the target is the
  path the kernel shows (\<open>real\<close>). A block volume stays mounted, see C39; a volume with another device path
  may, too.\<close>

theorem unpublish_reverts_publish:
  assumes w: "table_world sys real view" and p: "\<not> proxied s" and fs: "fs_publication request"
    and rt: "real (np_target_path request)"
    and source: "publish_source sys srv request s = (Ret (Inr source), s0)" and src: "is_lvm_path source"
    and free: "mounts_at (np_target_path request) (mnts view s) = []"
    and first: "NodePublishVolume sys srv request s = (Ret (Inr ()), s1)"
    and between: "list_all (plugin_elsewhere real (np_target_path request)) reqs"
    and s2: "s2 = fold (serve_plugin (served sys v sock limit metrics srv)) reqs s1"
    and undo: "NodeUnpublishVolume sys srv \<lparr>nu_volume_id = vid, nu_target_path = np_target_path request\<rparr> s2 =
      (Ret (Inr ()), s3)"
  shows "mnts view s3 = filter (\<lambda>k. km_path k \<noteq> np_target_path request) (mnts view s2)"
proof -
  have mw: "mount_world sys real view" using w by (simp add: table_world_def)
  obtain k where k: "mounts_at (np_target_path request) (mnts view s1) = [k]" "lvm_mount k"
    using fs_published [OF mw p fs rt source src _ first] free by (metis list.pred_inject)
  have p1: "\<not> proxied s1" using p proxied_agent [OF steadyD [OF keeps_agent_publish first]] by simp
  have k2: "mounts_at (np_target_path request) (mnts view s2) = [k]"
    unfolding s2 using mounts_at_plugin_run [OF w p1 between] k(1) by simp
  have p2: "\<not> proxied s2" unfolding s2 by (rule plugin_table.run_good [OF p1])
  have "found view s2 (np_target_path request) \<noteq> None"
    using seen_at_lvm [of "np_target_path request" "mnts view s2"] k2 k(2) by simp
  with NodeUnpublishVolume_effect [OF mw p2 undo]
  have "unmounted real (np_target_path request) True (mnts view s2) (mnts view s3)" by simp
  from only_mount_removed [OF this rt k2] show ?thesis .
qed

text \<open>The host on the node itself, with the volume there, and a publication of it.\<close>

definition asked_publish :: NodePublishVolumeRequest where
  "asked_publish = \<lparr>np_volume_id = ''csilv0'', np_publish_context = Some [(''datapath'', ''direct'')],
     np_target_path = ''/data'',
     np_volume_capability = Some \<lparr>access_type = Some (AccessMount
       (Some \<lparr>fs_type = ''xfs'', mount_flags = [], volume_mount_group = ''''\<rparr>)), access_mode = Some SINGLE_NODE_WRITER\<rparr>,
     np_readonly = False\<rparr>"

definition host_mounted :: host_state where
  "host_mounted = ((True, False), [tiny_mount ''/dev/sbvg_vg0/csilv0'' ''/data'' ''xfs'' 0])"

abbreviation host_publish :: "(host_state, unit) rpc" where
  "host_publish \<equiv> NodePublishVolume host small_server asked_publish"

abbreviation host_unpublish :: "(host_state, unit) rpc" where
  "host_unpublish \<equiv> NodeUnpublishVolume host small_server \<lparr>nu_volume_id = ''csilv0'', nu_target_path = ''/data''\<rparr>"

lemma host_publishes_once:
  "map_prod id without_trace (host_publish (quiet_state ((True, False), []))) = (Ret (Inr ()), quiet_state host_mounted)"
  by code_simp

lemma host_source:
  "fst (publish_source host small_server asked_publish (quiet_state ((True, False), []))) = Ret (Inr ''/dev/sbvg_vg0/csilv0'')"
  by code_simp

lemma host_source_again:
  "fst (publish_source host small_server asked_publish (host_at host_mounted cs)) = Ret (Inr ''/dev/sbvg_vg0/csilv0'')"
  by code_simp

lemma host_unpublishes: "fst (host_unpublish (host_at host_mounted cs)) = Ret (Inr ())"
  by code_simp

lemma host_published_at:
  "\<exists>cs. host_publish (quiet_state ((True, False), [])) = (Ret (Inr ()), host_at host_mounted cs)"
proof -
  obtain r s where s: "host_publish (quiet_state ((True, False), [])) = (r, s)" by fastforce
  with host_publishes_once have r: "r = Ret (Inr ())" and t: "without_trace s = quiet_state host_mounted" by simp_all
  show ?thesis by (rule exI [of _ "trace s"]) (simp add: s r host_atI [OF t, symmetric])
qed

lemma asked_publish_facts:
  "fs_publication asked_publish" "np_target_path asked_publish = ''/data''" "no_limits (np_publish_context asked_publish)"
  "is_lvm_path ''/dev/sbvg_vg0/csilv0''" "\<not> proxied (quiet_state w)"
  "mounts_at ''/data'' (mnts host_mounts (quiet_state ((True, False), []))) = []"
  by (simp_all add: fs_publication_def asked_publish_def no_limits_def map_get_def is_lvm_path_def proxied_def
      quiet_state_def mounts_at_def host_mounts_def tiny_view_def)

theorem publish_idempotent_witness:
  "\<exists>s1 s3. host_publish (quiet_state ((True, False), [])) = (Ret (Inr ()), s1) \<and> host_publish s1 = (Ret (Inr ()), s3) \<and>
     mnts host_mounts s3 = mnts host_mounts s1"
proof -
  obtain cs where first: "host_publish (quiet_state ((True, False), [])) = (Ret (Inr ()), host_at host_mounted cs)"
    using host_published_at by blast
  obtain r s3 where again: "host_publish (host_at host_mounted cs) = (r, s3)" by fastforce
  have "mnts host_mounts s3 = mnts host_mounts (host_at host_mounted cs) \<and> (\<forall>e. r \<noteq> Ret (Inl e)) \<and>
      (no_limits (np_publish_context asked_publish) \<longrightarrow> r = Ret (Inr ()))"
    by (rule publish_idempotent [OF host_table _ _ TrueI outcome_state [OF host_source] _ _ first _ _
        outcome_state [OF host_source_again] again, where reqs = "[]" and v = default_version
        and sock = "''/csi.sock''" and limit = 1 and metrics = None])
      (simp_all add: asked_publish_facts)
  with first again asked_publish_facts(3) show ?thesis by blast
qed

theorem unpublish_reverts_publish_witness:
  "\<exists>s1 s3. host_publish (quiet_state ((True, False), [])) = (Ret (Inr ()), s1) \<and> host_unpublish s1 = (Ret (Inr ()), s3) \<and>
     mnts host_mounts s3 = filter (\<lambda>k. km_path k \<noteq> ''/data'') (mnts host_mounts s1)"
proof -
  obtain cs where first: "host_publish (quiet_state ((True, False), [])) = (Ret (Inr ()), host_at host_mounted cs)"
    using host_published_at by blast
  obtain s3 where undo: "host_unpublish (host_at host_mounted cs) = (Ret (Inr ()), s3)"
    using outcome_state [OF host_unpublishes] by blast
  have "mnts host_mounts s3 = filter (\<lambda>k. km_path k \<noteq> np_target_path asked_publish) (mnts host_mounts (host_at host_mounted cs))"
    by (rule unpublish_reverts_publish [OF host_table _ _ TrueI outcome_state [OF host_source] _ _ first _ _ _,
        where reqs = "[]" and v = default_version and sock = "''/csi.sock''" and limit = 1 and metrics = None
        and vid = "''csilv0''"])
      (simp_all add: asked_publish_facts undo)
  with first undo show ?thesis by (auto simp: asked_publish_facts)
qed

text \<open>In remove mode no request changes the volumes.\<close>

lemma removing_plugin_step:
  assumes o: "others_still sys view" and r: "\<And>path. still view (sys_readfile sys path)"
    and "srv_removingVolumeGroup srv"
  shows "view (ext (serve_plugin (served sys v sock limit metrics srv) req s)) = view (ext s)"
proof (cases req)
  case (ToIdentity q)
  then show ?thesis using keeps_identity [OF o r] by (simp add: served_services)
next
  case (ToController q)
  then show ?thesis using removing_keeps [OF o] assms(3) by (simp add: served_services)
next
  case (ToNode q)
  have refused: "validateNodePublishVolumeRequest a True fs px = Some ErrRemovingMode"
      "validateNodeUnpublishVolumeRequest b True = Some ErrRemovingMode" for a fs px b
    by (simp_all add: validateNodePublishVolumeRequest_def validateNodeUnpublishVolumeRequest_def validateRemoving_def
        first_err_def)
  have "keeps view (NodeGetInfo sys srv)"
    unfolding NodeGetInfo_def readInitiatorName_def Let_def by (intro keeps_intros r)
  then show ?thesis
    using refused assms(3)
    by (cases q) (simp_all add: ToNode served_services node_service_publish node_service_unpublish node_service_info steady_def)
qed

end
