(* ===== verification/AgentTable.thy ===== *)
theory AgentTable
  imports Services
begin

text \<open>
  The plugin in proxy mode. With an address of the agent, mounts are asked of the agent and the mount
  table is the one the agent reports. \<open>agent_world\<close> collects what \<open>stolakeservice.proto\<close> says of
  the agent's calls. \<open>agent_allowed\<close> says what one request to any service may do to the agent's
  table: a publication adds the mount that was asked for, whatever is mounted at its target
  already, and an unpublication takes the newest mount off its target. The properties: the plugin
  refines this specification, and unpublishing takes back what publishing did; publishing twice
  may mount twice, since in proxy mode the handler does not look.
\<close>

section \<open>What the agent promises\<close>

text \<open>The mount that a request to the agent asks for; the type \<open>block\<close> is a mount without a file
  system.\<close>

definition agent_mount :: "(string \<Rightarrow> bool) \<Rightarrow> MountVolumeReq \<Rightarrow> kmount \<Rightarrow> bool" where
  "agent_mount real q k \<longleftrightarrow>
     (real (mv_TargetPath q) \<longrightarrow> km_path k = mv_TargetPath q) \<and>
     (mv_FsType q \<noteq> ''block'' \<longrightarrow>
        km_source k = mv_SourcePath q \<and> (''ro'' \<in> set (km_opts k) \<longleftrightarrow> mv_ReadOnly q))"

text \<open>A successful request leaves such a mount, a new one or one that was there.\<close>

definition agent_mounts ::
  "(string \<Rightarrow> bool) \<Rightarrow> MountVolumeReq \<Rightarrow> bool \<Rightarrow> kmount list \<Rightarrow> kmount list \<Rightarrow> bool" where
  "agent_mounts real q success v v' \<longleftrightarrow>
     (\<exists>k. v' = v @ [k] \<and> agent_mount real q k) \<or>
     v' = v \<and> (success \<longrightarrow> (\<exists>k\<in>set v. agent_mount real q k))"

definition agent_reads :: "'w sys \<Rightarrow> ('w \<Rightarrow> node_view) \<Rightarrow> bool" where
  "agent_reads sys view \<longleftrightarrow>
     (\<forall>w. list_all well_formed (nv_mounts (view w))) \<and>
     (\<forall>c w. isl (fst (sys_MountInfo sys c w)) \<or>
        fst (sys_MountInfo sys c w) = Inr (mountinfo_text (nv_mounts (view w)))) \<and>
     (\<forall>c. still view (sys_MountInfo sys c)) \<and> (\<forall>url. still view (sys_dial sys url)) \<and> links_read sys view"

definition agent_world :: "'w sys \<Rightarrow> (string \<Rightarrow> bool) \<Rightarrow> ('w \<Rightarrow> node_view) \<Rightarrow> bool" where
  "agent_world sys real view \<longleftrightarrow>
     agent_reads sys view \<and> unmount_world False sys real view \<and>
     (\<forall>c q w err w'. sys_MountVolume sys c q w = (err, w') \<longrightarrow>
        agent_mounts real q (err = None) (nv_mounts (view w)) (nv_mounts (view w'))) \<and>
     (\<forall>cmd args. cmd \<in> {''lvcreate'', ''lvremove''} \<longrightarrow>
        tool_effect sys (\<lambda>w. nv_mounts (view w)) cmd args (\<lambda>_ v v'. v' = v))"

lemma agent_worldD:
  assumes "agent_world sys real view"
  shows "agent_reads sys view" "unmount_world False sys real view" "mounts_still sys (\<lambda>w. nv_mounts (view w))"
    "node_still sys (\<lambda>w. nv_mounts (view w))"
  using assms by (simp_all add: agent_world_def unmount_world_def mounts_still_def)

section \<open>Looking\<close>

lemma MountInfo_world:
  assumes "agent_reads sys view" and "MountInfo sys s = (r, s')"
  shows "same_node view s s' \<and>
    (\<exists>x. r = Ret x \<and> (isl x \<or> x = Inr (mountinfo_text (mnts view s))))"
proof -
  define url where "url = ''unix://'' @ StolakeURL s"
  obtain derr w1 where d: "sys_dial sys url (ext s) = (derr, w1)" by (cases "sys_dial sys url (ext s)")
  obtain x w2 where i: "sys_MountInfo sys url w1 = (x, w2)" by (cases "sys_MountInfo sys url w1")
  have v1: "view w1 = view (ext s)" using assms(1) d unfolding agent_reads_def still_def by (metis snd_conv)
  have v2: "view w2 = view w1" using assms(1) i unfolding agent_reads_def still_def by (metis snd_conv)
  have "isl x \<or> x = Inr (mountinfo_text (nv_mounts (view w1)))"
    using assms(1) i unfolding agent_reads_def by (metis fst_conv)
  then show ?thesis
    using assms(2) d [unfolded url_def] i [unfolded url_def] v1 v2
    by (cases derr) (auto simp: MountInfo_def with_agent_def connect_def stolakeConnect_def tryE_def bind_def extcall_def
        get_state_def disconnect_def defer_do_def ok_def fail_def ret_def same_node_def)
qed

lemma getMountAt_agent:
  assumes r: "agent_reads sys view" and p: "proxied s" and g: "getMountAt sys path s = (res, s')"
  shows "same_node view s s' \<and> (\<exists>x. res = Ret x \<and> (isl x \<or> x = Inr (found view s path)))"
proof -
  define t where "t = mnts view s"
  have wf: "list_all well_formed t" using r by (simp add: agent_reads_def t_def)
  obtain mr s1 where m: "MountInfo sys s = (mr, s1)" by (cases "MountInfo sys s")
  then obtain x where x: "mr = Ret x" "isl x \<or> x = Inr (mountinfo_text t)" and s1: "same_node view s s1"
    using MountInfo_world [OF r m] by (auto simp: t_def)
  show ?thesis
  proof (cases x)
    case (Inl e)
    with g p m x s1 show ?thesis
      by (auto simp: getMountAt_def getMountsAt_def listMounts_def bind_Ret [OF ProxyMode_proxied] tryE_def bind_def
          fail_def ret_def)
  next
    case (Inr buf)
    then have buf: "buf = mountinfo_text t" using x(2) by auto
    have links: "nv_links (view (ext s1)) = nv_links (view (ext s))" using s1 by (simp add: same_node_def)
    obtain s2 where l: "parse_mount_lines sys (map kmount_line t @ ['''']) [] s1 =
        (Ret (Inr (seen (nv_links (view (ext s))) t)), s2)" "same_node view s1 s2"
      using parse_world [of sys view t s1 "nv_links (view (ext s))" "[]"] r wf links by (auto simp: agent_reads_def)
    have "listMounts sys s = (Ret (Inr (seen (nv_links (view (ext s))) t)), s2)"
      using p m x(1) Inr buf l(1)
      by (simp add: listMounts_def bind_Ret [OF ProxyMode_proxied] tryE_def bind_def parseMountinfo_def mountinfo_lines [OF wf])
    then have "getMountAt sys path s = (Ret (Inr (found view s path)), s2)"
      by (simp add: getMountAt_def getMountsAt_def tryE_Inr ok_def ret_def first_seen tryE_def bind_def t_def)
    with g same_node_trans [OF s1 l(2)] show ?thesis by auto
  qed
qed

section \<open>Publishing\<close>

text \<open>What a publication asks of the agent, given the source; the capability decides.\<close>

definition agent_request :: "NodePublishVolumeRequest \<Rightarrow> string \<Rightarrow> MountVolumeReq option" where
  "agent_request request source =
     (case np_volume_capability request of None \<Rightarrow> None | Some c \<Rightarrow>
      (let q = \<lparr>mv_SourcePath = source, mv_TargetPath = np_target_path request, mv_FsType = ''block'',
         mv_ReadOnly = (GetMode c = SINGLE_NODE_READER_ONLY \<or> np_readonly request), mv_MountOptions = '''',
         mv_GroupId = (case GetMount c of None \<Rightarrow> '''' | Some m \<Rightarrow> volume_mount_group m),
         mv_AllUsers = (case nget (np_publish_context request) ''allusers'' of
           None \<Rightarrow> False | Some v \<Rightarrow> ToLower v = ''true'')\<rparr>
       in case access_type c of
            None \<Rightarrow> None
          | Some (AccessBlock b) \<Rightarrow> Some q
          | Some (AccessMount m) \<Rightarrow>
              Some (q\<lparr>mv_FsType := (case GetMount c of None \<Rightarrow> '''' | Some m \<Rightarrow> fs_type m),
                mv_MountOptions := Join (case GetMount c of None \<Rightarrow> [] | Some m \<Rightarrow> mount_flags m) '',''\<rparr>)))"

lemma agent_request_target: "agent_request request source = Some q \<Longrightarrow> mv_TargetPath q = np_target_path request"
  and agent_request_source: "agent_request request source = Some q \<Longrightarrow> mv_SourcePath q = source"
  by (auto simp: agent_request_def Let_def split: option.splits AccessType.splits)

definition ask_agent :: "'w sys \<Rightarrow> MountVolumeReq \<Rightarrow> ('w, unit) rpc" where
  "ask_agent sys q = proxy_mount sys (mv_SourcePath q) (mv_TargetPath q) (mv_FsType q) (mv_GroupId q)
     (mv_MountOptions q) (mv_ReadOnly q) (mv_AllUsers q)"

text \<open>In proxy mode a publication is this one request, whatever is mounted at the target.\<close>

lemma publish_at_proxied:
  assumes "proxied s" and "agent_request request source = Some q"
  shows "publish_at sys srv request source s = ask_agent sys q s"
  using assms
  by (auto simp: publish_at_def ask_agent_def agent_request_def Let_def bind_Ret [OF ProxyMode_proxied]
      split: option.splits AccessType.splits)

lemma publish_at_unasked:
  assumes "proxied s" and "agent_request request source = None"
  shows "publish_at sys srv request source s = panic ''lvm: unknown access_type: <nil>'' s"
  using assms
  by (auto simp: publish_at_def agent_request_def Let_def bind_Ret [OF ProxyMode_proxied]
      split: option.splits AccessType.splits)

text \<open>One request to the agent: it is dialled, and asked if it answers.\<close>

lemma ask_agent_cases:
  assumes c: "ask_agent sys q s = (r, s')"
  obtains derr w1 where "sys_dial sys (''unix://'' @ StolakeURL s) (ext s) = (Some derr, w1)" "ext s' = w1"
      "r \<noteq> Ret (Inr ())"
  | w1 err w2 where "sys_dial sys (''unix://'' @ StolakeURL s) (ext s) = (None, w1)"
      "sys_MountVolume sys (''unix://'' @ StolakeURL s) q w1 = (err, w2)" "ext s' = w2"
      "r = Ret (Inr ()) \<longleftrightarrow> err = None"
proof -
  define url where "url = ''unix://'' @ StolakeURL s"
  obtain derr w1 where d: "sys_dial sys url (ext s) = (derr, w1)" by (cases "sys_dial sys url (ext s)")
  obtain err w2 where m: "sys_MountVolume sys url q w1 = (err, w2)" by (cases "sys_MountVolume sys url q w1")
  have eta: "\<lparr>mv_SourcePath = mv_SourcePath q, mv_TargetPath = mv_TargetPath q, mv_FsType = mv_FsType q,
      mv_ReadOnly = mv_ReadOnly q, mv_MountOptions = mv_MountOptions q, mv_GroupId = mv_GroupId q,
      mv_AllUsers = mv_AllUsers q\<rparr> = q" by simp
  note defs = ask_agent_def proxy_mount_def MountVolume_def with_agent_def connect_def
    stolakeConnect_def tryE_def bind_def extcall_def get_state_def disconnect_def defer_do_def ok_def fail_def ret_def
  show thesis
  proof (cases derr)
    case (Some e)
    with c d [unfolded url_def] show thesis by (intro that(1) [of e w1]) (auto simp: defs)
  next
    case None
    with c d [unfolded url_def] m [unfolded url_def] show thesis
      by (intro that(2) [of w1 err w2]) (cases err; auto simp: eta defs)+
  qed
qed

lemma dialled:
  "agent_world sys real view \<Longrightarrow> sys_dial sys url w = (derr, w1) \<Longrightarrow> nv_mounts (view w1) = nv_mounts (view w)"
  unfolding agent_world_def agent_reads_def still_def by (metis snd_conv)

lemma ask_agent_effect:
  assumes w: "agent_world sys real view" and c: "ask_agent sys q s = (r, s')"
  shows "agent_mounts real q (r = Ret (Inr ())) (mnts view s) (mnts view s')"
  using c
proof (cases rule: ask_agent_cases)
  case (1 derr w1)
  with dialled [OF w 1(1)] show ?thesis by (simp add: agent_mounts_def)
next
  case (2 w1 err w2)
  have "agent_mounts real q (err = None) (nv_mounts (view w1)) (nv_mounts (view w2))"
    using w 2(2) unfolding agent_world_def by blast
  with dialled [OF w 2(1)] 2(3,4) show ?thesis by simp
qed

lemma ask_agent_mounts:
  assumes w: "agent_world sys real view"
    and eager: "\<And>c q w w'. sys_MountVolume sys c q w = (None, w') \<Longrightarrow> nv_mounts (view w') \<noteq> nv_mounts (view w)"
    and c: "ask_agent sys q s = (Ret (Inr ()), s')"
  shows "mnts view s' \<noteq> mnts view s"
  using c
proof (cases rule: ask_agent_cases)
  case (2 w1 err w2)
  then have "err = None" by simp
  with 2(2) have "sys_MountVolume sys (''unix://'' @ StolakeURL s) q w1 = (None, w2)" by simp
  from eager [OF this] dialled [OF w 2(1)] 2(3) show ?thesis by simp
qed simp

text \<open>A publication adds the mount it asks for, or leaves the table alone.\<close>

lemma NodePublishVolume_agent:
  assumes w: "agent_world sys real view" and p: "proxied s" and c: "NodePublishVolume sys srv request s = (r, s')"
  shows "mnts view s' = mnts view s \<or>
    (\<exists>source q k. agent_request request source = Some q \<and> mnts view s' = mnts view s @ [k] \<and> agent_mount real q k)"
proof -
  note k = keeps_node_parts(1) [OF agent_worldD(4) [OF w]]
  from c [unfolded NodePublishVolume_def] show ?thesis
  proof (cases rule: tryE_cases)
    case (Inr source s1)
    have p1: "proxied s1" using p proxied_agent [OF steadyD [OF keeps_agent_publish_source Inr(1)]] by simp
    have v1: "mnts view s1 = mnts view s" using steadyD [OF k Inr(1)] .
    show ?thesis
    proof (cases "agent_request request source")
      case None
      with Inr(2) publish_at_unasked [OF p1 None] v1 show ?thesis by (simp add: panic_def)
    next
      case (Some q)
      with Inr(2) publish_at_proxied [OF p1 Some] have "ask_agent sys q s1 = (r, s')" by simp
      from ask_agent_effect [OF w this] Some v1 show ?thesis by (auto simp: agent_mounts_def)
    qed
  next
    case (Inl e s1)
    from steadyD [OF k Inl(1)] Inl(2) show ?thesis by (simp add: fail_def ret_def)
  next
    case (Panic msg)
    from steadyD [OF k Panic(1)] show ?thesis by simp
  qed
qed

section \<open>Unpublishing\<close>

definition agent_data_paths :: "string set" where
  "agent_data_paths = {''iscsi'', ''nvme'', ''qemu'', ''sas''}"

lemma NodeUnpublishVolume_agent:
  assumes w: "agent_world sys real view" and p: "proxied s" and c: "NodeUnpublishVolume sys srv request s = (r, s')"
  shows "unmounted real (nu_target_path request)
    (r = Ret (Inr ()) \<and> (\<exists>mp. found view s (nu_target_path request) = Some mp \<and> ToLower (mp_datapath mp) \<in> agent_data_paths))
    (mnts view s) (mnts view s')"
proof -
  let ?p = "nu_target_path request"
  obtain res s1 where g: "getMountAt sys ?p s = (res, s1)" by (cases "getMountAt sys ?p s")
  then obtain x where x: "res = Ret x" "isl x \<or> x = Inr (found view s ?p)" and s1: "same_node view s s1"
    using getMountAt_agent [OF agent_worldD(1) [OF w] p g] by blast
  have same: "mnts view s1 = mnts view s" "proxied s1" using s1 p by (simp_all add: same_node_def proxied_def)
  show ?thesis
  proof (cases x)
    case (Inl e)
    with c g x have "mnts view s' = mnts view s1 \<and> r \<noteq> Ret (Inr ())"
      by (auto simp: NodeUnpublishVolume_def Let_def tryR_def tryE_def bind_def fail_def ret_def)
    then show ?thesis by (simp add: same unmounted_refl)
  next
    case (Inr found')
    then have f: "found' = found view s ?p" using x(2) by auto
    note run = c [unfolded NodeUnpublishVolume_found [OF g [unfolded x Inr]]]
    show ?thesis
    proof (cases found')
      case None
      with run f have "s' = s1" "found view s ?p = None" by simp_all
      then show ?thesis by (simp add: same unmounted_refl)
    next
      case (Some mp)
      with run have u: "unpublish_found sys srv mp ?p (nu_volume_id request) s1 = (r, s')" by simp
      show ?thesis
        using unpublish_found_effect [OF agent_worldD(2) [OF w] u] Some f same
        by (auto simp: agent_data_paths_def elim!: unmounted_weaken)
    qed
  qed
qed

section \<open>The plugin and the agent's table\<close>

text \<open>What one request to any of the services may do to the table of the agent.\<close>

inductive agent_allowed :: "(string \<Rightarrow> bool) \<Rightarrow> plugin_request \<Rightarrow> kmount list \<Rightarrow> kmount list \<Rightarrow> bool"
  for real where
  agent_unchanged: "agent_allowed real r v v"
| agent_published: "agent_request r source = Some q \<Longrightarrow> agent_mount real q k \<Longrightarrow>
     agent_allowed real (ToNode (NodePublish r)) v (v @ [k])"
| agent_unpublished: "taken_off real (nu_target_path r) v v' \<Longrightarrow> agent_allowed real (ToNode (NodeUnpublish r)) v v'"

inductive_simps agent_allowed_identity [simp]: "agent_allowed real (ToIdentity r) v v'"
inductive_simps agent_allowed_controller [simp]: "agent_allowed real (ToController r) v v'"
inductive_simps agent_allowed_info [simp]: "agent_allowed real (ToNode NodeInfo) v v'"

lemma serve_node_agent_table:
  assumes w: "agent_world sys real view" and p: "proxied s"
  shows "agent_allowed real (ToNode req) (mnts view s)
    (mnts view (serve_node (node_service sys srv removing filesystems) req s))"
proof (cases req)
  case (NodePublish r)
  obtain res s' where c: "NodePublishVolume sys srv r s = (res, s')" by (cases "NodePublishVolume sys srv r s")
  from NodePublishVolume_agent [OF w p c] show ?thesis
    by (auto simp: NodePublish node_service_publish c intro: agent_allowed.intros split: option.split)
next
  case (NodeUnpublish r)
  obtain res s' where c: "NodeUnpublishVolume sys srv r s = (res, s')" by (cases "NodeUnpublishVolume sys srv r s")
  from NodeUnpublishVolume_agent [OF w p c] show ?thesis
    by (auto simp: NodeUnpublish node_service_unpublish c unmounted_def intro: agent_allowed.intros split: option.split)
next
  case NodeInfo
  then show ?thesis
    using keeps_node_parts(7) [OF agent_worldD(4) [OF w]] by (simp add: node_service_info steady_def)
qed


lemma serve_plugin_agent_table:
  assumes w: "agent_world sys real view" and p: "proxied s"
  shows "agent_allowed real req (mnts view s) (mnts view (serve_plugin (served sys v sock limit metrics srv) req s))"
proof (cases req)
  case (ToIdentity r)
  note n = agent_worldD(4) [OF w]
  show ?thesis
    using keeps_identity [OF node_stillD(1) [OF n] node_stillD(14) [OF n]] by (simp add: ToIdentity served_services)
next
  case (ToController r)
  have c: "tool_effect sys (\<lambda>w. nv_mounts (view w)) cmd args (\<lambda>_ v v'. v' = v)"
    if "cmd \<in> {''lvcreate'', ''lvremove''}" for cmd args using w that by (auto simp: agent_world_def)
  show ?thesis
    using serve_keeps [OF node_stillD(1) [OF agent_worldD(4) [OF w]] c] by (simp add: ToController served_services)
next
  case (ToNode r)
  then show ?thesis using serve_node_agent_table [OF w p] by (simp add: served_services)
qed

interpretation agent_table: simulation_while "serve_plugin (served sys v sock limit metrics srv)"
    "\<lambda>s. nv_mounts (view (ext s))" "agent_allowed real" "agent_world sys real view" proxied
  for sys v sock limit metrics srv real view
  by unfold_locales (simp_all add: serve_plugin_agent_table proxied_agent [OF serve_plugin_agent])

text \<open>Both abstract states at once.\<close>

definition proxied_allowed ::
  "string list \<Rightarrow> (string \<Rightarrow> bool) \<Rightarrow> plugin_request \<Rightarrow> lvsItem list \<times> kmount list \<Rightarrow> lvsItem list \<times> kmount list \<Rightarrow> bool" where
  "proxied_allowed server_tags real r x y \<longleftrightarrow>
     store_allowed server_tags r (fst x) (fst y) \<and> agent_allowed real r (snd x) (snd y)"

interpretation agent_both: simulation_while "serve_plugin (served sys v sock limit metrics srv)"
    "\<lambda>s. (view (ext s), nv_mounts (mview (ext s)))" "proxied_allowed (srv_tags srv) real"
    "store_world sys g view \<and> srv_volumeGroup srv = Some g \<and> agent_world sys real mview" proxied
  for sys v sock limit metrics srv real view mview g
  by unfold_locales
     (auto simp: proxied_allowed_def proxied_agent [OF serve_plugin_agent] intro: serve_plugin_store serve_plugin_agent_table)

section \<open>The mounts at one path\<close>

lemma agent_elsewhere:
  assumes "agent_allowed real r v v'" and "plugin_elsewhere real target r"
  shows "mounts_at target v' = mounts_at target v"
  using assms by cases (auto simp: elsewhere_def taken_off_def mounts_at_def agent_mount_def dest: agent_request_target)

lemma agent_run_elsewhere:
  assumes "agent_world sys real view" and "proxied s" and "list_all (plugin_elsewhere real target) reqs"
  shows "mounts_at target (mnts view (fold (serve_plugin (served sys v sock limit metrics srv)) reqs s)) =
    mounts_at target (mnts view s)"
proof (rule agent_table.run_preserves [where I = "\<lambda>v. mounts_at target v = mounts_at target (mnts view s)", OF assms(1,2)])
  fix r v v'
  assume "r \<in> set reqs" and "mounts_at target v = mounts_at target (mnts view s)" and "agent_allowed real r v v'"
  with agent_elsewhere assms(3) show "mounts_at target v' = mounts_at target (mnts view s)"
    by (auto simp: list_all_iff)
qed simp

text \<open>What a successful publication leaves at a free target: the mount that was asked for.\<close>

lemma agent_published_mount:
  assumes w: "agent_world sys real view" and p: "proxied s" and free: "mounts_at target (mnts view s) = []"
    and q: "agent_request request source = Some q" and t: "np_target_path request = target" and rt: "real target"
    and c: "publish_at sys srv request source s = (Ret (Inr ()), s')"
  shows "\<exists>k. mnts view s' = mnts view s @ [k] \<and> agent_mount real q k \<and> km_path k = target"
proof -
  have "ask_agent sys q s = (Ret (Inr ()), s')" using c publish_at_proxied [OF p q] by simp
  from ask_agent_effect [OF w this]
  have "(\<exists>k. mnts view s' = mnts view s @ [k] \<and> agent_mount real q k) \<or> (\<exists>k\<in>set (mnts view s). agent_mount real q k)"
    by (auto simp: agent_mounts_def)
  moreover have "agent_mount real q k \<Longrightarrow> km_path k = target" for k
    using agent_request_target [OF q] t rt by (simp add: agent_mount_def)
  ultimately show ?thesis using free by (auto simp: mounts_at_def filter_empty_conv)
qed

section \<open>Properties\<close>

text \<open>C9: in proxy mode, too, unpublishing takes back what publishing a file system did: after a
  publication that is not of a block device has mounted a volume with a device path \<open>/dev/sbvg_...\<close>
  at a target with nothing mounted, which is the path the kernel shows (\<open>real\<close>), and any requests to
  any service about other targets were served, a successful unpublication removes exactly that
  mount from the agent's table.\<close>

theorem proxied_unpublish_reverts_publish:
  assumes w: "agent_world sys real view" and p: "proxied s"
    and free: "mounts_at target (mnts view s) = []" and rt: "real target"
    and source: "publish_source sys srv request s = (Ret (Inr source), s0)" "is_lvm_path source"
    and q: "agent_request request source = Some q" "mv_FsType q \<noteq> ''block''" and t: "np_target_path request = target"
    and first: "NodePublishVolume sys srv request s = (Ret (Inr ()), s1)"
    and between: "list_all (plugin_elsewhere real target) reqs"
    and s2: "s2 = fold (serve_plugin (served sys v sock limit metrics srv)) reqs s1"
    and undo: "NodeUnpublishVolume sys srv \<lparr>nu_volume_id = vid, nu_target_path = target\<rparr> s2 = (Ret (Inr ()), s3)"
  shows "mnts view s3 = filter (\<lambda>k. km_path k \<noteq> target) (mnts view s2)"
proof -
  have s0: "mnts view s0 = mnts view s" "proxied s0"
    using steadyD [OF keeps_node_parts(1) [OF agent_worldD(4) [OF w]] source(1)] p
      proxied_agent [OF steadyD [OF keeps_agent_publish_source source(1)]] by simp_all
  have at: "publish_at sys srv request source s0 = (Ret (Inr ()), s1)"
    using first source(1) by (simp add: NodePublishVolume_def tryE_Inr)
  obtain k where k: "mnts view s1 = mnts view s0 @ [k]" "agent_mount real q k" "km_path k = target"
    using agent_published_mount [OF w s0(2) free [folded s0(1)] q(1) t rt at] by blast
  have lvm: "km_source k = source" using k(2) q(2) agent_request_source [OF q(1)] by (simp add: agent_mount_def)
  have p1: "proxied s1" using p proxied_agent [OF steadyD [OF keeps_agent_publish first]] by simp
  have k2: "mounts_at target (mnts view s2) = [k]"
    unfolding s2 using agent_run_elsewhere [OF w p1 between] k(1,3) free by (simp add: mounts_at_def s0(1))
  have p2: "proxied s2" unfolding s2 by (rule agent_table.run_good [OF p1])
  have "found view s2 target = Some (mount_entry (nv_links (view (ext s2))) k)"
    using seen_at_lvm [of target "mnts view s2"] k2 lvm source(2) by (simp add: lvm_mount_def)
  moreover have "mp_datapath (mount_entry (nv_links (view (ext s2))) k) = ''sas''"
    using lvm source(2) by (simp add: mount_entry_def block_path_def dataPathType_def)
  moreover have "ToLower ''sas'' \<in> agent_data_paths" unfolding agent_data_paths_def by code_simp
  ultimately have "unmounted real target True (mnts view s2) (mnts view s3)"
    using NodeUnpublishVolume_agent [OF w p2 undo] by simp
  from only_mount_removed [OF this rt k2] show ?thesis .
qed

text \<open>
  in proxy mode publishing again is left to the agent: the handler does not look at the target,
  so with an agent that mounts on every request a volume published twice is mounted twice.\<close>

theorem proxied_publish_stacks:
  assumes w: "agent_world sys real view" and p: "proxied s" and rt: "real (np_target_path request)"
    and eager: "\<And>c q w w'. sys_MountVolume sys c q w = (None, w') \<Longrightarrow> nv_mounts (view w') \<noteq> nv_mounts (view w)"
    and first: "NodePublishVolume sys srv request s = (Ret (Inr ()), s1)"
    and again: "NodePublishVolume sys srv request s1 = (Ret (Inr ()), s2)"
  shows "length (mounts_at (np_target_path request) (mnts view s2)) =
    length (mounts_at (np_target_path request) (mnts view s)) + 2"
proof -
  let ?t = "np_target_path request"
  have once: "length (mounts_at ?t (mnts view b)) = Suc (length (mounts_at ?t (mnts view a)))"
    if pa: "proxied a" and c: "NodePublishVolume sys srv request a = (Ret (Inr ()), b)" for a b
  proof -
    obtain source a' where src: "publish_source sys srv request a = (Ret (Inr source), a')"
        and at: "publish_at sys srv request source a' = (Ret (Inr ()), b)"
      using c unfolding NodePublishVolume_def by (rule tryE_cases) (auto simp: fail_def ret_def)
    have a': "mnts view a' = mnts view a" "proxied a'"
      using steadyD [OF keeps_node_parts(1) [OF agent_worldD(4) [OF w]] src] pa
        proxied_agent [OF steadyD [OF keeps_agent_publish_source src]] by simp_all
    obtain q where q: "agent_request request source = Some q"
      using at publish_at_unasked [OF a'(2)] by (cases "agent_request request source") (auto simp: panic_def)
    have ask: "ask_agent sys q a' = (Ret (Inr ()), b)" using at publish_at_proxied [OF a'(2) q] by simp
    have "mnts view b \<noteq> mnts view a'" by (rule ask_agent_mounts [OF w eager ask])
    with ask_agent_effect [OF w ask] obtain k where "mnts view b = mnts view a @ [k]" "agent_mount real q k"
      by (auto simp: agent_mounts_def a'(1))
    then show ?thesis using rt agent_request_target [OF q] by (simp add: agent_mount_def mounts_at_def)
  qed
  have "proxied s1" using p proxied_agent [OF steadyD [OF keeps_agent_publish first]] by simp
  from once [OF p first] once [OF this again] show ?thesis by simp
qed


section \<open>The host with its agent\<close>

lemma host_agent: "agent_world host (\<lambda>_. True) host_mounts"
proof -
  have w: "mount_world host (\<lambda>_. True) host_mounts" using host_table by (simp add: table_world_def)
  have still: "mounts_still host (\<lambda>w. nv_mounts (host_mounts w))" using w by (simp add: mount_world_def)
  have "unmount_world True host (\<lambda>_. True) host_mounts" by (rule mount_world_unmount [OF w])
  then have "unmount_world False host (\<lambda>_. True) host_mounts"
    unfolding unmount_world_def unmounted_def by simp blast
  moreover have "agent_reads host host_mounts"
  proof -
    have "list_all well_formed (nv_mounts (host_mounts w))" for w
      by (simp add: host_mounts_def tiny_view_def list_all_iff)
    moreover have "sys_MountInfo host c w = (Inr (mountinfo_text (nv_mounts (host_mounts w))), w)" for c w
      by (simp add: host_def host_mounts_def tiny_view_def)
    moreover have "still host_mounts (sys_dial host url)" for url
      by (simp add: host_def quiet_def still_def)
    moreover have "links_read host host_mounts" using w by (simp add: mount_world_def mount_reads_links)
    ultimately show ?thesis unfolding agent_reads_def still_def by simp
  qed
  moreover have "agent_mounts (\<lambda>_. True) q (err = None) (nv_mounts (host_mounts w)) (nv_mounts (host_mounts w'))"
    if c: "sys_MountVolume host c q w = (err, w')" for c q w err w'
  proof -
    have "sys_mount host (mv_SourcePath q) (mv_TargetPath q) (mv_FsType q) (asked_flags q) (mv_MountOptions q) w = (err, w')"
      using c by (simp add: host_def)
    from sys_mount_effect [OF w this] show ?thesis
      by (auto simp: mounts_or_fails_def agent_mounts_def new_mount_def agent_mount_def asked_flags_def MS_BIND_def
          MS_RDONLY_def split: if_splits)
  qed
  moreover have "tool_effect host (\<lambda>w. nv_mounts (host_mounts w)) cmd args (\<lambda>_ v v'. v' = v)"
    if "cmd \<in> {''lvcreate'', ''lvremove''}" for cmd args
    using host_table that by (auto simp: table_world_def)
  ultimately show ?thesis unfolding agent_world_def by blast
qed

lemma host_eager: "sys_MountVolume host c q w = (None, w') \<Longrightarrow> nv_mounts (host_mounts w') \<noteq> nv_mounts (host_mounts w)"
  by (auto simp: host_def on_kernel_def tiny_kernel_def host_mounts_def tiny_view_def Let_def split: if_splits prod.splits)

text \<open>The host with an address of the agent.\<close>

definition with_url :: "'w \<Rightarrow> 'w gs" where
  "with_url w = (quiet_state w)\<lparr>StolakeURL := ''/agent.sock''\<rparr>"

lemma with_url_proxied: "proxied (with_url w)"
  by (simp add: with_url_def quiet_state_def proxied_def)

definition proxied_publish :: "(host_state, unit) rpc" where
  "proxied_publish = NodePublishVolume host small_server asked_publish"

definition proxied_unpublish :: "(host_state, unit) rpc" where
  "proxied_unpublish = NodeUnpublishVolume host small_server \<lparr>nu_volume_id = ''csilv0'', nu_target_path = ''/data''\<rparr>"

lemma proxied_source:
  "fst (publish_source host small_server asked_publish (with_url ((True, False), []))) = Ret (Inr ''/dev/sbvg_vg0/csilv0'')"
  by code_simp

text \<open>The trace is no part of what the handlers read.\<close>

definition url_at :: "host_state \<Rightarrow> call list \<Rightarrow> host_state gs" where
  "url_at w cs = (with_url w)\<lparr>trace := cs\<rparr>"

definition asked_table :: host_state where
  "asked_table = ((True, False), [tiny_mount ''/dev/sbvg_vg0/csilv0'' ''/data'' ''xfs'' 0])"

lemma url_atI: "without_trace s = with_url w \<Longrightarrow> s = url_at w (trace s)"
  by (cases s) (simp add: without_trace_def url_at_def with_url_def quiet_state_def)

lemma proxied_published:
  "map_prod id without_trace (proxied_publish (with_url ((True, False), []))) = (Ret (Inr ()), with_url asked_table)"
  unfolding proxied_publish_def by code_simp

lemma proxied_publish_again: "fst (proxied_publish (url_at asked_table cs)) = Ret (Inr ())"
  unfolding proxied_publish_def by code_simp

lemma proxied_unpublish_runs: "fst (proxied_unpublish (url_at asked_table cs)) = Ret (Inr ())"
  unfolding proxied_unpublish_def by code_simp

lemma proxied_published_at:
  "\<exists>cs. proxied_publish (with_url ((True, False), [])) = (Ret (Inr ()), url_at asked_table cs)"
proof -
  obtain r s where s: "proxied_publish (with_url ((True, False), [])) = (r, s)"
    by (cases "proxied_publish (with_url ((True, False), []))")
  with proxied_published have r: "r = Ret (Inr ())" and t: "without_trace s = with_url asked_table" by simp_all
  show ?thesis by (rule exI [of _ "trace s"]) (simp add: s r url_atI [OF t, symmetric])
qed

lemma asked_publish_request:
  "\<exists>q. agent_request asked_publish source = Some q \<and> mv_SourcePath q = source \<and> mv_FsType q = ''xfs''"
  by (simp add: agent_request_def asked_publish_def GetMount_def Let_def)

theorem proxied_unpublish_reverts_publish_witness:
  "\<exists>s1 s3. proxied_publish (with_url ((True, False), [])) = (Ret (Inr ()), s1) \<and>
     proxied_unpublish s1 = (Ret (Inr ()), s3) \<and>
     mnts host_mounts s3 = filter (\<lambda>k. km_path k \<noteq> ''/data'') (mnts host_mounts s1)"
proof -
  obtain q where q: "agent_request asked_publish ''/dev/sbvg_vg0/csilv0'' = Some q"
      "mv_SourcePath q = ''/dev/sbvg_vg0/csilv0''" "mv_FsType q = ''xfs''"
    using asked_publish_request by blast
  obtain cs s1 where s1: "proxied_publish (with_url ((True, False), [])) = (Ret (Inr ()), s1)" "s1 = url_at asked_table cs"
    using proxied_published_at by blast
  obtain s3 where s3: "proxied_unpublish s1 = (Ret (Inr ()), s3)"
    using outcome_state [OF proxied_unpublish_runs] unfolding s1(2) by blast
  obtain s0 where s0: "publish_source host small_server asked_publish (with_url ((True, False), [])) =
      (Ret (Inr ''/dev/sbvg_vg0/csilv0''), s0)"
    using outcome_state [OF proxied_source] by blast
  have "mnts host_mounts s3 = filter (\<lambda>k. km_path k \<noteq> ''/data'') (mnts host_mounts s1)"
    by (rule proxied_unpublish_reverts_publish [OF host_agent with_url_proxied _ TrueI s0 _ q(1) _ _
        s1(1) [unfolded proxied_publish_def] _ _ s3 [unfolded proxied_unpublish_def], where reqs = "[]"])
       (simp_all add: mounts_at_def host_mounts_def tiny_view_def with_url_def quiet_state_def is_lvm_path_def q(3)
         asked_publish_def)
  with s1(1) s3 show ?thesis by blast
qed

theorem proxied_publish_stacks_witness:
  "\<exists>s1 s2. proxied_publish (with_url ((True, False), [])) = (Ret (Inr ()), s1) \<and>
     proxied_publish s1 = (Ret (Inr ()), s2) \<and> length (mounts_at ''/data'' (mnts host_mounts s2)) = 2"
proof -
  obtain cs s1 where s1: "proxied_publish (with_url ((True, False), [])) = (Ret (Inr ()), s1)" "s1 = url_at asked_table cs"
    using proxied_published_at by blast
  obtain s2 where s2: "proxied_publish s1 = (Ret (Inr ()), s2)"
    using outcome_state [OF proxied_publish_again] unfolding s1(2) by blast
  have "np_target_path asked_publish = ''/data''" by (simp add: asked_publish_def)
  then have "length (mounts_at ''/data'' (mnts host_mounts s2)) = 2"
    using proxied_publish_stacks [OF host_agent with_url_proxied TrueI host_eager s1(1) [unfolded proxied_publish_def]
        s2 [unfolded proxied_publish_def]]
    by (simp add: mounts_at_def host_mounts_def tiny_view_def with_url_def quiet_state_def)
  with s1(1) s2 show ?thesis by blast
qed


end
