(* ===== verification/Staging.thy ===== *)
theory Staging
  imports Frames
begin

text \<open>
  The targets that \<open>JbofStageIscsiTargets\<close> sets up on the JBOF servers, and the copy of its last
  answer in package variables of \<open>virsh\<close>. The lemmas say when the copy is the answer, that the
  list of servers does not matter then, and that a server that fails is left out of the answer
  without a word.
\<close>

section \<open>What is saved\<close>

text \<open>The saved answer of a state: group, initiator, time and list.\<close>

definition saved :: "'w gs \<Rightarrow> string \<times> string \<times> int \<times> string" where
  "saved s = (lastVgName s, lastInitIqn s, lastTargetSetup s, lastTargetList s)"

lemma saved_extcall: "steady saved (extcall c f)"
  by (simp add: steady_def extcall_def saved_def split: prod.splits)

lemma saved_disconnect: "steady saved (disconnect c)"
  unfolding disconnect_def by (rule saved_extcall)

lemma defer_saved:
  assumes "defer_do (disconnect c) m s = (r, s')"
  obtains s1 where "m s = (r, s1)" and "saved s' = saved s1"
proof -
  obtain r1 s1 where m: "m s = (r1, s1)" by (cases "m s")
  have "disconnect c s1 = (Ret (), s') \<and> r1 = r"
    using assms m by (auto simp: defer_do_def disconnect_def extcall_def)
  with m that steadyD [OF saved_disconnect] show thesis by blast
qed

lemma jbof_loop_saves:
  "jbof_loop sys vg iqn urls acc s = (Ret (Inr targets), s') \<Longrightarrow>
     \<exists>t. saved s' = (vg, iqn, t, targets)"
proof (induction urls arbitrary: acc s s')
  case Nil
  then show ?case
    by (auto simp: saved_def ok_def ret_def put_state_def bind_def extcall_def split: prod.splits)
next
  case (Cons u urls)
  show ?case
  proof (cases "u = ''''")
    case True
    with Cons show ?thesis by simp
  next
    case False
    with Cons.prems have "tryE (stolakeConnect sys u) fail (\<lambda>c.
        bind (extcall (Rpc ''CtrlPubIscsiDrives'' c [vg, iqn]) (sys_CtrlPubIscsiDrives sys c (vg, iqn))) (\<lambda>r.
        defer_do (disconnect c)
          (bind (lift_outcome (target_entries u (case r of Inl _ \<Rightarrow> [] | Inr ts \<Rightarrow> ts) acc))
             (jbof_loop sys vg iqn urls)))) s = (Ret (Inr targets), s')" by simp
    then show ?thesis
    proof (cases rule: tryE_cases)
      case (Inr c s1)
      from Inr(2) show ?thesis
      proof (cases rule: bind_cases)
        case (Ret r s2)
        from Ret(2) obtain s3 where
          "bind (lift_outcome (target_entries u (case r of Inl _ \<Rightarrow> [] | Inr ts \<Rightarrow> ts) acc))
             (jbof_loop sys vg iqn urls) s2 = (Ret (Inr targets), s3)" "saved s' = saved s3"
          by (rule defer_saved)
        then show ?thesis using Cons.IH by (auto elim!: bind_cases)
      qed simp
    qed (simp_all add: fail_def ret_def)
  qed
qed

text \<open>
  the answer for a group and an initiator is given again for two minutes without any server
  being contacted, whatever the list of servers is then: after a staging that returned some
  targets, and as long as no other answer has been saved, only the clock is read.\<close>

theorem staged_targets_cached:
  assumes first: "JbofStageIscsiTargets sys vg urls iqn s = (Ret (Inr targets), s1)" and "targets \<noteq> ''''"
    and kept: "saved s2 = saved s1"
    and clock: "sys_now sys (ext s2) = (now, w)" "now - lastTargetSetup s2 < 120 * 10 ^ 9"
  shows "JbofStageIscsiTargets sys vg urls' iqn s2 =
    (Ret (Inr targets), s2\<lparr>ext := w, trace := trace s2 @ [Os ''now'' []]\<rparr>)"
proof -
  obtain t where t: "saved s1 = (vg, iqn, t, targets)"
  proof -
    obtain now0 w0 where n: "sys_now sys (ext s) = (now0, w0)" by (cases "sys_now sys (ext s)")
    define s0 where "s0 = s\<lparr>ext := w0, trace := trace s @ [Os ''now'' []]\<rparr>"
    have "(if now0 - lastTargetSetup s < 120 * 10 ^ 9 \<and> vg = lastVgName s \<and> iqn = lastInitIqn s \<and> lastTargetList s \<noteq> ''''
        then ok (lastTargetList s) else jbof_loop sys vg iqn (Split urls CHR '','') '''') s0 = (Ret (Inr targets), s1)"
      using first n by (auto simp: JbofStageIscsiTargets_def bind_def extcall_def get_state_def s0_def split: if_splits)
    then show thesis
      using that jbof_loop_saves [of sys vg iqn "Split urls CHR '',''" "''''" s0 targets s1]
      by (auto simp: ok_def ret_def saved_def s0_def split: if_splits)
  qed
  with kept have "lastVgName s2 = vg" "lastInitIqn s2 = iqn" "lastTargetList s2 = targets" by (simp_all add: saved_def)
  then show ?thesis
    using assms(2) clock by (simp add: JbofStageIscsiTargets_def bind_def extcall_def get_state_def ok_def ret_def)
qed

definition one_jbof :: "unit sys" where
  "one_jbof = quiet\<lparr>sys_CtrlPubIscsiDrives := \<lambda>c q w.
     (if c = ''jbof1:5050'' then Inr [\<lparr>si_TargetIqn = ''iqn.a'', si_Lun = ''0'', si_TargetPortal = ''0.0.0.0:3260''\<rparr>]
      else Inl (TextError ''unavailable''), w)\<rparr>"

theorem staged_targets_cached_witness:
  "\<exists>s1 s2. JbofStageIscsiTargets one_jbof ''vg0'' ''jbof1:5050'' ''iqn.n'' (quiet_state ()) =
      (Ret (Inr ''iqn.a#0#jbof1:3260,''), s1) \<and>
     JbofStageIscsiTargets one_jbof ''vg0'' ''jbof2:5050'' ''iqn.n'' s1 = (Ret (Inr ''iqn.a#0#jbof1:3260,''), s2)"
proof -
  define s1 where "s1 = snd (JbofStageIscsiTargets one_jbof ''vg0'' ''jbof1:5050'' ''iqn.n'' (quiet_state ()))"
  have "fst (JbofStageIscsiTargets one_jbof ''vg0'' ''jbof1:5050'' ''iqn.n'' (quiet_state ())) =
      Ret (Inr ''iqn.a#0#jbof1:3260,'')" by code_simp
  note r = outcome_state [OF this, folded s1_def]
  have n: "sys_now one_jbof (ext s1) = (0, ())" "0 - lastTargetSetup s1 < 120 * 10 ^ 9"
    unfolding s1_def by code_simp+
  from staged_targets_cached [OF r _ refl n, of "''jbof2:5050''"] r show ?thesis by blast
qed

text \<open>A server that fails is left out: the error of its call is dropped, and the answer is that of
  the other servers.\<close>

theorem failed_server_left_out:
  assumes "u \<noteq> ''''" and "sys_dial sys u (ext s) = (None, w1)"
    and "sys_CtrlPubIscsiDrives sys u (vg, iqn) w1 = (Inl e, w2)"
  shows "fst (jbof_loop sys vg iqn (u # urls) acc s) =
    fst (jbof_loop sys vg iqn urls acc
      (s\<lparr>ext := w2, trace := trace s @ [Rpc ''dial'' u [], Rpc ''CtrlPubIscsiDrives'' u [vg, iqn]]\<rparr>))"
  using assms
  by (simp add: stolakeConnect_def tryE_def bind_def extcall_def ok_def ret_def lift_outcome_def defer_do_def
      disconnect_def split: prod.split outcome.split)

end
