(* ===== verification/Contexts.thy ===== *)
theory Contexts
  imports Controller
begin

text \<open>
  The volume contexts that travel from \<open>CreateVolume\<close> through the orchestrator to
  \<open>ControllerPublishVolume\<close>: that of a new volume, key by key, and the composition of the two
  RPCs: the context of a volume that was just created is accepted by the publication.
\<close>

section \<open>Contexts are maps\<close>

definition context_ok :: "gomap option \<Rightarrow> bool" where
  "context_ok m \<longleftrightarrow> (case m of None \<Rightarrow> True | Some a \<Rightarrow> map_ok a)"

lemma context_ok_simps [simp]: "context_ok None" "context_ok (Some a) \<longleftrightarrow> map_ok a"
  by (simp_all add: context_ok_def)

lemma map_ok_Nil [simp]: "map_ok []"
  by (simp add: map_ok_def)

lemma map_ok_fold: "map_ok a \<Longrightarrow> map_ok (fold (\<lambda>(k, v). map_set k v) m a)"
  by (induction m arbitrary: a) (auto simp: gomap.invar_set)

lemma context_ok_dupParams [simp]: "context_ok (dupParams m)"
  by (cases m) (simp_all add: dupParams_def map_ok_fold)

lemma context_ok_nset: "nset k v m = Ret m' \<Longrightarrow> context_ok m \<Longrightarrow> context_ok m'"
  by (cases m) (auto simp: gomap.invar_set)

lemma context_ok_set_entries:
  "set_entries kvs m = Ret m' \<Longrightarrow> context_ok m \<Longrightarrow> context_ok m'"
proof (induction kvs arbitrary: m)
  case (Cons p kvs)
  then show ?case by (cases p) (auto split: outcome.splits dest: context_ok_nset)
qed simp

lemma set_entries_keys:
  assumes "set_entries kvs m = Ret m'" and "nget m' k \<noteq> None"
  shows "k \<in> fst ` set kvs \<or> nget m k \<noteq> None"
  using set_entries_get [OF assms(1), of k] assms(2)
  by (auto split: option.splits dest: map_of_SomeD) (metis fst_conv image_eqI map_of_SomeD set_rev)

definition context_keys :: "string set" where
  "context_keys = {''tags'', ''iopspergb'', ''mbpspergb'', ''datapath'', ''stolakejobfurls''}"

lemma context_entries_keys: "fst ` set (context_entries params) \<subseteq> context_keys"
  by (auto simp: context_entries_def context_keys_def split: option.splits)

lemma volumeAttributes_type:
  "volumeAttributes sys lv s = (Ret (Inr a), s') \<Longrightarrow> context_ok a \<and> (\<forall>k. nget a k \<noteq> None \<longrightarrow> k = ''tags'')"
  by (auto simp: volumeAttributes_def ok_def fail_def ret_def map_get_def map_set_def map_ok_def elim!: tryE_cases
      split: if_splits)

text \<open>What the last part of a creation makes of the attributes.\<close>

lemma finish_volume_Inr:
  assumes "finish_volume sys srv params vid lv s = (Ret (Inr v), s')"
  obtains a s1 where "volumeAttributes sys lv s = (Ret (Inr a), s1)" and "context_ok a"
    and "\<forall>k. nget a k \<noteq> None \<longrightarrow> k = ''tags''" and "vol_volume_id v = vid"
    and "set_entries (context_entries params) a = Ret (vol_volume_context v)"
proof -
  obtain a s1 where va: "volumeAttributes sys lv s = (Ret (Inr a), s1)"
      and rest: "bind (lift_outcome (set_entries (context_entries params) a)) (\<lambda>attr'. and_report sys srv
        (ok \<lparr>vol_capacity_bytes = lvol_sizeInBytes lv, vol_volume_id = vid, vol_volume_context = attr'\<rparr>)) s1 =
      (Ret (Inr v), s')"
    using assms unfolding finish_volume_def by (auto elim: tryR_cases)
  have "set_entries (context_entries params) a = Ret (vol_volume_context v) \<and> vol_volume_id v = vid"
    using rest by (cases "set_entries (context_entries params) a")
      (auto simp: lift_outcome_def bind_ret bind_panic panic_def dest: and_report_result)
  with volumeAttributes_type [OF va] va that show ?thesis by blast
qed

lemma CreateLogicalVolume_result:
  "CreateLogicalVolume sys vg nm sz tags optFns s = (Ret (Inr lv), s') \<Longrightarrow> lvol_name lv = nm \<and> lvol_vg lv = vg"
  unfolding CreateLogicalVolume_def deref_def Let_def
  by (auto simp: fail_def ok_def ret_def panic_def elim!: bind_cases split: option.splits sum.splits if_splits)

lemma new_volume_Inr:
  assumes "new_volume sys srv request tags vid s = (Ret (Inr v), s')"
  obtains params lv s1 where "finish_volume sys srv params vid lv s1 = (Ret (Inr v), s')"
    and "\<exists>l. takeVolumeLayoutFromParameters (dupParams (cv_parameters request)) = (None, l, params)"
    and "lvol_name lv = vid" and "lvol_vg lv = srv_volumeGroup srv"
  using assms unfolding new_volume_def
  by (auto dest!: CreateLogicalVolume_result simp: fail_def ret_def elim!: tryE_cases tryR_cases split: prod.splits option.splits sum.splits)

lemma CreateVolume_context:
  assumes "CreateVolume sys srv request s = (Ret (Inr v), s')"
  shows "context_ok (vol_volume_context v) \<and> (\<forall>k. nget (vol_volume_context v) k \<noteq> None \<longrightarrow> k \<in> context_keys)"
proof -
  consider lv s1 where "existing_volume sys request lv s1 = (Ret (Inr v), s')"
    | tags vid s1 where "new_volume sys srv request tags vid s1 = (Ret (Inr v), s')"
    using assms unfolding CreateVolume_def Let_def
    by (auto simp: fail_def ret_def elim!: bind_cases split: sum.splits option.splits)
  then show ?thesis
  proof cases
    case 1
    then obtain s2 s3 where "volumeAttributes sys lv s2 = (Ret (Inr (vol_volume_context v)), s3)"
      unfolding existing_volume_def
      by (auto simp: fail_def ok_def ret_def elim!: bind_cases tryR_cases split: option.splits)
    from volumeAttributes_type [OF this] show ?thesis by (auto simp: context_keys_def)
  next
    case 2
    then obtain params lv s2 where f: "finish_volume sys srv params vid lv s2 = (Ret (Inr v), s')"
      by (rule new_volume_Inr)
    then obtain a where a: "context_ok a" "\<forall>k. nget a k \<noteq> None \<longrightarrow> k = ''tags''"
        "set_entries (context_entries params) a = Ret (vol_volume_context v)"
      by (rule finish_volume_Inr)
    have "k \<in> context_keys" if "nget (vol_volume_context v) k \<noteq> None" for k
      using set_entries_keys [OF a(3) that] a(2) context_entries_keys [of params]
      by (auto simp: context_keys_def)
    with context_ok_set_entries [OF a(3,1)] show ?thesis by blast
  qed
qed

section \<open>The context of a new volume\<close>

text \<open>What the context of a new volume holds: the tags of the volume, the data path, direct unless
  the class names another, and of the other parameters the three that publication needs.\<close>

definition created_context :: "gomap option \<Rightarrow> string list \<Rightarrow> string \<Rightarrow> string option" where
  "created_context params tags =
     [''tags'' \<mapsto> b64_encode (Marshal_strings tags),
      ''datapath'' \<mapsto> (case nget params ''datapath'' of None \<Rightarrow> ''direct'' | Some d \<Rightarrow> ToLower d)] ++
     (nget params |` {''iopspergb'', ''mbpspergb'', ''stolakejobfurls''})"

lemma layout_keeps_context_parameters:
  assumes "takeVolumeLayoutFromParameters p = (None, l, p')"
    and "k \<in> {''datapath'', ''iopspergb'', ''mbpspergb'', ''stolakejobfurls''}"
  shows "nget p' k = nget p k"
  using take_layout_ok(1) [OF assms(1)] assms(2) by (auto simp: layout_keys_def split: option.splits)

lemma context_entries_map:
  "map_of (rev (context_entries p)) k =
     (if k = ''datapath'' then Some (case nget p ''datapath'' of None \<Rightarrow> ''direct'' | Some d \<Rightarrow> ToLower d)
      else if k \<in> {''iopspergb'', ''mbpspergb'', ''stolakejobfurls''} then nget p k else None)"
  by (auto simp: context_entries_def split: option.splits)

lemma created_context_entries:
  "created_context p ts k = (case map_of (rev (context_entries p)) k of Some w \<Rightarrow> Some w
     | None \<Rightarrow> if k = ''tags'' then Some (b64_encode (Marshal_strings ts)) else None)"
proof -
  consider "k = ''datapath''" | "k = ''tags''" | "k \<in> {''iopspergb'', ''mbpspergb'', ''stolakejobfurls''}"
    | "k \<notin> context_keys" by (auto simp: context_keys_def)
  then show ?thesis
    by cases (auto simp: created_context_def context_entries_map context_keys_def map_add_def restrict_map_def
        split: option.splits)
qed

text \<open>C27: the context of a new volume is exactly this: \<open>tags\<close> is the base64 text of the JSON list of
  the tags that \<open>lvs\<close> reports of the new volume, \<open>datapath\<close> the data path of the class in lower
  case or \<open>direct\<close>, and \<open>iopspergb\<close>, \<open>mbpspergb\<close> and \<open>stolakejobfurls\<close> have the values of the
  class, where it gives them; nothing else of the parameters is in it.\<close>

theorem created_volume_context:
  assumes "srv_volumeGroup srv = Some g"
    and "FindLogicalVolume sys (Some g) (LVMatchTag (volumeNameToTag (cv_name request))) s = (Ret (Inl e), s1)"
    and "CreateVolume sys srv request s = (Ret (Inr v), s')"
    and "case cv_parameters request of None \<Rightarrow> True | Some m \<Rightarrow> map_ok m"
  shows "\<exists>lv tags s2 s3. lvol_name lv = vol_volume_id v \<and> lvol_vg lv = Some g \<and>
    Tags_lv sys lv s2 = (Ret (Inr tags), s3) \<and> tags \<noteq> [] \<and>
    nget (vol_volume_context v) = created_context (cv_parameters request) tags"
proof -
  obtain tags vid s3 where "new_volume sys srv request tags vid s3 = (Ret (Inr v), s')"
    using assms(1-3) by (auto simp: CreateVolume_def bind_Ret Let_def fail_def ret_def elim!: bind_cases split: option.splits)
  then obtain params lv s4 l where f: "finish_volume sys srv params vid lv s4 = (Ret (Inr v), s')"
      and l: "takeVolumeLayoutFromParameters (dupParams (cv_parameters request)) = (None, l, params)"
      and lv: "lvol_name lv = vid" "lvol_vg lv = Some g"
    using assms(1) by (auto elim: new_volume_Inr)
  from f obtain a s5 where va: "volumeAttributes sys lv s4 = (Ret (Inr a), s5)" and id: "vol_volume_id v = vid"
      and a: "set_entries (context_entries params) a = Ret (vol_volume_context v)"
    by (rule finish_volume_Inr)
  obtain kv kvs where "context_entries params = kv # kvs"
    by (cases "context_entries params") (auto simp: context_entries_def)
  with a have "a \<noteq> None" by (cases a) (simp_all add: set_entries_nil_panics del: set_entries.simps)
  then obtain ts s6 where ts: "Tags_lv sys lv s4 = (Ret (Inr ts), s6)" "ts \<noteq> []"
      and at: "a = Some (map_set ''tags'' (b64_encode (Marshal_strings ts)) [])"
    using va by (auto simp: volumeAttributes_def ok_def fail_def ret_def elim!: tryE_cases split: if_splits)
  note params = layout_keeps_context_parameters [OF l] nget_dupParams [OF assms(4)]
  have e: "map_of (rev (context_entries params)) k = map_of (rev (context_entries (cv_parameters request))) k" for k
    using params by (simp add: context_entries_map)
  have at': "nget a k = (if k = ''tags'' then Some (b64_encode (Marshal_strings ts)) else None)" for k
    by (simp add: at map_get_def map_set_def)
  have "nget (vol_volume_context v) k = created_context (cv_parameters request) ts k" for k
    unfolding set_entries_get [OF a] e at' by (rule created_context_entries [symmetric])
  then have "nget (vol_volume_context v) = created_context (cv_parameters request) ts" by (rule ext)
  with ts lv id show ?thesis by metis
qed

text \<open>A creation with QoS limits on a data path, with the answers of a small LVM.\<close>

definition qos_create :: CreateVolumeRequest where
  "qos_create = plain_create\<lparr>cv_parameters :=
     Some [(''datapath'', ''Iscsi''), (''iopspergb'', ''5''), (''mbpspergb'', ''7'')]\<rparr>"

theorem created_volume_context_witness:
  "\<exists>v s' tags. CreateVolume lv_after_create (lake_server\<lparr>srv_defaultVolumeSize := 8\<rparr>) qos_create (quiet_state False)
      = (Ret (Inr v), s') \<and> tags \<noteq> [] \<and>
     nget (vol_volume_context v) = [''tags'' \<mapsto> b64_encode (Marshal_strings tags), ''datapath'' \<mapsto> ''iscsi'',
       ''iopspergb'' \<mapsto> ''5'', ''mbpspergb'' \<mapsto> ''7'']"
proof -
  define srv where "srv = lake_server\<lparr>srv_defaultVolumeSize := 8\<rparr>"
  define res where "res = CreateVolume lv_after_create srv qos_create (quiet_state False)"
  have g: "srv_volumeGroup srv = Some lake" by (simp add: srv_def lake_server_def)
  have 1: "fst (FindLogicalVolume lv_after_create (Some lake)
      (LVMatchTag (volumeNameToTag (cv_name qos_create))) (quiet_state False)) = Ret (Inl ErrLogicalVolumeNotFound)"
    by code_simp
  have "(case fst res of Ret (Inr v) \<Rightarrow> True | _ \<Rightarrow> False)"
    unfolding res_def srv_def by code_simp
  then obtain v where v: "fst res = Ret (Inr v)" by (auto split: outcome.splits sum.splits)
  note r = outcome_state [OF v(1), unfolded res_def]
  have lower: "ToLower ''Iscsi'' = ''iscsi''" by code_simp
  have p: "cv_parameters qos_create = Some [(''datapath'', ''Iscsi''), (''iopspergb'', ''5''), (''mbpspergb'', ''7'')]"
    by (simp add: qos_create_def plain_create_def)
  have "case cv_parameters qos_create of None \<Rightarrow> True | Some m \<Rightarrow> map_ok m"
    by (simp add: p map_ok_def)
  from created_volume_context [OF g outcome_state [OF 1] r this] obtain tags where
    t: "tags \<noteq> []" "nget (vol_volume_context v) = created_context (cv_parameters qos_create) tags" by blast
  have "created_context (cv_parameters qos_create) tags = [''tags'' \<mapsto> b64_encode (Marshal_strings tags),
      ''datapath'' \<mapsto> ''iscsi'', ''iopspergb'' \<mapsto> ''5'', ''mbpspergb'' \<mapsto> ''7'']"
    by (auto simp: created_context_def p map_get_def lower map_add_def restrict_map_def fun_eq_iff)
  with t r show ?thesis unfolding res_def srv_def by auto
qed

section \<open>From creation to publication\<close>

text \<open>C25: a volume that was just created can be published: unless its class asks for one of the
  data paths with a target (iscsi, jbofis) or an unsupported one, publishing it to a node with
  the context that the creation returned succeeds without any call to the outside, and the
  publish context is the volume context with the block id added.\<close>

theorem created_volume_can_be_published:
  assumes "srv_volumeGroup srv = Some g"
    and "FindLogicalVolume sys (Some g) (LVMatchTag (volumeNameToTag (cv_name request))) s = (Ret (Inl e), s1)"
    and "CreateVolume sys srv request s = (Ret (Inr v), s')"
    and "cp_volume_id p = vol_volume_id v" and "cp_volume_context p = vol_volume_context v"
    and "cp_volume_id p \<noteq> ''''" and "cp_node_id p \<noteq> ''''" and "cp_volume_capability p \<noteq> None"
    and "ToLower (nval (vol_volume_context v) ''datapath'') \<notin> {''iscsi'', ''jbofis'', ''nvme'', ''qemu''}"
  shows "\<exists>ctx. ControllerPublishVolume sys srv2 p s2 = (Ret (Inr ctx), s2) \<and>
    nget ctx = (nget (vol_volume_context v))(''blockid'' \<mapsto> ''notneeded'') \<and>
    nget (vol_volume_context v) ''datapath'' \<noteq> None"
proof -
  obtain tags vid s3 where "new_volume sys srv request tags vid s3 = (Ret (Inr v), s')"
    using assms(1-3) by (auto simp: CreateVolume_def bind_Ret Let_def fail_def ret_def elim!: bind_cases split: option.splits)
  then obtain params lv s4 where "finish_volume sys srv params vid lv s4 = (Ret (Inr v), s')"
    by (rule new_volume_Inr)
  then obtain a where a: "set_entries (context_entries params) a = Ret (vol_volume_context v)"
    by (rule finish_volume_Inr)
  have "map_of (rev (context_entries params)) ''datapath'' \<noteq> None"
    by (auto simp: context_entries_def map_of_eq_None_iff)
  then have dp: "nget (vol_volume_context v) ''datapath'' \<noteq> None"
    using set_entries_get [OF a, of "''datapath''"] by (auto split: option.splits)
  then obtain m where m: "vol_volume_context v = Some m" by (cases "vol_volume_context v") auto
  have ok: "case vol_volume_context v of None \<Rightarrow> True | Some a \<Rightarrow> map_ok a"
    using CreateVolume_context [OF assms(3)] by (simp add: context_ok_def)
  obtain d where d: "dupParams (vol_volume_context v) = Some d" and nd: "nget (Some d) = nget (vol_volume_context v)"
    using nget_dupParams [OF ok] m dupParams_None_iff by (metis option.exhaust option.distinct(1))
  have nv: "nval (Some d) ''datapath'' = nval (vol_volume_context v) ''datapath''"
    using nd by (simp add: nval_def del: nget_Some)
  have "ControllerPublishVolume sys srv2 p s2 = (Ret (Inr (Some (map_set ''blockid'' ''notneeded'' d))), s2)"
    using assms(5-9) d nv
    by (auto simp: ControllerPublishVolume_def Let_def lift_outcome_def bind_ret ok_def ret_def)
  moreover have "nget (Some (map_set ''blockid'' ''notneeded'' d)) =
      (nget (vol_volume_context v))(''blockid'' \<mapsto> ''notneeded'')"
    using nd by (simp add: gomap.get_set)
  ultimately show ?thesis using dp by blast
qed

definition publish_of :: "Volume \<Rightarrow> ControllerPublishVolumeRequest" where
  "publish_of v = sample_ctrl_publish\<lparr>cp_volume_id := vol_volume_id v, cp_volume_context := vol_volume_context v\<rparr>"

theorem created_volume_can_be_published_witness:
  "\<exists>v s' ctx. CreateVolume lv_after_create (lake_server\<lparr>srv_defaultVolumeSize := 8\<rparr>) plain_create (quiet_state False)
      = (Ret (Inr v), s') \<and>
     ControllerPublishVolume lv_after_create lake_server (publish_of v) s' = (Ret (Inr ctx), s') \<and>
     nget ctx ''blockid'' = Some ''notneeded''"
proof -
  define srv where "srv = lake_server\<lparr>srv_defaultVolumeSize := 8\<rparr>"
  define res where "res = CreateVolume lv_after_create srv plain_create (quiet_state False)"
  have g: "srv_volumeGroup srv = Some lake" by (simp add: srv_def lake_server_def)
  have 1: "fst (FindLogicalVolume lv_after_create (Some lake)
      (LVMatchTag (volumeNameToTag (cv_name plain_create))) (quiet_state False)) = Ret (Inl ErrLogicalVolumeNotFound)"
    by code_simp
  have "(case fst res of Ret (Inr v) \<Rightarrow> vol_volume_id v = ''csilv0'' \<and>
      ToLower (nval (vol_volume_context v) ''datapath'') = ''direct'' | _ \<Rightarrow> False)"
    unfolding res_def srv_def by code_simp
  then obtain v where v: "fst res = Ret (Inr v)" "vol_volume_id v = ''csilv0''"
      "ToLower (nval (vol_volume_context v) ''datapath'') = ''direct''"
    by (auto split: outcome.splits sum.splits)
  note r = outcome_state [OF v(1), unfolded res_def]
  obtain ctx where "ControllerPublishVolume lv_after_create lake_server (publish_of v) (snd res) = (Ret (Inr ctx), snd res)"
      "nget ctx = (nget (vol_volume_context v))(''blockid'' \<mapsto> ''notneeded'')"
    using created_volume_can_be_published [OF g outcome_state [OF 1] r, of "publish_of v" lake_server "snd res"] v(2,3)
    by (auto simp: publish_of_def sample_ctrl_publish_def)
  then show ?thesis using r unfolding res_def srv_def by fastforce
qed

end
