(* ===== verification/Cleanup.thy ===== *)
theory Cleanup
  imports LvmCmd
begin

text \<open>
  \<open>pkg/cleanup/cleanup.go\<close>, the steps that undo what a failing function has done, and
  \<open>pkg/lvm/loop.go\<close>, the loop devices built with them. The files and the loop driver are the
  record \<open>loop_sys\<close> of parameters. The lemmas say that unwinding runs every step, last first,
  whatever the steps do, and that a loop device that cannot be created leaves nothing behind.
\<close>

section \<open>Steps\<close>

type_synonym 'w Steps = "('w gs, goerr option) io list"

definition Add :: "'w Steps \<Rightarrow> ('w gs, goerr option) io \<Rightarrow> 'w Steps" where
  "Add fns fn = fns @ [fn]"

definition checkError :: "('w gs, goerr option) io \<Rightarrow> ('w gs, unit) io" where
  "checkError fn = bind fn (\<lambda>err. case err of Some e \<Rightarrow> panic (Error_text e) | None \<Rightarrow> ret ())"

text \<open>The loop defers \<open>checkError\<close> of each step: the calls run when \<open>Unwind\<close> returns, the last
  deferred first, also when one of them panics.\<close>

fun Unwind :: "'w Steps \<Rightarrow> ('w gs, unit) io" where
  "Unwind [] = ret ()"
| "Unwind (fn # fns) = defer_do (checkError fn) (Unwind fns)"

text \<open>The end state of one step run on its own.\<close>

definition after_step :: "('w gs, goerr option) io \<Rightarrow> 'w gs \<Rightarrow> 'w gs" where
  "after_step fn s = snd (fn s)"

definition step_ok :: "('w gs, goerr option) io \<Rightarrow> 'w gs \<Rightarrow> bool" where
  "step_ok fn s \<longleftrightarrow> fst (fn s) = Ret None"

lemma checkError_eq:
  "snd (checkError fn s) = after_step fn s \<and> (fst (checkError fn s) = Ret () \<longleftrightarrow> step_ok fn s)"
  by (cases "fn s") (auto simp: checkError_def bind_def after_step_def step_ok_def io_simps
      split: outcome.splits option.splits)

lemma Unwind_state: "snd (Unwind fns s) = fold after_step (rev fns) s"
proof (induction fns)
  case Nil
  show ?case by (simp add: ret_def)
next
  case (Cons fn fns)
  obtain r s1 where u: "Unwind fns s = (r, s1)" by (cases "Unwind fns s")
  have "snd (Unwind (fn # fns) s) = snd (checkError fn s1)"
    using u by (cases "checkError fn s1") (simp add: defer_do_def split: outcome.splits)
  then show ?case using Cons u checkError_eq [of fn s1] by simp
qed

fun all_ok :: "'w Steps \<Rightarrow> 'w gs \<Rightarrow> bool" where
  "all_ok [] s \<longleftrightarrow> True"
| "all_ok (fn # fns) s \<longleftrightarrow> step_ok fn s \<and> all_ok fns (after_step fn s)"

lemma all_ok_append: "all_ok (fns @ gns) s \<longleftrightarrow> all_ok fns s \<and> all_ok gns (fold after_step fns s)"
  by (induction fns arbitrary: s) auto

lemma Unwind_returns: "fst (Unwind fns s) = Ret () \<longleftrightarrow> all_ok (rev fns) s"
proof (induction fns)
  case Nil
  show ?case by (simp add: ret_def)
next
  case (Cons fn fns)
  obtain r s1 where u: "Unwind fns s = (r, s1)" by (cases "Unwind fns s")
  have s1: "s1 = fold after_step (rev fns) s" using Unwind_state [of fns s] u by simp
  have "fst (Unwind (fn # fns) s) = Ret () \<longleftrightarrow> r = Ret () \<and> fst (checkError fn s1) = Ret ()"
    using u by (cases "checkError fn s1") (auto simp: defer_do_def split: outcome.splits)
  then show ?case using Cons u s1 checkError_eq [of fn s1] by (simp add: all_ok_append)
qed

text \<open>
  \<open>Unwind\<close> runs every step exactly once, in the reverse order of their addition, also when
  some of them fail or panic, and it returns normally exactly when none does.\<close>

theorem unwind_runs_all:
  "snd (Unwind fns s) = fold after_step (rev fns) s \<and> (fst (Unwind fns s) = Ret () \<longleftrightarrow> all_ok (rev fns) s)"
  by (rule conjI) (rule Unwind_state, rule Unwind_returns)

section \<open>Loop devices\<close>

text \<open>The standard library and the loop driver, with the name of the file or the path of the
  device as results.\<close>

record 'w loop_sys =
  lo_TempFile :: "string \<Rightarrow> string \<Rightarrow> 'w \<Rightarrow> (goerr + string) \<times> 'w"
  lo_CloseFile :: "string \<Rightarrow> 'w \<Rightarrow> goerr option \<times> 'w"
  lo_Truncate :: "string \<Rightarrow> int64 \<Rightarrow> 'w \<Rightarrow> goerr option \<times> 'w"
  lo_Remove :: "string \<Rightarrow> 'w \<Rightarrow> goerr option \<times> 'w"
  lo_Attach :: "string \<Rightarrow> uint64 \<Rightarrow> bool \<Rightarrow> 'w \<Rightarrow> (goerr + string) \<times> 'w"
  lo_Detach :: "string \<Rightarrow> 'w \<Rightarrow> goerr option \<times> 'w"

record LoopDevice =
  lodev :: string
  backingFilePath :: string

definition Path_loop :: "LoopDevice \<Rightarrow> string" where "Path_loop d = lodev d"
definition String_loop :: "LoopDevice \<Rightarrow> string" where "String_loop d = lodev d"

definition remove_file :: "'w loop_sys \<Rightarrow> string \<Rightarrow> ('w gs, goerr option) io" where
  "remove_file los f = extcall (Os ''remove'' [f]) (lo_Remove los f)"

definition detach :: "'w loop_sys \<Rightarrow> string \<Rightarrow> ('w gs, goerr option) io" where
  "detach los dev = extcall (Os ''detach'' [dev]) (lo_Detach los dev)"

definition Close_loop :: "'w loop_sys \<Rightarrow> LoopDevice \<Rightarrow> ('w gs, goerr option) io" where
  "Close_loop los d =
     bind (detach los (lodev d)) (\<lambda>err. case err of
       Some e \<Rightarrow> ret (Some e)
     | None \<Rightarrow> remove_file los (backingFilePath d))"

text \<open>The body of \<open>CreateLoopDevice\<close> with the steps it has added when it returns.\<close>

definition create_loop ::
  "'w loop_sys \<Rightarrow> uint64 \<Rightarrow> ('w gs, (goerr + LoopDevice) \<times> 'w Steps) io" where
  "create_loop los sz =
     bind (extcall (Os ''tempfile'' []) (lo_TempFile los '''' ''test-dev'')) (\<lambda>file. case file of
       Inl e \<Rightarrow> ret (Inl e, [])
     | Inr f \<Rightarrow>
     (let steps = Add [] (remove_file los f) in
     bind (extcall (Os ''close'' [f]) (lo_CloseFile los f)) (\<lambda>err. case err of
       Some e \<Rightarrow> ret (Inl e, steps)
     | None \<Rightarrow>
     bind (extcall (Os ''truncate'' [f]) (lo_Truncate los f sz)) (\<lambda>err. case err of
       Some e \<Rightarrow> ret (Inl e, steps)
     | None \<Rightarrow>
     bind (extcall (Os ''attach'' [f]) (lo_Attach los f 0 False)) (\<lambda>dev. case dev of
       Inl e \<Rightarrow> ret (Inl e, steps)
     | Inr d \<Rightarrow> ret (Inr \<lparr>lodev = d, backingFilePath = f\<rparr>, Add steps (detach los d)))))))"

definition CreateLoopDevice :: "'w loop_sys \<Rightarrow> uint64 \<Rightarrow> ('w gs, goerr + LoopDevice) io" where
  "CreateLoopDevice los sz =
     bind (create_loop los sz) (\<lambda>(r, steps). case r of
       Inl e \<Rightarrow> bind (Unwind steps) (\<lambda>_. fail e)
     | Inr d \<Rightarrow> ok d)"

section \<open>Nothing is left behind\<close>

text \<open>What the file system and the loop driver promise, on the files and the devices they hold: a
  new file or device is new, a failing call changes nothing, and removing takes away exactly
  the named one.\<close>

definition loop_laws :: "'w loop_sys \<Rightarrow> ('w \<Rightarrow> string set) \<Rightarrow> ('w \<Rightarrow> string set) \<Rightarrow> bool" where
  "loop_laws los files devs \<longleftrightarrow>
     (\<forall>d p w. case lo_TempFile los d p w of (r, w') \<Rightarrow> devs w' = devs w \<and>
        (case r of Inl _ \<Rightarrow> files w' = files w | Inr f \<Rightarrow> f \<notin> files w \<and> files w' = insert f (files w))) \<and>
     (\<forall>f w. case lo_CloseFile los f w of (_, w') \<Rightarrow> files w' = files w \<and> devs w' = devs w) \<and>
     (\<forall>f n w. case lo_Truncate los f n w of (_, w') \<Rightarrow> files w' = files w \<and> devs w' = devs w) \<and>
     (\<forall>f off ro w. case lo_Attach los f off ro w of (r, w') \<Rightarrow> files w' = files w \<and>
        (case r of Inl _ \<Rightarrow> devs w' = devs w | Inr d \<Rightarrow> d \<notin> devs w \<and> devs w' = insert d (devs w))) \<and>
     (\<forall>f w. case lo_Remove los f w of (r, w') \<Rightarrow> devs w' = devs w \<and>
        (r = None \<longrightarrow> files w' = files w - {f})) \<and>
     (\<forall>d w. case lo_Detach los d w of (r, w') \<Rightarrow> files w' = files w \<and>
        (case r of Some _ \<Rightarrow> devs w' = devs w | None \<Rightarrow> devs w' = devs w - {d}))"

lemma loop_lawsD:
  assumes "loop_laws los files devs"
  shows "lo_TempFile los d p w = (r, w') \<Longrightarrow> devs w' = devs w \<and>
      (case r of Inl _ \<Rightarrow> files w' = files w | Inr f \<Rightarrow> f \<notin> files w \<and> files w' = insert f (files w))"
    and "lo_CloseFile los f w = (err, w') \<Longrightarrow> files w' = files w \<and> devs w' = devs w"
    and "lo_Truncate los f n w = (err, w') \<Longrightarrow> files w' = files w \<and> devs w' = devs w"
    and "lo_Attach los f off ro w = (r, w') \<Longrightarrow> files w' = files w \<and>
      (case r of Inl _ \<Rightarrow> devs w' = devs w | Inr d \<Rightarrow> d \<notin> devs w \<and> devs w' = insert d (devs w))"
    and "lo_Remove los f w = (err, w') \<Longrightarrow> devs w' = devs w \<and> (err = None \<longrightarrow> files w' = files w - {f})"
    and "lo_Detach los d w = (err, w') \<Longrightarrow> files w' = files w \<and>
      (case err of Some _ \<Rightarrow> devs w' = devs w | None \<Rightarrow> devs w' = devs w - {d})"
  using assms unfolding loop_laws_def by (metis (mono_tags, lifting) case_prod_conv)+

text \<open>What is held after the body, and after undoing it.\<close>

definition held :: "('w \<Rightarrow> string set) \<Rightarrow> ('w \<Rightarrow> string set) \<Rightarrow> 'w gs \<Rightarrow> string set \<times> string set" where
  "held files devs s = (files (ext s), devs (ext s))"

lemma extcall_cases:
  assumes "bind (extcall c f) k s = (r, s')"
  obtains x w where "f (ext s) = (x, w)" and "k x (s\<lparr>ext := w, trace := trace s @ [c]\<rparr>) = (r, s')"
  using assms by (cases "f (ext s)") (simp add: bind_def extcall_def)

lemma create_loop_cases:
  assumes l: "loop_laws los files devs" and c: "create_loop los sz s = (r, s')"
  obtains
    (failed) e where "r = Ret (Inl e, [])" and "held files devs s' = held files devs s"
  | (undo) e f where "r = Ret (Inl e, [remove_file los f])" and "f \<notin> files (ext s)"
      and "held files devs s' = (insert f (files (ext s)), devs (ext s))"
  | (made) d where "r = Ret (Inr d, [remove_file los (backingFilePath d), detach los (lodev d)])"
      and "backingFilePath d \<notin> files (ext s)" and "lodev d \<notin> devs (ext s)"
      and "held files devs s' = (insert (backingFilePath d) (files (ext s)), insert (lodev d) (devs (ext s)))"
  using c unfolding create_loop_def
  by (fastforce elim!: extcall_cases split: sum.splits option.splits dest!: loop_lawsD [OF l]
      simp: Let_def ret_def Add_def held_def intro: failed undo made)

lemma CreateLoopDevice_effect:
  assumes "loop_laws los files devs" and "CreateLoopDevice los sz s = (Ret r, s')"
  shows "case r of
      Inl _ \<Rightarrow> files (ext s') = files (ext s) \<and> devs (ext s') = devs (ext s)
    | Inr d \<Rightarrow> backingFilePath d \<notin> files (ext s) \<and> lodev d \<notin> devs (ext s) \<and>
        files (ext s') = insert (backingFilePath d) (files (ext s)) \<and> devs (ext s') = insert (lodev d) (devs (ext s))"
proof -
  obtain res s1 where c: "create_loop los sz s = (res, s1)" by (cases "create_loop los sz s")
  have rest: "bind (\<lambda>_. (res, s1)) (\<lambda>(r, steps). case r of
       Inl e \<Rightarrow> bind (Unwind steps) (\<lambda>_. fail e) | Inr d \<Rightarrow> ok d) s = (Ret r, s')"
    using assms(2) c by (simp add: CreateLoopDevice_def bind_def)
  from assms(1) c show ?thesis
  proof (cases rule: create_loop_cases)
    case (failed e)
    then show ?thesis using rest by (auto simp: bind_def fail_def ret_def held_def)
  next
    case (undo e f)
    obtain err w where rm: "lo_Remove los f (ext s1) = (err, w)" by (cases "lo_Remove los f (ext s1)")
    then show ?thesis
      using rest undo loop_lawsD(5) [OF assms(1) rm]
      by (auto simp: bind_def fail_def ret_def held_def defer_do_def checkError_def remove_file_def extcall_def panic_def
          split: option.splits)
  next
    case (made d)
    then show ?thesis using rest by (auto simp: bind_def ok_def ret_def held_def)
  qed
qed

text \<open>C35: a loop device that cannot be created leaves nothing behind: when \<open>CreateLoopDevice\<close> returns
  an error, the files and the loop devices are those from before; when it succeeds there is
  one new file and one new device, those of the result.\<close>

theorem failed_loop_device_leaves_nothing:
  assumes "loop_laws los files devs" and "CreateLoopDevice los sz s = (Ret r, s')"
  shows "case r of
      Inl _ \<Rightarrow> files (ext s') = files (ext s) \<and> devs (ext s') = devs (ext s)
    | Inr d \<Rightarrow> backingFilePath d \<notin> files (ext s) \<and> lodev d \<notin> devs (ext s) \<and>
        files (ext s') = insert (backingFilePath d) (files (ext s)) \<and> devs (ext s') = insert (lodev d) (devs (ext s))"
  using CreateLoopDevice_effect [OF assms] .

text \<open>Creating a loop device and closing it restores the files and the devices.\<close>

lemma loop_device_roundtrip:
  assumes "loop_laws los files devs" and "CreateLoopDevice los sz s = (Ret (Inr d), s1)"
    and "Close_loop los d s1 = (Ret None, s2)"
  shows "files (ext s2) = files (ext s) \<and> devs (ext s2) = devs (ext s)"
proof -
  obtain w1 where 1: "lo_Detach los (lodev d) (ext s1) = (None, w1)"
      and 2: "lo_Remove los (backingFilePath d) w1 = (None, ext s2)"
    using assms(3) unfolding Close_loop_def detach_def
    by (auto elim!: extcall_cases simp: remove_file_def extcall_def ret_def split: option.splits prod.splits)
  show ?thesis
    using CreateLoopDevice_effect [OF assms(1,2)] loop_lawsD(6) [OF assms(1) 1] loop_lawsD(5) [OF assms(1) 2] by auto
qed

section \<open>An example driver\<close>

text \<open>One temporary file and one loop device can exist.\<close>

definition tiny_loop :: "(string set \<times> string set) loop_sys" where
  "tiny_loop = \<lparr>
     lo_TempFile = \<lambda>d p (fs, ds). if ''t'' \<in> fs then (Inl (TextError ''exists''), fs, ds) else (Inr ''t'', insert ''t'' fs, ds),
     lo_CloseFile = \<lambda>f w. (None, w),
     lo_Truncate = \<lambda>f n w. (None, w),
     lo_Remove = \<lambda>f (fs, ds). (None, fs - {f}, ds),
     lo_Attach = \<lambda>f off ro (fs, ds). if ''loop0'' \<in> ds then (Inl (TextError ''busy''), fs, ds)
       else (Inr ''loop0'', fs, insert ''loop0'' ds),
     lo_Detach = \<lambda>d (fs, ds). (None, fs, ds - {d})\<rparr>"

lemma tiny_loop_laws: "loop_laws tiny_loop fst snd"
  by (auto simp: loop_laws_def tiny_loop_def split: prod.splits)

theorem failed_loop_device_leaves_nothing_witness:
  "\<exists>s'. CreateLoopDevice tiny_loop 4096 (quiet_state ({}, {''loop0''})) = (Ret (Inl (TextError ''busy'')), s') \<and>
     fst (ext s') = {}"
proof -
  define s :: "(string set \<times> string set) gs" where "s = quiet_state ({}, {''loop0''})"
  have "fst (CreateLoopDevice tiny_loop 4096 s) = Ret (Inl (TextError ''busy''))"
    by (simp add: s_def quiet_state_def CreateLoopDevice_def create_loop_def tiny_loop_def bind_def extcall_def Add_def
        defer_do_def checkError_def remove_file_def fail_def ret_def Let_def)
  note c = outcome_state [OF this]
  have "fst (ext (snd (CreateLoopDevice tiny_loop 4096 s))) = {}"
    using failed_loop_device_leaves_nothing [OF tiny_loop_laws c] by (simp add: s_def quiet_state_def)
  with c show ?thesis unfolding s_def by blast
qed

end
