(* ===== verification/Uptime.thy ===== *)
theory Uptime
  imports Main
begin

text \<open>
  \<open>ReportUptime\<close> of \<open>pkg/csilvm/metrics.go\<close>: the goroutine that reports the uptime, its ticker,
  and the function that stops it. The state has the program counters of the calling function
  and of the goroutine, the ticker and its channel of capacity one, and the number of updates
  of the gauge; a step is one operation of either goroutine or a tick of the clock. The
  function defers \<open>Stop\<close> of the ticker it has just started, so the lemmas find that the gauge
  can be updated at most once after the function has returned; they also find that the
  cancel function always gets the goroutine to end.
\<close>

section \<open>State\<close>

text \<open>The caller: in \<open>ReportUptime\<close>, back from it, waiting in the cancel function, back from that.\<close>

datatype caller = Starting | Returned | Waiting | Cancelled

text \<open>The goroutine: not yet running, in its \<open>select\<close>, or ended.\<close>

datatype routine = Unborn | Selecting | Ended

record uptime =
  caller :: caller
  routine :: routine
  ticking :: bool
  tick_waits :: bool
  done_closed :: bool
  updates :: nat

text \<open>The state once \<open>time.NewTicker\<close> has returned.\<close>

definition fresh_uptime :: uptime where
  "fresh_uptime = \<lparr>caller = Starting, routine = Unborn, ticking = True, tick_waits = False,
     done_closed = False, updates = 0\<rparr>"

section \<open>Steps\<close>

text \<open>\<open>return\<close> runs the deferred \<open>Stop\<close>; \<open>close(done)\<close> is the start of the cancel function, whose
  \<open>wg.Wait\<close> returns once the goroutine has ended. In the goroutine's \<open>select\<close>, either a tick is
  received and the gauge updated, or \<open>done\<close> is seen closed; the goroutine's own deferred calls
  stop the ticker and then report to the wait group. A tick is dropped when one waits already.\<close>

inductive uptime_step :: "uptime \<Rightarrow> uptime \<Rightarrow> bool" where
  go: "routine u = Unborn \<Longrightarrow> uptime_step u (u\<lparr>routine := Selecting\<rparr>)"
| tick: "ticking u \<Longrightarrow> uptime_step u (u\<lparr>tick_waits := True\<rparr>)"
| return: "caller u = Starting \<Longrightarrow> uptime_step u (u\<lparr>caller := Returned, ticking := False\<rparr>)"
| update: "routine u = Selecting \<Longrightarrow> tick_waits u \<Longrightarrow>
     uptime_step u (u\<lparr>tick_waits := False, updates := Suc (updates u)\<rparr>)"
| cancel: "caller u = Returned \<Longrightarrow> uptime_step u (u\<lparr>caller := Waiting, done_closed := True\<rparr>)"
| finish: "routine u = Selecting \<Longrightarrow> done_closed u \<Longrightarrow>
     uptime_step u (u\<lparr>routine := Ended, ticking := False\<rparr>)"
| waited: "caller u = Waiting \<Longrightarrow> routine u = Ended \<Longrightarrow> uptime_step u (u\<lparr>caller := Cancelled\<rparr>)"

inductive_cases uptime_stepE: "uptime_step u v"

section \<open>The gauge\<close>

text \<open>After the return nothing ticks any more: the updates still to come are at most the tick that
  already waits.\<close>

lemma stopped_step:
  assumes "uptime_step u v" and "caller u \<noteq> Starting" and "\<not> ticking u"
  shows "caller v \<noteq> Starting \<and> \<not> ticking v \<and>
    updates v + (if tick_waits v then 1 else 0) = updates u + (if tick_waits u then 1 else 0)"
  using assms by cases auto

lemma stopped_run:
  assumes "uptime_step\<^sup>*\<^sup>* u v" and "caller u \<noteq> Starting" and "\<not> ticking u"
  shows "\<not> ticking v \<and> caller v \<noteq> Starting \<and>
    updates v + (if tick_waits v then 1 else 0) = updates u + (if tick_waits u then 1 else 0)"
  using assms by (induction rule: rtranclp_induct) (auto dest: stopped_step)

lemma returned_stopped:
  assumes "uptime_step\<^sup>*\<^sup>* fresh_uptime u"
  shows "(caller u \<noteq> Starting \<longrightarrow> \<not> ticking u) \<and> (done_closed u \<longleftrightarrow> caller u = Waiting \<or> caller u = Cancelled)"
  using assms
proof (induction rule: rtranclp_induct)
  case base
  then show ?case by (simp add: fresh_uptime_def)
next
  case (step u v)
  from step(2,3) show ?case by cases auto
qed

text \<open>C36: the uptime is not reported: once \<open>ReportUptime\<close> has returned, its ticker is stopped, and
  the gauge is updated at most once more, for a tick from before the return.\<close>

theorem uptime_gauge_stops:
  assumes "uptime_step\<^sup>*\<^sup>* fresh_uptime u" and "caller u = Returned" and "uptime_step\<^sup>*\<^sup>* u v"
  shows "updates v \<le> updates u + (if tick_waits u then 1 else 0)"
proof -
  have "\<not> ticking u" using returned_stopped [OF assms(1)] assms(2) by simp
  with stopped_run [OF assms(3)] assms(2) show ?thesis by (simp split: if_splits)
qed

section \<open>The end\<close>

text \<open>What is left to do: it shrinks with every step once the ticker is stopped.\<close>

definition left_to_do :: "uptime \<Rightarrow> nat" where
  "left_to_do u =
     (case caller u of Starting \<Rightarrow> 3 | Returned \<Rightarrow> 2 | Waiting \<Rightarrow> 1 | Cancelled \<Rightarrow> 0) +
     (case routine u of Unborn \<Rightarrow> 2 | Selecting \<Rightarrow> 1 | Ended \<Rightarrow> 0) + (if tick_waits u then 1 else 0)"

lemma step_shrinks:
  assumes "uptime_step u v" and "\<not> ticking u"
  shows "left_to_do v < left_to_do u"
  using assms by cases (auto simp: left_to_do_def)

lemma waiting_progress:
  assumes "caller u = Waiting" and "done_closed u"
  shows "\<exists>v. uptime_step u v"
  using assms by (cases "routine u") (auto intro: uptime_step.intros)

text \<open>
  the cancel function returns: from every reachable state in which it waits, every run is
  finite, of at most four steps, and a run that cannot go on has left it.\<close>

theorem cancel_returns:
  assumes "uptime_step\<^sup>*\<^sup>* fresh_uptime u" and "caller u = Waiting" and "(uptime_step ^^ k) u v"
  shows "k \<le> 4 \<and> ((\<nexists>w. uptime_step v w) \<longrightarrow> caller v = Cancelled)"
proof -
  have u: "\<not> ticking u" "done_closed u" using returned_stopped [OF assms(1)] assms(2) by auto
  have run: "left_to_do v + k \<le> left_to_do u \<and> \<not> ticking v \<and> (caller v = Waiting \<or> caller v = Cancelled) \<and> done_closed v"
    using assms(3)
  proof (induction k arbitrary: v)
    case 0
    then show ?case using u assms(2) by simp
  next
    case (Suc k)
    then obtain w where w: "(uptime_step ^^ k) u w" "uptime_step w v" by auto
    note ih = Suc.IH [OF w(1)]
    then have "left_to_do v < left_to_do w" using step_shrinks w(2) by blast
    moreover have "\<not> ticking v \<and> (caller v = Waiting \<or> caller v = Cancelled) \<and> done_closed v"
      using w(2) ih by cases auto
    ultimately show ?case using ih by simp
  qed
  moreover have "left_to_do u \<le> 4"
    using assms(2) by (simp add: left_to_do_def split: routine.split)
  ultimately show ?thesis using waiting_progress [of v] by auto
qed

section \<open>An example run\<close>

definition resumed :: uptime where
  "resumed = fresh_uptime\<lparr>caller := Returned, ticking := False, routine := Selecting\<rparr>"

lemma resumed_reachable: "uptime_step\<^sup>*\<^sup>* fresh_uptime resumed"
proof -
  have "uptime_step fresh_uptime (fresh_uptime\<lparr>caller := Returned, ticking := False\<rparr>)"
    by (rule uptime_step.return) (simp add: fresh_uptime_def)
  moreover have "uptime_step (fresh_uptime\<lparr>caller := Returned, ticking := False\<rparr>) resumed"
    using uptime_step.go [of "fresh_uptime\<lparr>caller := Returned, ticking := False\<rparr>"]
    by (simp add: resumed_def fresh_uptime_def)
  ultimately show ?thesis by auto
qed

definition stopping :: uptime where
  "stopping = resumed\<lparr>caller := Waiting, done_closed := True\<rparr>"

lemma stopping_step: "uptime_step resumed stopping"
  unfolding stopping_def by (rule uptime_step.cancel) (simp add: resumed_def)

theorem uptime_gauge_stops_witness: "updates stopping \<le> updates resumed + (if tick_waits resumed then 1 else 0)"
  by (rule uptime_gauge_stops [OF resumed_reachable _ r_into_rtranclp [where r = uptime_step, OF stopping_step]])
     (simp add: resumed_def)

theorem cancel_returns_witness:
  "(2 :: nat) \<le> 4 \<and> caller (stopping\<lparr>routine := Ended, ticking := False, caller := Cancelled\<rparr>) = Cancelled"
proof -
  have r: "uptime_step\<^sup>*\<^sup>* fresh_uptime stopping"
    using resumed_reachable stopping_step by (rule rtranclp.rtrancl_into_rtrancl)
  have 1: "uptime_step stopping (stopping\<lparr>routine := Ended, ticking := False\<rparr>)"
    by (rule uptime_step.finish) (simp_all add: stopping_def resumed_def)
  have 2: "uptime_step (stopping\<lparr>routine := Ended, ticking := False\<rparr>)
      (stopping\<lparr>routine := Ended, ticking := False, caller := Cancelled\<rparr>)"
    using uptime_step.waited [of "stopping\<lparr>routine := Ended, ticking := False\<rparr>"] by (simp add: stopping_def)
  define v where "v = stopping\<lparr>routine := Ended, ticking := False, caller := Cancelled\<rparr>"
  have "(uptime_step ^^ 2) stopping v"
    using 1 2 unfolding v_def numeral_2_eq_2 by auto
  then have k: "(2::nat) \<le> 4 \<and> ((\<nexists>w. uptime_step v w) \<longrightarrow> caller v = Cancelled)"
    using cancel_returns [OF r, of 2 v] by (simp add: stopping_def)
  have "\<nexists>w. uptime_step v w"
    by (auto simp: v_def stopping_def resumed_def fresh_uptime_def elim!: uptime_stepE)
  with k show ?thesis by (simp add: v_def)
qed

end
