(* ===== verification/Leftovers.thy ===== *)
theory Leftovers
  imports Server Validate
begin

text \<open>
  Code that the plugin itself does not call: the listing and starting of all pools with the test
  program \<open>main\<close> of \<open>pkg/virsh\<close>, \<open>CSICheck\<close>, the erasing of a device (\<open>deleteDataOnDevice\<close> and
  \<open>zeroPartitionTable\<close> of \<open>server.go\<close>), \<open>LinearConfig\<close> of package \<open>lvm\<close>, and getters. What is
  only printed is left out. The lemmas say when the erasing of a device succeeds, that every
  agent call closes the connection it opened, and what the getters give for a volume found by
  its name.
\<close>

section \<open>Pools\<close>

definition vol_of_line :: "string \<Rightarrow> (string \<times> string) option" where
  "vol_of_line ln =
     (case Fields ln of
        w0 # w1 # _ \<Rightarrow>
          if w0 = ''Name'' then None
          else if length w0 < 2 then None
          else Some (w0, w1)
      | _ \<Rightarrow> None)"

text \<open>The map of the volumes; the error of \<open>virshProxy\<close> is discarded.\<close>

definition ListHyprVols :: "'w sys \<Rightarrow> string \<Rightarrow> ('w gs, gomap) io" where
  "ListHyprVols sys pool = bind (virshProxy sys [''vol-list'', pool]) (\<lambda>out.
     ret (fold (\<lambda>(k, v). map_set k v) (List.map_filter vol_of_line (Split (proxy_out out) CHR 0x0A)) []))"

definition ListVGs :: "string list" where
  "ListVGs = [''sbvg_datalake'']"

text \<open>One round of the loop for each group.\<close>

fun start_pools :: "'w sys \<Rightarrow> string list \<Rightarrow> ('w gs, unit) io" where
  "start_pools sys [] = ret ()"
| "start_pools sys (vg # vgs) =
     bind (DefinePool sys vg) (\<lambda>_.
     bind (StartPool sys vg) (\<lambda>_.
     bind (ListHyprVols sys vg) (\<lambda>_.
     start_pools sys vgs)))"

definition StartAllPools :: "'w sys \<Rightarrow> ('w gs, unit) io" where
  "StartAllPools sys = start_pools sys ListVGs"

definition virsh_main :: "'w sys \<Rightarrow> ('w gs, unit) io" where
  "virsh_main sys =
     bind (ListAllPools sys) (\<lambda>_.
     bind (ListMappings sys) (\<lambda>_.
     StartAllPools sys))"

section \<open>The check of the agent\<close>

text \<open>The error of \<open>connect\<close> is only logged; the call on the missing connection then panics.\<close>

definition CSICheck :: "'w sys \<Rightarrow> ('w gs, unit) io" where
  "CSICheck sys =
     tryE (connect sys) (\<lambda>_. panic nil_deref) (\<lambda>c.
     bind (extcall (Rpc ''RetrieveInfo'' c []) (sys_RetrieveInfo sys c)) (\<lambda>_.
     disconnect c))"

section \<open>Erasing a device\<close>

text \<open>The files of the standard library: opening, the copy until an error or the end of the source,
  and a write. \<open>fs_is_ENOSPC\<close> recognises a \<open>PathError\<close> with that error number.\<close>

record 'w file_sys =
  fs_OpenWrite :: "string \<Rightarrow> 'w \<Rightarrow> goerr option \<times> 'w"
  fs_OpenRead :: "string \<Rightarrow> 'w \<Rightarrow> goerr option \<times> 'w"
  fs_Copy :: "string \<Rightarrow> string \<Rightarrow> 'w \<Rightarrow> goerr option \<times> 'w"
  fs_Write :: "string \<Rightarrow> string \<Rightarrow> 'w \<Rightarrow> goerr option \<times> 'w"
  fs_is_ENOSPC :: "goerr \<Rightarrow> bool"

definition close_file :: "string \<Rightarrow> ('w gs, unit) io" where
  "close_file p = extcall (Os ''close'' [p]) (\<lambda>w. ((), w))"

definition deleteDataOnDevice :: "'w file_sys \<Rightarrow> string \<Rightarrow> ('w gs, goerr option) io" where
  "deleteDataOnDevice fs devicePath =
     bind (extcall (Os ''open'' [devicePath]) (fs_OpenWrite fs devicePath)) (\<lambda>err. case err of
       Some e \<Rightarrow> ret (Some e)
     | None \<Rightarrow> defer_do (close_file devicePath) (
     bind (extcall (Os ''open'' [''/dev/zero'']) (fs_OpenRead fs ''/dev/zero'')) (\<lambda>err. case err of
       Some e \<Rightarrow> ret (Some e)
     | None \<Rightarrow> defer_do (close_file ''/dev/zero'') (
     bind (extcall (Os ''copy'' [devicePath, ''/dev/zero'']) (fs_Copy fs devicePath ''/dev/zero'')) (\<lambda>err. case err of
       Some e \<Rightarrow> if fs_is_ENOSPC fs e then ret None else ret (Some e)
     | None \<Rightarrow> panic ''csilvm: expected ENOSPC when erasing data'')))))"

definition zeroPartitionTable :: "'w file_sys \<Rightarrow> string \<Rightarrow> ('w gs, goerr option) io" where
  "zeroPartitionTable fs devicePath =
     bind (extcall (Os ''open'' [devicePath]) (fs_OpenWrite fs devicePath)) (\<lambda>err. case err of
       Some e \<Rightarrow> ret (Some e)
     | None \<Rightarrow> defer_do (close_file devicePath) (
     bind (extcall (Os ''write'' [devicePath]) (fs_Write fs devicePath (replicate 512 CHR 0x00))) (\<lambda>err. case err of
       Some e \<Rightarrow> ret (Some e)
     | None \<Rightarrow> ret None)))"

section \<open>LinearConfig\<close>

definition LinearConfig_Flags :: "string list" where
  "LinearConfig_Flags = [''--type=linear'']"

section \<open>Lemmas\<close>

text \<open>Erasing succeeds only when the copy of zeroes has run into the end of the device.\<close>

lemma deleteDataOnDevice_None:
  assumes "deleteDataOnDevice fs p s = (Ret None, s')"
  shows "\<exists>e w w'. fs_Copy fs p ''/dev/zero'' w = (Some e, w') \<and> fs_is_ENOSPC fs e"
  using assms unfolding deleteDataOnDevice_def close_file_def
  by (auto simp: bind_def extcall_def defer_do_def ret_def panic_def
      split: prod.splits option.splits if_splits outcome.splits)

text \<open>The connections a computation has opened are closed when it ends: an agent call adds as many
  \<open>close\<close> as it adds successful \<open>dial\<close>. The number of open connections, read off the calls with
  the answers of the agent, is a balance of the two.\<close>

definition closes :: "call \<Rightarrow> bool" where
  "closes c \<longleftrightarrow> (case c of Rpc m url a \<Rightarrow> m = ''close'' | _ \<Rightarrow> False)"

definition dials :: "call \<Rightarrow> bool" where
  "dials c \<longleftrightarrow> (case c of Rpc m url a \<Rightarrow> m = ''dial'' | _ \<Rightarrow> False)"

definition count_calls :: "(call \<Rightarrow> bool) \<Rightarrow> 'w gs \<Rightarrow> nat" where
  "count_calls P s = length (filter P (trace s))"

lemma with_agent_closes:
  assumes body: "\<And>c. emits (\<lambda>x. \<not> closes x \<and> \<not> dials x) (body c)"
    and "with_agent sys on_err body s = (r, s')"
  shows "count_calls dials s' = Suc (count_calls dials s) \<and>
    count_calls closes s' = count_calls closes s
      + (if fst (sys_dial sys (''unix://'' @ StolakeURL s) (ext s)) = None then 1 else 0)"
proof -
  define url where "url = ''unix://'' @ StolakeURL s"
  obtain derr w where d: "sys_dial sys url (ext s) = (derr, w)" by (cases "sys_dial sys url (ext s)")
  define s1 where "s1 = s\<lparr>ext := w, trace := trace s @ [Rpc ''dial'' url []]\<rparr>"
  have c: "connect sys s = (Ret (case derr of Some e \<Rightarrow> Inl e | None \<Rightarrow> Inr url), s1)"
    unfolding connect_def stolakeConnect_def bind_get_state url_def [symmetric]
    using d by (cases derr) (simp_all add: bind_def extcall_def s1_def fail_def ok_def ret_def)
  show ?thesis
  proof (cases derr)
    case (Some e)
    then show ?thesis
      using assms(2) c d [unfolded url_def]
      by (auto simp: with_agent_def tryE_Inl ret_def s1_def count_calls_def closes_def dials_def)
  next
    case None
    obtain r2 s2 where b: "body url s1 = (r2, s2)" by (cases "body url s1")
    obtain ts where ts: "trace s2 = trace s1 @ ts" "list_all (\<lambda>x. \<not> closes x \<and> \<not> dials x) ts"
      using emitsD [OF body b] .
    have "filter closes ts = []" "filter dials ts = []"
      using ts(2) by (auto simp: list_all_iff filter_empty_conv)
    moreover have "trace s' = trace s2 @ [Rpc ''close'' url []]"
      using assms(2) c None b by (auto simp: with_agent_def tryE_Inr defer_do_def disconnect_def extcall_def)
    ultimately show ?thesis
      using ts(1) None d [unfolded url_def]
      by (simp add: s1_def count_calls_def closes_def dials_def)
  qed
qed

section \<open>Accessors\<close>

text \<open>The getters of a logical volume, of the server and of the version. A method with a \<open>nil\<close>
  group of its volume panics.\<close>

definition Name_lv :: "LogicalVolume \<Rightarrow> string" where
  "Name_lv lv = lvol_name lv"

definition SizeInBytes_lv :: "LogicalVolume \<Rightarrow> uint64" where
  "SizeInBytes_lv lv = lvol_sizeInBytes lv"

definition VgName_lv :: "LogicalVolume \<Rightarrow> string outcome" where
  "VgName_lv lv = (case lvol_vg lv of None \<Rightarrow> Panic nil_deref | Some g \<Rightarrow> Ret (vgroup_name g))"

definition RemovingVolumeGroup_of :: "Server \<Rightarrow> bool" where
  "RemovingVolumeGroup_of srv = srv_removingVolumeGroup srv"

definition ControllerMode_of :: "Server \<Rightarrow> bool" where
  "ControllerMode_of srv = srv_controllerMode srv"

definition Get_version :: Version where
  "Get_version = \<lparr>v_Product = v_Product default_version, v_Version = v_Version default_version,
     v_BuildSHA = v_BuildSHA default_version, v_BuildTime = v_BuildTime default_version\<rparr>"

text \<open>What a lookup returns is the volume asked for, in the group it was asked of.\<close>

lemma lookup_accessors:
  assumes "LookupLogicalVolume sys (Some g) nm s = (Ret (Inr lv), s')"
  shows "Name_lv lv = nm \<and> VgName_lv lv = Ret (vgroup_name g)"
  using assms unfolding LookupLogicalVolume_def find_logical_volume_aux
  by (auto simp: lv_in_def Name_lv_def VgName_lv_def dest: find_lv_Some)

end
