(* ===== verification/DDStatsd.thy ===== *)
theory DDStatsd
  imports Validate
begin

text \<open>
  \<open>pkg/ddstatsd/ddstatsd.go\<close>: the reporter that hands the plugin's metrics to the datadog client.
  The client is a record of parameters, and so is the arithmetic of floating-point numbers,
  of which the code only needs a few values and the printing. Errors of the client are only
  logged. The tags of a metric are a Go map: the list has them in some order.
\<close>

record 'f floats =
  fl_zero :: 'f
  fl_one :: 'f
  fl_max :: 'f
  fl_min :: 'f
  fl_of_int :: "int64 \<Rightarrow> 'f"
  fl_Sprintf :: "string \<Rightarrow> 'f \<Rightarrow> string"
  Duration_String :: "int64 \<Rightarrow> string"

record ('w, 'f) client =
  cl_Count :: "string \<Rightarrow> int64 \<Rightarrow> string list \<Rightarrow> 'f \<Rightarrow> 'w \<Rightarrow> goerr option \<times> 'w"
  cl_Gauge :: "string \<Rightarrow> 'f \<Rightarrow> string list \<Rightarrow> 'f \<Rightarrow> 'w \<Rightarrow> goerr option \<times> 'w"
  cl_Timing :: "string \<Rightarrow> int64 \<Rightarrow> string list \<Rightarrow> 'f \<Rightarrow> 'w \<Rightarrow> goerr option \<times> 'w"
  cl_Histogram :: "string \<Rightarrow> 'f \<Rightarrow> string list \<Rightarrow> 'f \<Rightarrow> 'w \<Rightarrow> goerr option \<times> 'w"
  cl_Flush :: "'w \<Rightarrow> goerr option \<times> 'w"

record ('w, 'f) statsReporter =
  rep_client :: "('w, 'f) client"
  sampleRate :: 'f
  bucketFmt :: string

record 'f Options =
  SampleRate :: 'f
  HistogramBucketNamePrecision :: uint64

definition DefaultHistogramBucketNamePrecision :: uint64 where
  "DefaultHistogramBucketNamePrecision = 6"

definition NewReporter :: "'f floats \<Rightarrow> ('w, 'f) client \<Rightarrow> 'f Options \<Rightarrow> ('w, 'f) statsReporter" where
  "NewReporter fl c opts =
     (let rate = (if SampleRate opts = fl_zero fl then fl_one fl else SampleRate opts);
          prec = (if HistogramBucketNamePrecision opts = 0 then DefaultHistogramBucketNamePrecision
            else HistogramBucketNamePrecision opts)
      in \<lparr>rep_client = c, sampleRate = rate, bucketFmt = ''%.'' @ fmt_int64 prec @ ''f''\<rparr>)"

definition tags_list :: "gomap \<Rightarrow> string list" where
  "tags_list tags = map (\<lambda>(k, v). k @ '':'' @ v) tags"

text \<open>\<open>logErr\<close>: the error of a call is only logged.\<close>

definition report :: "string \<Rightarrow> ('w \<Rightarrow> goerr option \<times> 'w) \<Rightarrow> ('w gs, unit) io" where
  "report name f = ignore (extcall (Os ''statsd'' [name]) f)"

definition ReportCounter :: "('w, 'f) statsReporter \<Rightarrow> string \<Rightarrow> gomap \<Rightarrow> int64 \<Rightarrow> ('w gs, unit) io" where
  "ReportCounter r name tags v = report name (cl_Count (rep_client r) name v (tags_list tags) (sampleRate r))"

definition ReportGauge :: "('w, 'f) statsReporter \<Rightarrow> string \<Rightarrow> gomap \<Rightarrow> 'f \<Rightarrow> ('w gs, unit) io" where
  "ReportGauge r name tags v = report name (cl_Gauge (rep_client r) name v (tags_list tags) (sampleRate r))"

definition ReportTimer :: "('w, 'f) statsReporter \<Rightarrow> string \<Rightarrow> gomap \<Rightarrow> int64 \<Rightarrow> ('w gs, unit) io" where
  "ReportTimer r name tags interval =
     report name (cl_Timing (rep_client r) name interval (tags_list tags) (sampleRate r))"

definition valueBucketString :: "'f floats \<Rightarrow> ('w, 'f) statsReporter \<Rightarrow> 'f \<Rightarrow> string" where
  "valueBucketString fl r upperBound =
     (if upperBound = fl_max fl then ''infinity''
      else if upperBound = fl_min fl then ''-infinity''
      else fl_Sprintf fl (bucketFmt r) upperBound)"

definition durationBucketString :: "'f floats \<Rightarrow> int64 \<Rightarrow> string" where
  "durationBucketString fl upperBound =
     (if upperBound = push_bit 63 1 - 1 then ''infinity''
      else if upperBound = push_bit 63 1 then ''-infinity''
      else Duration_String fl upperBound)"

definition bucket_name :: "string \<Rightarrow> string \<Rightarrow> string \<Rightarrow> string" where
  "bucket_name name lower upper = name @ ''.'' @ lower @ ''-'' @ upper"

definition ReportHistogramValueSamples ::
  "'f floats \<Rightarrow> ('w, 'f) statsReporter \<Rightarrow> string \<Rightarrow> gomap \<Rightarrow> 'f \<Rightarrow> 'f \<Rightarrow> int64 \<Rightarrow> ('w gs, unit) io" where
  "ReportHistogramValueSamples fl r name tags lower upper samples =
     (let n = bucket_name name (valueBucketString fl r lower) (valueBucketString fl r upper)
      in report n (cl_Histogram (rep_client r) n (fl_of_int fl samples) (tags_list tags) (sampleRate r)))"

definition ReportHistogramDurationSamples ::
  "'f floats \<Rightarrow> ('w, 'f) statsReporter \<Rightarrow> string \<Rightarrow> gomap \<Rightarrow> int64 \<Rightarrow> int64 \<Rightarrow> int64 \<Rightarrow> ('w gs, unit) io" where
  "ReportHistogramDurationSamples fl r name tags lower upper samples =
     (let n = bucket_name name (durationBucketString fl lower) (durationBucketString fl upper)
      in report n (cl_Histogram (rep_client r) n (fl_of_int fl samples) (tags_list tags) (sampleRate r)))"

definition Reporting :: bool where "Reporting = True"
definition Tagging :: bool where "Tagging = True"

definition Flush :: "('w, 'f) statsReporter \<Rightarrow> ('w gs, unit) io" where
  "Flush r = ignore (extcall (Os ''flush'' []) (cl_Flush (rep_client r)))"

section \<open>Lemmas\<close>

lemma NewReporter_defaults:
  "NewReporter fl c \<lparr>SampleRate = fl_zero fl, HistogramBucketNamePrecision = 0\<rparr> =
     \<lparr>rep_client = c, sampleRate = fl_one fl, bucketFmt = ''%.6f''\<rparr>"
proof -
  have "fmt_int64 6 = ''6''" by code_simp
  then show ?thesis by (simp add: NewReporter_def DefaultHistogramBucketNamePrecision_def)
qed

text \<open>A report never panics, whatever the client answers, and is one call of the client.\<close>

lemma report_one_call:
  "\<exists>s'. report name f s = (Ret (), s') \<and> trace s' = trace s @ [Os ''statsd'' [name]]"
  by (auto simp: report_def ignore_def bind_def extcall_def ret_def split: prod.split)

text \<open>Every tag of the metric is passed on, once.\<close>

lemma tags_list_length: "length (tags_list tags) = length tags"
  by (simp add: tags_list_def)

end
