(* ===== verification/Spec2Isabelle.thy ===== *)
theory Spec2Isabelle
  imports Metering LookupFailures AgentTable Staging Contexts Cleanup Uptime Leftovers DDStatsd
begin

text \<open>
  csilvm: a CSI plugin that offers the logical volumes of one LVM volume group.

  \<^bold>\<open>The program.\<close> gRPC hands every request to the interceptors (\<open>pkg/csilvm/chain.go\<close>, and in
  \<open>server.go\<close>, \<open>logging.go\<close>, \<open>metrics.go\<close>), these to the validating wrappers of the three CSI
  services (\<open>validate.go\<close>), and these to the server (\<open>server.go\<close>). The server calls package
  \<open>lvm\<close> (\<open>pkg/lvm/lvm.go\<close>) for the volume group, package \<open>virsh\<close> (\<open>pkg/virsh/virsh.go\<close>) for the
  StoLake agent and the iSCSI initiator, and reads the kernel's mount table and modules
  (\<open>mount.go\<close>, \<open>modules.go\<close>). Package \<open>lvm\<close> runs the LVM tools, locally or, in proxy mode, through
  the agent. \<open>cmd/csilvm/csilvm.go\<close> puts these parts together from the command line.

  \<^bold>\<open>How the code is read.\<close> A Go function is a definition of the same name. A function with effects is
  a computation of \<open>Prelude\<close>: it maps a state to an outcome, \<open>Ret\<close> of a value or \<open>Panic\<close>, and a
  state; a result \<open>(T, error)\<close> is the sum \<open>goerr + 'a\<close>. Early returns, deferred calls, nil
  dereferences, and slices and indices out of range are written out. \<open>uint64\<close> and \<open>int64\<close> are words
  of 64 bits, strings are lists of bytes, a Go map is an association list with distinct keys, and a
  pointer that may be nil is an option. Everything outside the repository is a field of a record of
  parameters: \<open>sys\<close> (tools, files, the agent, the hypervisor), \<open>boot\<close> (what \<open>main\<close> asks for),
  \<open>loop_sys\<close> (the loop driver), \<open>semaphore\<close> and \<open>pool\<close> (a weighted semaphore), \<open>tally\<close> (the metrics
  library), \<open>printer\<close>, and the client and arithmetic of \<open>DDStatsd\<close>. The state
  \<open>gs\<close> has the package variables of \<open>virsh\<close>, the state of the outside world, and the trace of external
  calls, which only serves to state what a computation may do.

  \<^bold>\<open>The theories\<close>, in the order of their imports.
  \<^item> \<open>Prelude\<close>: errors, panics, computations, \<open>defer\<close>, and two calculi with introduction rules:
    computations that never panic, and the calls a computation may issue.
  \<^item> \<open>GoStrings\<close>, \<open>GoFmt\<close>, \<open>GoMap\<close>, \<open>Base64\<close>, \<open>Json\<close>: the parts of Go's library the code uses. The
    locale \<open>codec\<close> is the contract of an encoder with its decoder, interpreted on decimal numbers,
    base 64, JSON lists of strings, tags of volume names and lists of iSCSI targets; \<open>dictionary\<close>
    is that of a map.
  \<^item> \<open>GoSystem\<close>: the process: the parameters \<open>sys\<close>, the state and the trace.
  \<^item> \<open>LvmNames\<close>, \<open>LvmLayout\<close>, \<open>LvmCmd\<close>, \<open>Lvm\<close>: package \<open>lvm\<close>; names and tags, layouts with their
    arithmetic, the running of tools, and the methods of groups and volumes. The locale
    \<open>first_item_query\<close> is the contract of a query, interpreted on each of them.
  \<^item> \<open>Virsh\<close>, \<open>Staging\<close>: package \<open>virsh\<close>, and what its cache of staged targets does.
  \<^item> \<open>Mounts\<close>: \<open>mount.go\<close> and \<open>modules.go\<close>, with the panics of the readers.
  \<^item> \<open>Csi\<close>: the CSI messages and services. \<open>Validate\<close>: \<open>validate.go\<close>; the locale \<open>guarded_rpc\<close> is the
    contract of a decorated RPC.
  \<^item> \<open>Server\<close>, \<open>Controller\<close>, \<open>Node\<close>: \<open>server.go\<close>, its configuration and Identity service, its
    Controller service and its Node service; \<open>reportStorageMetrics\<close> of \<open>metrics.go\<close>.
  \<^item> \<open>Chains\<close>, \<open>Interceptors\<close>: \<open>chain.go\<close> with the counter its closures share, and the four
    interceptors; the locale \<open>observer\<close> is the contract of those that only watch.
  \<^item> \<open>Serving\<close>, \<open>Sequential\<close>: requests in flight as a step relation over the two semaphores, which
    running the two interceptors follows (\<open>interceptors_take_steps\<close>), with exclusion, progress and
    termination, given that handlers return; and the interleaving of the actions of the handlers.
  \<^item> \<open>Frames\<close>: the calculus of computations that leave a view of the world alone, and the documented
    behaviour of the LVM tools, \<open>lvm_world\<close>.
  \<^item> \<open>VolumeStore\<close>, \<open>Contexts\<close>, \<open>LookupFailures\<close>: the Controller service as a store of named volumes
    (specification \<open>allowed\<close>), the contexts it hands over, and what remains when \<open>lvs\<close> fails. The
    locales \<open>simulation_while\<close> and \<open>simulation\<close> are the contract of a service that refines a
    specification, step by step and for every sequence of requests.
  \<^item> \<open>MountTable\<close>, \<open>PublishedVolumes\<close>: the documented behaviour of the mount table, \<open>mount_world\<close>, and
    the Node service as a table of published volumes (specification \<open>node_allowed\<close>).
  \<^item> \<open>Services\<close>: the three services together, on the volumes and on the mount table at once
    (specifications \<open>store_allowed\<close>, \<open>table_allowed\<close> and \<open>plugin_allowed\<close>). \<open>AgentTable\<close>: the same in proxy
    mode, on the mounts the agent keeps (\<open>agent_world\<close>, specifications \<open>agent_allowed\<close>, \<open>proxied_allowed\<close>).
  \<^item> \<open>Startup\<close>: \<open>csilvm.go\<close> and \<open>lock.go\<close>. \<open>Metering\<close>: the metrics scope from \<open>main\<close> to the counters of
    requests; it extends the record \<open>Server\<close>, whose options are polymorphic in the extension. \<open>Cleanup\<close>: \<open>cleanup.go\<close> and \<open>loop.go\<close>. \<open>Uptime\<close>:
    \<open>ReportUptime\<close>. \<open>DDStatsd\<close>: \<open>ddstatsd.go\<close>. \<open>Leftovers\<close>: code the plugin does not call.

  \<^bold>\<open>What is shown.\<close> At the top, the started plugin with its three services refines two
  specifications, the store of named volumes and the table of published volumes, also for
  concurrent requests, in proxy mode, in which it usually comes up, and on the node itself (this theory). Below that: requests run one after the other, a bounded
  number wait, all are answered and give back their permits, and each answer is counted once under
  its method; while \<open>lvs\<close> answers no name gets two volumes, and on the node itself no path gets two
  mounts of devices \<open>/dev/sbvg_...\<close>; creating a volume and publishing its file system are idempotent, and
  unpublishing takes back the publication of a file system (block volumes are excepted, see C39); the node logs
  in to the targets that the servers set up; only the named volume is removed, and a device with a file system is not formatted; a new volume has a size within the
  request, and the free space of a layout fits; a validator accepts exactly the documented
  requests; the encodings can be read back. Where the code does not do what it means to, the
  theorem states what it does: wrapped sizes, a second volume after a failed lookup, block volumes
  that stay mounted, errors of the agent not recognised.

  \<^bold>\<open>Hypotheses.\<close> \<open>lvm_world\<close> (\<open>lvs\<close> answers, which excludes time-outs of the agent, and prints the
  volumes of the group; \<open>lvcreate\<close>, with the flags of a layout, and \<open>lvremove\<close> change them as documented
  or fail, and the other calls do not; what a failing \<open>lvs\<close> does is C38), \<open>store_world\<close> (moreover, \<open>lvchange --addtag\<close> adds one
  tag to one volume, and mounting and iSCSI log-ins change no volume), \<open>mount_world\<close> and
  \<open>table_world\<close> (the same for \<open>mount\<close>, \<open>umount\<close> and \<open>mountinfo\<close>), \<open>agent_world\<close> (the agent reports its
  mounts, or fails; a successful request leaves the mount that was asked for), \<open>loop_laws\<close>, \<open>pool_law\<close> (a
  semaphore never admits more than its weight), and \<open>tally_law\<close> (tags are added to a scope, the
  later value wins, and a counter is incremented as told). Each is shown to hold of a small concrete system,
  on which the witnesses run; \<open>host\<close> in \<open>Services\<close> satisfies those of LVM, of the kernel and of the agent at once.

  \<^bold>\<open>Bounds.\<close> The JSON reader has fuel for the nesting of values, at most the length of the text, which
  is what it is given. A chain unfolds as many handlers as it has interceptors, since each
  increments the counter. The ten attempts of \<open>allocate_id\<close> are those of the code. All other
  recursion ends by structure or on a shorter string.

  \<^bold>\<open>Not modelled.\<close> Log lines, except those of the logging interceptor, and the output of \<open>Printf\<close>, which
  nothing reads (\<open>DisplayVols\<close> does nothing else). Flag parsing, listening and \<open>Serve\<close>, which are libraries; the wrapping of a chain into a
  gRPC option. The scopes of tally are a parameter, and the values of the gauges are returned instead
  of set. The texts of JSON errors, one constant. The code after the return of
  \<open>ControllerUnpublishVolume\<close>, which cannot run. The structs \<open>Pool\<close> and \<open>mercinfo\<close>, used nowhere; the
  struct of clients in \<open>client.go\<close> and the variables of the loggers; the generated stubs in
  \<open>pkg/stolake\<close>; the files for deployment.
\<close>

section \<open>The plugin as a whole\<close>

definition small_flags :: FlagValues where
  "small_flags = (default_flags ''host1'' '''')
     \<lparr>volume_group := ''vg0'', unix_addr := ''unix:///csi.sock'', stolake_socket := ''/agent.sock'',
      default_volume_size := 8\<rparr>"

lemma started_served:
  assumes "start sys bt v f s = (Ret (Inr p), s1)"
  obtains sock metrics where "p = served sys v sock (request_limit f) metrics (pl_server p)"
    and "srv_tags (pl_server p) = tags_flag f"
    and "srv_removingVolumeGroup (pl_server p) = remove_volume_group f"
proof -
  from assms obtain sock metrics srv s1' s2' where p: "p = served sys v sock (request_limit f) metrics srv"
    and st: "Setup sys (NewServer (volume_group f) (Split (devices f) CHR '','') (default_fs f) (server_options f)) s2'
        = (Ret (Inr srv), s1)"
    by (rule start_cases)
  have "srv_removingVolumeGroup srv = remove_volume_group f"
    by (subst conjunct2 [OF Setup_Inr [OF st, unfolded new_server_fields]]) (simp add: new_server_fields)
  moreover have "srv_tags (pl_server p) = tags_flag f" using started_plugin [OF assms] by simp
  ultimately show thesis using p by (intro that [of sock metrics]) (simp_all add: served_def)
qed

text \<open>C1: what \<open>main\<close> starts implements the store of named volumes: with the volume group found,
  every sequence of requests to the three services of the started plugin changes the volumes of
  the group by steps of the specification only, under the tags of the flags.\<close>

theorem started_plugin_refines_store:
  assumes "start sys bt v f s = (Ret (Inr p), s1)" and "srv_volumeGroup (pl_server p) = Some g"
    and "store_world sys g view"
  shows "runs (store_allowed (tags_flag f)) reqs (view (ext s2)) (view (ext (fold (serve_plugin p) reqs s2)))"
proof -
  obtain sock metrics where "p = served sys v sock (request_limit f) metrics (pl_server p)"
      "srv_tags (pl_server p) = tags_flag f" using started_served [OF assms(1)] by blast
  then show ?thesis
    using plugin_volumes.run_refines [of sys g view "pl_server p" reqs s2 v sock "request_limit f" metrics] assms(2,3)
    by simp
qed

text \<open>Setting up the server keeps the address of the agent that the flag gives: with the socket of an
  agent, the plugin comes up in proxy mode, and with \<open>none\<close> or nothing it runs on the node itself.\<close>

lemma started_agent:
  assumes "start sys bt v f s = (Ret (Inr p), s1)"
  shows "StolakeURL s1 = stolake_socket f"
proof -
  from assms(1) obtain t1 t2 srv where url: "SetStolakeURL (bt_parses_url bt) sys (stolake_socket f) t1 = (Ret True, t2)"
    and st: "Setup sys (NewServer (volume_group f) (Split (devices f) CHR '','') (default_fs f) (server_options f)) t2
        = (Ret (Inr srv), s1)"
    by (rule start_cases)
  have "keeps_agent (Setup sys srv')" for srv'
    unfolding Setup_def StoLakeInfo_def LookupVolumeGroup_def query_def run_def run_raw_def ProxyStoLakeRun_def VgActivate_def
    by (intro keeps_intros)
  from steadyD [OF this st] SetStolakeURL_True [OF url] show ?thesis by simp
qed

lemma started_proxied:
  "start sys bt v f s = (Ret (Inr p), s1) \<Longrightarrow> stolake_socket f \<notin> {'''', ''none''} \<Longrightarrow> proxied s1"
  using started_agent by (fastforce simp: proxied_def)

lemma started_local:
  "start sys bt v f s = (Ret (Inr p), s1) \<Longrightarrow> stolake_socket f \<in> {'''', ''none''} \<Longrightarrow> \<not> proxied s1"
  using started_agent by (fastforce simp: proxied_def)

text \<open>C4: what \<open>main\<close> starts also implements the table of published volumes, when its flag for the agent is
  empty or \<open>none\<close>, so that it mounts by itself: from the state the start has left, every sequence
  of requests to its services changes the mount table of the kernel by steps of the specification
  only. A step is nothing, or takes the newest mount off the target of an unpublication, or adds
  one mount at the target of a publication, where no mount has a source of the form
  \<open>/dev/sbvg_...\<close>; the bind mounts of block volumes have no such source and do not count. Both are
  said of targets that are the path the kernel shows (\<open>real\<close>).\<close>

theorem started_plugin_refines_mount_table:
  assumes started: "start sys bt v f s = (Ret (Inr p), s1)" and "stolake_socket f \<in> {'''', ''none''}"
    and "table_world sys real view"
  shows "runs (table_allowed real) reqs (mnts view s1) (mnts view (fold (serve_plugin p) reqs s1))"
proof -
  obtain sock metrics where "p = served sys v sock (request_limit f) metrics (pl_server p)"
    using started_served [OF started] by blast
  then show ?thesis
    using plugin_table.run_refines [OF assms(3) started_local [OF assms(1,2)], of reqs v sock "request_limit f" metrics
        "pl_server p"] by simp
qed

lemma in_sequence_serves:
  "(\<And>i. perform (acts i) = serve_plugin p (reqs i)) \<Longrightarrow>
     in_sequence acts ids t = fold (serve_plugin p) (map reqs ids) t"
  by (induction ids arbitrary: t) (simp_all add: in_sequence_def)

text \<open>C5: on the node itself, with an empty flag for the agent or \<open>none\<close>, the started plugin refines
  both specifications for concurrent requests: from the state the start has left, however the
  requests of any number of clients to any of the services arrive, are cancelled and have the
  actions of their handlers interleaved, whenever no handler is running the volumes of the group
  and the mount table are a result of the two specifications for the handled requests, in the order
  in which their handlers finished. In the table of mounts, as in C4, only mounts with a source
  \<open>/dev/sbvg_...\<close> keep a target from being mounted again.\<close>

theorem concurrent_requests_refine_plugin:
  assumes started: "start sys bt v f s = (Ret (Inr p), s1)" and flag: "stolake_socket f \<in> {'''', ''none''}"
    and g: "srv_volumeGroup (pl_server p) = Some g" and world: "store_world sys g view" "table_world sys real mview"
    and work: "(work_step lp sp acts)\<^sup>*\<^sup>* (initial l r s1) m" and "pool_law lp lheld lw" and "pool_law sp sheld 1"
    and "lheld l = 0" and "sheld r = 0" and "0 \<le> lw"
    and handlers: "\<And>i. perform (acts i) = serve_plugin p (reqs i)"
    and idle: "running (sched m) = {}"
  shows "runs (plugin_allowed (tags_flag f) real) (map reqs (finished m))
    (view (ext s1), mnts mview s1) (view (ext (world m)), mnts mview (world m))"
proof -
  have m: "world m = fold (serve_plugin p) (map reqs (finished m)) s1"
    using handlers_sequence [OF work assms(7-11)] idle in_sequence_serves [of acts p reqs, OF handlers] by simp
  obtain sock metrics where "p = served sys v sock (request_limit f) metrics (pl_server p)"
      "srv_tags (pl_server p) = tags_flag f" using started_served [OF started] by blast
  then show ?thesis
    using plugin_both.run_refines [of sys g view "pl_server p" real mview s1 "map reqs (finished m)" v sock
        "request_limit f" metrics] g world m started_local [OF started flag] by simp
qed

text \<open>
  the plugin runs without the agent only when its flag names an existing file whose path is empty
  or \<open>none\<close>: the value \<open>none\<close>, with which \<open>ProxyMode\<close> turns the agent off, is looked up as a file
  first.\<close>

theorem local_mode_needs_file:
  assumes "start sys bt v f s = (Ret (Inr p), s1)" and "\<not> proxied s1"
  shows "stolake_socket f \<in> {'''', ''none''} \<and> (\<exists>w w'. sys_stat sys (stolake_socket f) w = (None, w'))"
proof -
  from assms(1) obtain t1 t2 where "SetStolakeURL (bt_parses_url bt) sys (stolake_socket f) t1 = (Ret True, t2)"
    by (rule start_cases)
  from SetStolakeURL_True [OF this] show ?thesis using started_proxied [OF assms(1)] assms(2) by blast
qed

text \<open>C2: in proxy mode, in which the plugin comes up when its flag names the socket of an agent, it
  refines the store of named volumes and the table of mounts that the agent keeps, from the
  state the start has left: every sequence of requests to its services changes the volumes and
  the agent's mounts by steps of the two specifications only.\<close>

theorem started_plugin_refines_agent_table:
  assumes started: "start sys bt v f s = (Ret (Inr p), s1)" and "stolake_socket f \<notin> {'''', ''none''}"
    and "srv_volumeGroup (pl_server p) = Some g" and "store_world sys g view" and "agent_world sys real mview"
  shows "runs (proxied_allowed (tags_flag f) real) reqs (view (ext s1), mnts mview s1)
    (view (ext (fold (serve_plugin p) reqs s1)), mnts mview (fold (serve_plugin p) reqs s1))"
proof -
  obtain sock metrics where "p = served sys v sock (request_limit f) metrics (pl_server p)"
      "srv_tags (pl_server p) = tags_flag f" using started_served [OF started] by blast
  then show ?thesis
    using agent_both.run_refines [of sys g view "pl_server p" real mview s1 reqs v sock "request_limit f" metrics]
      assms(3-5) started_proxied [OF assms(1,2)] by simp
qed

text \<open>C3: in proxy mode the started plugin refines both specifications for concurrent requests, too: however
  they arrive, are cancelled and have the actions of their handlers interleaved, whenever no handler
  is running, volumes and mounts are a result of the specification for the handled requests in
  the order they finished.\<close>

theorem concurrent_requests_refine_agent_table:
  assumes started: "start sys bt v f s = (Ret (Inr p), s1)" and sock: "stolake_socket f \<notin> {'''', ''none''}"
    and g: "srv_volumeGroup (pl_server p) = Some g" and world: "store_world sys g view" "agent_world sys real mview"
    and work: "(work_step lp sp acts)\<^sup>*\<^sup>* (initial l r s1) m" and "pool_law lp lheld lw" and "pool_law sp sheld 1"
    and "lheld l = 0" and "sheld r = 0" and "0 \<le> lw"
    and handlers: "\<And>i. perform (acts i) = serve_plugin p (reqs i)"
    and idle: "running (sched m) = {}"
  shows "runs (proxied_allowed (tags_flag f) real) (map reqs (finished m))
    (view (ext s1), mnts mview s1) (view (ext (world m)), mnts mview (world m))"
proof -
  obtain sock metrics where p: "p = served sys v sock (request_limit f) metrics (pl_server p)"
      "srv_tags (pl_server p) = tags_flag f" using started_served [OF started] by blast
  have "world m = fold (serve_plugin p) (map reqs (finished m)) s1"
    using handlers_sequence [OF work assms(7-11)] idle in_sequence_serves [of acts p reqs, OF handlers] by simp
  then show ?thesis
    using agent_both.run_refines [of sys g view "pl_server p" real mview s1 "map reqs (finished m)" v sock
        "request_limit f" metrics] g world p started_proxied [OF started assms(2)] by simp
qed

text \<open>C32: a plugin started in remove mode never changes a volume, whatever requests its services
  get: it does not remove the volume group either.\<close>

theorem removing_plugin_keeps_volumes:
  assumes "start sys bt v f s = (Ret (Inr p), s1)" and "remove_volume_group f"
    and "others_still sys view" and "\<And>path. still view (sys_readfile sys path)"
  shows "view (ext (fold (serve_plugin p) reqs s2)) = view (ext s2)"
proof -
  obtain sock metrics where p: "p = served sys v sock (request_limit f) metrics (pl_server p)"
      "srv_removingVolumeGroup (pl_server p)" using started_served [OF assms(1)] assms(2) by metis
  have "view (ext (serve_plugin (served sys v sock (request_limit f) metrics (pl_server p)) q t)) = view (ext t)" for q t
    using removing_plugin_step [OF assms(3,4) p(2)] .
  then have "view (ext (serve_plugin p q t)) = view (ext t)" for q t using p(1) by simp
  then show ?thesis by (induction reqs arbitrary: s2) simp_all
qed

text \<open>The start on the host, with and without the flag \<open>-remove-volume-group\<close>.\<close>

definition host_prepared :: "bool \<Rightarrow> (host_state gs, goerr + (string \<times> (statsd_client \<times> string) option \<times> Server)) io" where
  "host_prepared b = prepare host calm_boot (small_flags\<lparr>remove_volume_group := b\<rparr>)"

definition has_lake :: "(goerr + (string \<times> (statsd_client \<times> string) option \<times> Server)) outcome \<Rightarrow> bool" where
  "has_lake r = (case r of Ret (Inr (sock, metrics, srv)) \<Rightarrow> srv_volumeGroup srv = Some lake | _ \<Rightarrow> False)"

lemma host_prepared_serving: "has_lake (fst (host_prepared False (quiet_state ((False, False), []))))"
  by code_simp

lemma host_prepared_removing: "has_lake (fst (host_prepared True (quiet_state ((False, False), []))))"
  by code_simp

lemma host_started:
  "\<exists>p s'. start host calm_boot default_version (small_flags\<lparr>remove_volume_group := b\<rparr>) (quiet_state ((False, False), [])) =
     (Ret (Inr p), s') \<and> srv_volumeGroup (pl_server p) = Some lake"
proof -
  have "has_lake (fst (host_prepared b (quiet_state ((False, False), []))))"
    using host_prepared_serving host_prepared_removing by (cases b) simp_all
  then obtain sock metrics srv where
    "fst (host_prepared b (quiet_state ((False, False), []))) = Ret (Inr (sock, metrics, srv))" "srv_volumeGroup srv = Some lake"
    by (auto simp: has_lake_def split: outcome.splits sum.splits)
  then show ?thesis
    using start_prepared [OF outcome_state [of "host_prepared b (quiet_state ((False, False), []))",
        unfolded host_prepared_def]]
    by (fastforce simp: host_prepared_def served_def)
qed

lemma small_flags_tags: "tags_flag (small_flags\<lparr>remove_volume_group := b\<rparr>) = []"
  by (simp add: small_flags_def default_flags_def)

lemma host_empty:
  "host_volumes (ext (quiet_state ((False, False), []))) = []" "mnts host_mounts (quiet_state ((False, False), [])) = []"
  by (simp_all add: host_volumes_def host_mounts_def tiny_view_def proxied_def quiet_state_def)

definition sample_requests :: "plugin_request list" where
  "sample_requests = [ToIdentity Probing, ToController (Create plain_create), qos_publish,
     ToController (Delete \<lparr>dv_volume_id = ''csilv0''\<rparr>)]"

theorem started_plugin_refines_store_witness:
  "\<exists>p s'. start host calm_boot default_version (small_flags\<lparr>remove_volume_group := False\<rparr>)
      (quiet_state ((False, False), [])) = (Ret (Inr p), s') \<and>
     runs (store_allowed []) sample_requests []
       (host_volumes (ext (fold (serve_plugin p) sample_requests (quiet_state ((False, False), [])))))"
proof -
  obtain p s' where p: "start host calm_boot default_version (small_flags\<lparr>remove_volume_group := False\<rparr>)
      (quiet_state ((False, False), [])) = (Ret (Inr p), s')" "srv_volumeGroup (pl_server p) = Some lake"
    using host_started by blast
  from started_plugin_refines_store [OF p host_store, of sample_requests "quiet_state ((False, False), [])"] p(1)
  show ?thesis by (auto simp: small_flags_tags host_empty)
qed

text \<open>The start on the host without the agent, and the state it leaves.\<close>

definition local_flags :: FlagValues where
  "local_flags = small_flags\<lparr>stolake_socket := ''none''\<rparr>"

definition local_prepared :: "(host_state gs, goerr + (string \<times> (statsd_client \<times> string) option \<times> Server)) io" where
  "local_prepared = prepare host calm_boot local_flags"

definition local_host :: "host_state gs" where
  "local_host = snd (local_prepared (quiet_state ((False, False), [])))"

lemma local_host_prepared: "has_lake (fst (local_prepared (quiet_state ((False, False), []))))"
  by code_simp

lemma local_host_world: "ext local_host = ((False, False), [])"
  unfolding local_host_def by code_simp

lemma local_host_started:
  "\<exists>p. start host calm_boot default_version local_flags (quiet_state ((False, False), [])) =
     (Ret (Inr p), local_host) \<and> srv_volumeGroup (pl_server p) = Some lake"
proof -
  obtain sock metrics srv where
    "fst (local_prepared (quiet_state ((False, False), []))) = Ret (Inr (sock, metrics, srv))" "srv_volumeGroup srv = Some lake"
    using local_host_prepared by (auto simp: has_lake_def split: outcome.splits sum.splits)
  then show ?thesis
    using start_prepared [OF outcome_state [of "local_prepared (quiet_state ((False, False), []))",
        unfolded local_prepared_def]]
    by (fastforce simp: local_prepared_def served_def local_host_def)
qed

lemma local_host_empty:
  "host_volumes (ext local_host) = []" "mnts host_mounts local_host = []"
  by (simp_all add: local_host_world host_volumes_def host_mounts_def tiny_view_def)

lemma local_flags_fields: "stolake_socket local_flags \<in> {'''', ''none''}" "tags_flag local_flags = []"
  by (simp_all add: local_flags_def small_flags_def default_flags_def)

theorem started_plugin_refines_mount_table_witness:
  "\<exists>p. start host calm_boot default_version local_flags (quiet_state ((False, False), [])) = (Ret (Inr p), local_host) \<and>
     runs (table_allowed (\<lambda>_. True)) sample_requests [] (mnts host_mounts (fold (serve_plugin p) sample_requests local_host))"
proof -
  obtain p where p: "start host calm_boot default_version local_flags (quiet_state ((False, False), [])) =
      (Ret (Inr p), local_host)"
    using local_host_started by blast
  from started_plugin_refines_mount_table [OF p local_flags_fields(1) host_table, of sample_requests] p
  show ?thesis by (simp add: local_host_empty)
qed

theorem concurrent_requests_refine_plugin_witness:
  "\<exists>p. start host calm_boot default_version local_flags (quiet_state ((False, False), [])) = (Ret (Inr p), local_host) \<and>
     runs (plugin_allowed [] (\<lambda>_. True)) [qos_publish] ([], [])
       (host_volumes (ext (world (handled_once (serve_plugin p qos_publish) local_host))),
        mnts host_mounts (world (handled_once (serve_plugin p qos_publish) local_host)))"
proof -
  obtain p where p: "start host calm_boot default_version local_flags (quiet_state ((False, False), [])) =
      (Ret (Inr p), local_host)" "srv_volumeGroup (pl_server p) = Some lake"
    using local_host_started by blast
  have "finished (handled_once (serve_plugin p qos_publish) local_host) = [7]"
    by (simp add: handled_once_def)
  then show ?thesis
    using concurrent_requests_refine_plugin [OF p(1) local_flags_fields(1) p(2) host_store host_table
        handled_once_reachable [of "serve_plugin p qos_publish" local_host]
        counter_law counter_law _ _ _ _ handled_once_idle, where reqs = "\<lambda>_. qos_publish"] p(1)
    by (auto simp: perform_def local_flags_fields(2) local_host_empty)
qed

text \<open>The host after the start, but for the calls in the trace.\<close>

definition started_host :: "host_state gs" where
  "started_host = snd (host_prepared False (quiet_state ((False, False), [])))"

lemma started_host_world: "ext started_host = ((False, False), [])"
  unfolding started_host_def by code_simp

lemma host_started_at:
  "\<exists>p. start host calm_boot default_version (small_flags\<lparr>remove_volume_group := False\<rparr>) (quiet_state ((False, False), [])) =
     (Ret (Inr p), started_host) \<and> srv_volumeGroup (pl_server p) = Some lake"
proof -
  obtain sock metrics srv where
    "fst (host_prepared False (quiet_state ((False, False), []))) = Ret (Inr (sock, metrics, srv))" "srv_volumeGroup srv = Some lake"
    using host_prepared_serving by (auto simp: has_lake_def split: outcome.splits sum.splits)
  then show ?thesis
    using start_prepared [OF outcome_state [of "host_prepared False (quiet_state ((False, False), []))",
        unfolded host_prepared_def]]
    by (fastforce simp: host_prepared_def served_def started_host_def)
qed

lemma small_flags_socket: "stolake_socket (small_flags\<lparr>remove_volume_group := b\<rparr>) \<notin> {'''', ''none''}"
  by (simp add: small_flags_def default_flags_def)

lemma started_host_empty:
  "host_volumes (ext started_host) = []" "mnts host_mounts started_host = []"
  by (simp_all add: started_host_world host_volumes_def host_mounts_def tiny_view_def)

theorem started_plugin_refines_agent_table_witness:
  "\<exists>p. start host calm_boot default_version (small_flags\<lparr>remove_volume_group := False\<rparr>)
      (quiet_state ((False, False), [])) = (Ret (Inr p), started_host) \<and>
     runs (proxied_allowed [] (\<lambda>_. True)) sample_requests ([], [])
       (host_volumes (ext (fold (serve_plugin p) sample_requests started_host)),
        mnts host_mounts (fold (serve_plugin p) sample_requests started_host))"
proof -
  obtain p where p: "start host calm_boot default_version (small_flags\<lparr>remove_volume_group := False\<rparr>)
      (quiet_state ((False, False), [])) = (Ret (Inr p), started_host)" "srv_volumeGroup (pl_server p) = Some lake"
    using host_started_at by blast
  from started_plugin_refines_agent_table [OF p(1) small_flags_socket p(2) host_store host_agent, of sample_requests] p(1)
  show ?thesis by (auto simp: small_flags_tags started_host_empty)
qed

theorem concurrent_requests_refine_agent_table_witness:
  "\<exists>p. start host calm_boot default_version (small_flags\<lparr>remove_volume_group := False\<rparr>)
      (quiet_state ((False, False), [])) = (Ret (Inr p), started_host) \<and>
     runs (proxied_allowed [] (\<lambda>_. True)) [qos_publish] ([], [])
       (host_volumes (ext (world (handled_once (serve_plugin p qos_publish) started_host))),
        mnts host_mounts (world (handled_once (serve_plugin p qos_publish) started_host)))"
proof -
  obtain p where p: "start host calm_boot default_version (small_flags\<lparr>remove_volume_group := False\<rparr>)
      (quiet_state ((False, False), [])) = (Ret (Inr p), started_host)" "srv_volumeGroup (pl_server p) = Some lake"
    using host_started_at by blast
  have "finished (handled_once (serve_plugin p qos_publish) started_host) = [7]"
    by (simp add: handled_once_def)
  then show ?thesis
    using concurrent_requests_refine_agent_table [OF p(1) small_flags_socket p(2) host_store host_agent
        handled_once_reachable [of "serve_plugin p qos_publish" started_host]
        counter_law counter_law _ _ _ _ handled_once_idle, where reqs = "\<lambda>_. qos_publish"] p(1)
    by (auto simp: perform_def small_flags_tags started_host_empty)
qed

theorem removing_plugin_keeps_volumes_witness:
  "\<exists>p s'. start host calm_boot default_version (small_flags\<lparr>remove_volume_group := True\<rparr>)
      (quiet_state ((False, False), [])) = (Ret (Inr p), s') \<and>
     host_volumes (ext (fold (serve_plugin p) sample_requests (quiet_state ((True, False), [])))) = [host_item False]"
proof -
  obtain p s' where p: "start host calm_boot default_version (small_flags\<lparr>remove_volume_group := True\<rparr>)
      (quiet_state ((False, False), [])) = (Ret (Inr p), s')"
    using host_started by blast
  have "host_volumes (ext (fold (serve_plugin p) sample_requests (quiet_state ((True, False), [])))) =
      host_volumes (ext (quiet_state ((True, False), [])))"
    by (rule removing_plugin_keeps_volumes [OF p])
       (simp_all add: store_worldD(5) [OF host_store] node_stillD(14) [OF store_worldD(4) [OF host_store]])
  with p show ?thesis by (auto simp: host_volumes_def quiet_state_def)
qed

end
